theory Spec2Isabelle
  imports Complex_Main "HOL-Library.Word" "HOL-Library.List_Lexorder"
begin

section \<open>Data model (types.ts, db/database.ts)\<close>

text \<open>
  The store is the SQLite database of the server.  Every table is a list of rows in
  retrieval order; a row is a record with the columns the game logic reads or writes.
  Numbers are the INTEGER columns of the schema, modelled as unbounded \<open>int\<close>
  (fractional JavaScript numbers are outside the model).  Timestamps
  (\<open>datetime('now')\<close>, \<open>resolves_at\<close>, \<open>expires_at\<close>) are whole seconds on an
  integer time line, and every function that reads the clock takes \<open>now\<close> as an
  argument; a NULL column is \<open>None\<close>.  The AUTOINCREMENT keys are drawn from the
  \<open>next_*_id\<close> counters.  Field names carry a short prefix
  where the column name alone (\<open>id\<close>, \<open>q\<close>, \<open>r\<close>, \<open>status\<close>) would clash.
  Broadcasts and webhook notifications do not touch the store and are left out; an event
  row keeps its type tag and actor (the description and JSON payload are presentation).
\<close>

subsection \<open>Strings and JSON values\<close>

text \<open>
  A JavaScript string is the list of its UTF-16 code units; \<open>.length\<close>, \<open>.slice\<close>
  and \<open>.trim\<close> work on these units.  \<open>str\<close> writes an ASCII text as such a string.
  (A string holding an unpaired surrogate, which the database driver cannot store as it
  is, is outside the model.)
\<close>

type_synonym jsstring = "16 word list"

definition str :: "char list \<Rightarrow> jsstring" where
  "str cs = map (\<lambda>c. of_nat (of_char c)) cs"

text \<open>
  SQLite keeps TEXT in UTF-8 and compares it byte by byte, which orders texts as the
  sequences of their code points; \<open>codePoints\<close> reads the code points off the code
  units, joining each surrogate pair.
\<close>

fun codePoints :: "jsstring \<Rightarrow> int list" where
  "codePoints (h # l # us) =
     (if 0xD800 \<le> h \<and> h \<le> 0xDBFF \<and> 0xDC00 \<le> l \<and> l \<le> 0xDFFF
      then (0x10000 + (uint h - 0xD800) * 0x400 + (uint l - 0xDC00)) # codePoints us
      else uint h # codePoints (l # us))"
| "codePoints [u] = [uint u]"
| "codePoints [] = []"

text \<open>
  A value of a parsed JSON body (numbers are integers, as everywhere in the model), and a
  value held in a column that is not confined to text.
\<close>

datatype Json =
  JNull | JBool bool | JNumber int | JString jsstring | JArray "Json list"
  | JObject "(jsstring \<times> Json) list"

datatype SqlValue = SqlNull | SqlNumber int | SqlText jsstring

datatype TerrainType = Farmland | Mine | Mixed | Barren

record Agent =
  a_id :: jsstring
  display_name :: jsstring
  food :: int
  metal :: int
  capital_q :: "int option"
  capital_r :: "int option"
  last_seen_at :: "int option"

record Tile =
  t_q :: int
  t_r :: int
  terrain :: TerrainType
  owner_id :: "jsstring option"
  fortification :: int

datatype AttackStatus = AttackPending | AttackResolved

record Attack =
  at_id :: int
  attacker_id :: jsstring
  target_q :: int
  target_r :: int
  commitment :: int
  at_status :: AttackStatus
  resolves_at :: "int option"

datatype TradeStatus = TradePending | TradeAccepted | TradeRejected | TradeExpired

record Trade =
  tr_id :: int
  from_id :: jsstring
  to_id :: jsstring
  offer_food :: int
  offer_metal :: int
  request_food :: int
  request_metal :: int
  tr_status :: TradeStatus
  expires_at :: "int option"

record Message =
  m_id :: int
  m_from_id :: jsstring
  m_to_id :: jsstring
  m_content :: jsstring
  m_read :: bool

datatype EventType =
  EvJoin | EvExpand | EvAttackDeclared | EvAttackSuccess | EvAttackFailed | EvFortify
  | EvGift | EvTradeProposed | EvTradeAccepted | EvTradeRejected | EvTick | EvStarvation

record GameEvent =
  ev_type :: EventType
  ev_actor :: "jsstring option"

record Store =
  agents :: "Agent list"
  tiles :: "Tile list"
  attacks :: "Attack list"
  trades :: "Trade list"
  messages :: "Message list"
  events :: "GameEvent list"
  memories :: "(jsstring \<times> SqlValue) list"
  current_tick :: int
  last_tick_at :: "int option"
  tick_interval_hours :: int
  grid_radius :: int
  next_attack_id :: int
  next_trade_id :: int
  next_message_id :: int

subsection \<open>GAME_CONSTANTS (types.ts)\<close>

definition EXPAND_FOOD_COST :: int where "EXPAND_FOOD_COST = 20"
definition EXPAND_METAL_COST :: int where "EXPAND_METAL_COST = 10"
definition FARMLAND_FOOD :: int where "FARMLAND_FOOD = 10"
definition MINE_METAL :: int where "MINE_METAL = 10"
definition MIXED_FOOD :: int where "MIXED_FOOD = 5"
definition MIXED_METAL :: int where "MIXED_METAL = 5"
definition BARREN_FOOD :: int where "BARREN_FOOD = 2"
definition UPKEEP_FOOD_PER_TILE :: int where "UPKEEP_FOOD_PER_TILE = 3"
definition BASE_TILE_DEFENSE :: int where "BASE_TILE_DEFENSE = 10"
definition ATTACK_RESOLUTION_HOURS :: int where "ATTACK_RESOLUTION_HOURS = 2"
definition TRADE_EXPIRY_HOURS :: int where "TRADE_EXPIRY_HOURS = 24"
definition MAX_MEMORY_CHARS :: nat where "MAX_MEMORY_CHARS = 10000"
definition MAP_EXPANSION_THRESHOLD :: nat where "MAP_EXPANSION_THRESHOLD = 20"
definition MAP_EXPANSION_RINGS :: int where "MAP_EXPANSION_RINGS = 2"

lemmas GAME_CONSTANTS =
  EXPAND_FOOD_COST_def EXPAND_METAL_COST_def FARMLAND_FOOD_def MINE_METAL_def
  MIXED_FOOD_def MIXED_METAL_def BARREN_FOOD_def UPKEEP_FOOD_PER_TILE_def
  BASE_TILE_DEFENSE_def ATTACK_RESOLUTION_HOURS_def TRADE_EXPIRY_HOURS_def
  MAX_MEMORY_CHARS_def MAP_EXPANSION_THRESHOLD_def MAP_EXPANSION_RINGS_def

section \<open>Store access shared by the modules\<close>

text \<open>\<open>SELECT * FROM tiles WHERE q = ? AND r = ?\<close> with \<open>.get\<close>: the first matching row.\<close>

definition getTile :: "Store \<Rightarrow> int \<Rightarrow> int \<Rightarrow> Tile option" where
  "getTile s tq tr = find (\<lambda>t. t_q t = tq \<and> t_r t = tr) (tiles s)"

definition getAgent :: "Store \<Rightarrow> jsstring \<Rightarrow> Agent option" where
  "getAgent s aid = find (\<lambda>a. a_id a = aid) (agents s)"

text \<open>\<open>SELECT * FROM tiles WHERE owner_id = ?\<close>\<close>

definition getAgentTiles :: "Store \<Rightarrow> jsstring \<Rightarrow> Tile list" where
  "getAgentTiles s aid = filter (\<lambda>t. owner_id t = Some aid) (tiles s)"

text \<open>An \<open>UPDATE tiles SET ... WHERE q = ? AND r = ?\<close> rewrites every row with that key.\<close>

definition updateTile :: "Store \<Rightarrow> int \<Rightarrow> int \<Rightarrow> (Tile \<Rightarrow> Tile) \<Rightarrow> Store" where
  "updateTile s tq tr f =
     s\<lparr>tiles := map (\<lambda>t. if t_q t = tq \<and> t_r t = tr then f t else t) (tiles s)\<rparr>"

text \<open>An \<open>UPDATE agents SET ... WHERE id = ?\<close>.\<close>

definition updateAgent :: "Store \<Rightarrow> jsstring \<Rightarrow> (Agent \<Rightarrow> Agent) \<Rightarrow> Store" where
  "updateAgent s aid f =
     s\<lparr>agents := map (\<lambda>a. if a_id a = aid then f a else a) (agents s)\<rparr>"

definition updateAgentResources :: "Store \<Rightarrow> jsstring \<Rightarrow> int \<Rightarrow> int \<Rightarrow> Store" where
  "updateAgentResources s aid foodDelta metalDelta =
     updateAgent s aid (\<lambda>a. a\<lparr>food := food a + foodDelta, metal := metal a + metalDelta\<rparr>)"

definition logEvent :: "Store \<Rightarrow> jsstring option \<Rightarrow> EventType \<Rightarrow> Store" where
  "logEvent s actorId ty = s\<lparr>events := events s @ [\<lparr>ev_type = ty, ev_actor = actorId\<rparr>]\<rparr>"

text \<open>\<open>clearCapitalIfLost\<close> (game/actions.ts).\<close>

definition clearCapitalIfLost :: "Store \<Rightarrow> jsstring \<Rightarrow> int \<Rightarrow> int \<Rightarrow> Store" where
  "clearCapitalIfLost s agentId lostQ lostR =
     (case getAgent s agentId of
        None \<Rightarrow> s
      | Some agent \<Rightarrow>
          if capital_q agent = Some lostQ \<and> capital_r agent = Some lostR
          then updateAgent s agentId (\<lambda>a. a\<lparr>capital_q := None, capital_r := None\<rparr>)
          else s)"

section \<open>Tick processor (tick/processor.ts)\<close>

fun calculateResourceProduction :: "TerrainType \<Rightarrow> int \<times> int" where
  "calculateResourceProduction Farmland = (FARMLAND_FOOD, 0)"
| "calculateResourceProduction Mine = (0, MINE_METAL)"
| "calculateResourceProduction Mixed = (MIXED_FOOD, MIXED_METAL)"
| "calculateResourceProduction Barren = (BARREN_FOOD, 0)"

text \<open>
  \<open>getPendingAttacksToResolve\<close>: the pending attacks whose \<open>resolves_at\<close> is not
  after now, joined with their target tile (an attack without a tile row drops out of the
  join; a NULL \<open>resolves_at\<close> never compares true).  The rows come in table order.
\<close>

definition due :: "int \<Rightarrow> int option \<Rightarrow> bool" where
  "due now d = (case d of None \<Rightarrow> False | Some t \<Rightarrow> t \<le> now)"

definition getPendingAttacksToResolve :: "int \<Rightarrow> Store \<Rightarrow> Attack list" where
  "getPendingAttacksToResolve now s =
     filter (\<lambda>a. at_status a = AttackPending \<and> due now (resolves_at a)
                 \<and> getTile s (target_q a) (target_r a) \<noteq> None) (attacks s)"

definition markResolved :: "Store \<Rightarrow> int \<Rightarrow> Store" where
  "markResolved s aid =
     s\<lparr>attacks := map (\<lambda>a. if at_id a = aid then a\<lparr>at_status := AttackResolved\<rparr> else a)
                      (attacks s)\<rparr>"

text \<open>
  The body of the STEP 1 loop.  \<open>if (previousOwner)\<close> is a JavaScript truthiness test:
  NULL and the empty jsstring both skip the capital clearing.
\<close>

definition resolveAttack :: "Store \<Rightarrow> Attack \<Rightarrow> Store" where
  "resolveAttack s attack =
     (case getTile s (target_q attack) (target_r attack) of
        None \<Rightarrow> markResolved s (at_id attack)
      | Some tile \<Rightarrow>
          let defense = BASE_TILE_DEFENSE + fortification tile;
              attackSuccess = (commitment attack > defense)
          in if attackSuccess then
               let previousOwner = owner_id tile;
                   s1 = updateTile s (target_q attack) (target_r attack)
                          (\<lambda>t. t\<lparr>owner_id := Some (attacker_id attack), fortification := 0\<rparr>);
                   s2 = logEvent s1 (Some (attacker_id attack)) EvAttackSuccess;
                   s3 = (case previousOwner of
                           None \<Rightarrow> s2
                         | Some p \<Rightarrow>
                             if p = [] then s2
                             else clearCapitalIfLost s2 p (target_q attack) (target_r attack))
               in markResolved s3 (at_id attack)
             else
               markResolved (logEvent s (Some (attacker_id attack)) EvAttackFailed)
                 (at_id attack))"

text \<open>
  STEP 2: production for one agent of the \<open>getAllAgents\<close> snapshot.  The inner loop
  over the agent's tiles adds up \<open>totalFood\<close> and \<open>totalMetal\<close>.
\<close>

definition totalProduction :: "Tile list \<Rightarrow> int \<times> int" where
  "totalProduction ts =
     (sum_list (map (\<lambda>t. fst (calculateResourceProduction (terrain t))) ts),
      sum_list (map (\<lambda>t. snd (calculateResourceProduction (terrain t))) ts))"

definition produceAgent :: "Store \<Rightarrow> Agent \<Rightarrow> Store" where
  "produceAgent s agent =
     (let ts = getAgentTiles s (a_id agent);
          totalFood = fst (totalProduction ts);
          totalMetal = snd (totalProduction ts)
      in if totalFood > 0 \<or> totalMetal > 0
         then updateAgentResources s (a_id agent) totalFood totalMetal
         else s)"

text \<open>
  STEP 3: upkeep for one agent.  \<open>Math.ceil(shortfall / 3)\<close> on integers is
  \<open>ceilDiv\<close>; the comparator sort of JavaScript is stable, as \<open>sort_key\<close> is.
\<close>

definition ceilDiv :: "int \<Rightarrow> int \<Rightarrow> int" where
  "ceilDiv a b = - ((- a) div b)"

fun valueOrder :: "TerrainType \<Rightarrow> int" where
  "valueOrder Barren = 0"
| "valueOrder Mixed = 1"
| "valueOrder Mine = 2"
| "valueOrder Farmland = 3"

definition loseTile :: "jsstring \<Rightarrow> Store \<Rightarrow> Tile \<Rightarrow> Store" where
  "loseTile agentId s tileToLose =
     (let s1 = updateTile s (t_q tileToLose) (t_r tileToLose)
                 (\<lambda>t. t\<lparr>owner_id := None, fortification := 0\<rparr>);
          s2 = clearCapitalIfLost s1 agentId (t_q tileToLose) (t_r tileToLose)
      in logEvent s2 (Some agentId) EvStarvation)"

definition tilesToLose :: "int \<Rightarrow> int \<Rightarrow> int" where
  "tilesToLose upkeepCost paidAmount =
     ceilDiv (upkeepCost - paidAmount) UPKEEP_FOOD_PER_TILE"

definition tilesOrdered :: "Tile list \<Rightarrow> Tile list" where
  "tilesOrdered ts = sort_key (\<lambda>t. valueOrder (terrain t)) ts"

text \<open>
  The tiles the loop \<open>for (i = 0; i < Math.min(tilesToLose, tilesOrdered.length); i++)\<close>
  visits: the first \<open>min\<close> many of the ordered tiles.
\<close>

definition starvedTiles :: "int \<Rightarrow> int \<Rightarrow> Tile list \<Rightarrow> Tile list" where
  "starvedTiles upkeepCost paidAmount ts =
     take (nat (min (tilesToLose upkeepCost paidAmount) (int (length (tilesOrdered ts)))))
       (tilesOrdered ts)"

definition upkeepAgent :: "Store \<Rightarrow> Agent \<Rightarrow> Store" where
  "upkeepAgent s agent =
     (let ts = getAgentTiles s (a_id agent);
          upkeepCost = int (length ts) * UPKEEP_FOOD_PER_TILE
      in if upkeepCost > 0 then
           (case getAgent s (a_id agent) of
              None \<Rightarrow> s
            | Some currentAgent \<Rightarrow>
                if food currentAgent \<ge> upkeepCost then
                  updateAgent s (a_id agent) (\<lambda>a. a\<lparr>food := food a - upkeepCost\<rparr>)
                else
                  let paidAmount = food currentAgent;
                      s1 = updateAgent s (a_id agent) (\<lambda>a. a\<lparr>food := 0\<rparr>)
                  in foldl (loseTile (a_id agent)) s1 (starvedTiles upkeepCost paidAmount ts))
         else s)"

text \<open>STEP 4: \<open>UPDATE trades SET status = 'expired' WHERE status = 'pending' AND expires_at <= now\<close>.\<close>

definition expireTrades :: "int \<Rightarrow> Store \<Rightarrow> Store" where
  "expireTrades now s =
     s\<lparr>trades := map (\<lambda>t. if tr_status t = TradePending \<and> due now (expires_at t)
                           then t\<lparr>tr_status := TradeExpired\<rparr> else t) (trades s)\<rparr>"

text \<open>STEP 5 and the whole transaction.\<close>

definition updateGameState :: "int \<Rightarrow> int \<Rightarrow> Store \<Rightarrow> Store" where
  "updateGameState now newTickNumber s =
     logEvent (s\<lparr>current_tick := newTickNumber, last_tick_at := Some now\<rparr>) None EvTick"

definition resolveAttacks :: "int \<Rightarrow> Store \<Rightarrow> Store" where
  "resolveAttacks now s = foldl resolveAttack s (getPendingAttacksToResolve now s)"

definition produceResources :: "Agent list \<Rightarrow> Store \<Rightarrow> Store" where
  "produceResources as s = foldl produceAgent s as"

definition deductUpkeep :: "Agent list \<Rightarrow> Store \<Rightarrow> Store" where
  "deductUpkeep as s = foldl upkeepAgent s as"

definition processTick :: "int \<Rightarrow> Store \<Rightarrow> Store" where
  "processTick now s =
     (let newTickNumber = current_tick s + 1;
          s1 = resolveAttacks now s;
          as = agents s1;
          s2 = produceResources as s1;
          s3 = deductUpkeep as s2;
          s4 = expireTrades now s3
      in updateGameState now newTickNumber s4)"

section \<open>Scheduler (tick/scheduler.ts, tick/processor.ts)\<close>

text \<open>
  \<open>shouldProcessTick\<close> compares the hours since \<open>last_tick_at\<close> with the configured
  interval; on whole seconds that is \<open>now - last \<ge> interval * 3600\<close>.
\<close>

definition shouldProcessTick :: "int \<Rightarrow> Store \<Rightarrow> bool" where
  "shouldProcessTick now s =
     (case last_tick_at s of
        None \<Rightarrow> True
      | Some lastTickTime \<Rightarrow> now - lastTickTime \<ge> tick_interval_hours s * 3600)"

definition checkAndProcessTick :: "int \<Rightarrow> Store \<Rightarrow> Store" where
  "checkAndProcessTick now s = (if shouldProcessTick now s then processTick now s else s)"

definition triggerTickManually :: "int \<Rightarrow> Store \<Rightarrow> Store" where
  "triggerTickManually now s = processTick now s"

section \<open>Actions (game/actions.ts)\<close>

text \<open>
  An action returns an \<open>ActionResponse\<close> and the store it leaves behind.  The failure
  messages of the source are the constructors of \<open>Failure\<close>.
\<close>

datatype Failure =
  TileDoesNotExist | AlreadyClaimed | NoAdjacentTile | NotEnoughFood | NotEnoughMetal
  | AmountNotPositive | TileUnclaimed | OwnTile | DefenderNotFound | NotYourTile
  | RecipientNotFound | RecipientIsSelf | NegativeAmount | NothingToTransfer
  | ContentEmpty | ContentTooLong | TradeNotFound | TradeHasExpired | TradeNotForYou
  | ProposerGone | ProposerLacksResources | AccepterLacksResources

datatype ActionResponse = Success | Failed Failure

definition getNeighbors :: "int \<Rightarrow> int \<Rightarrow> (int \<times> int) list" where
  "getNeighbors nq nr =
     [(nq + 1, nr), (nq - 1, nr), (nq, nr + 1), (nq, nr - 1), (nq + 1, nr - 1), (nq - 1, nr + 1)]"

definition hasAdjacentTerritory :: "Store \<Rightarrow> jsstring \<Rightarrow> int \<Rightarrow> int \<Rightarrow> bool" where
  "hasAdjacentTerritory s agentId targetQ targetR =
     list_ex (\<lambda>(nq, nr). case getTile s nq nr of
                            None \<Rightarrow> False
                          | Some t \<Rightarrow> owner_id t = Some agentId)
       (getNeighbors targetQ targetR)"

definition expand :: "Store \<Rightarrow> Agent \<Rightarrow> int \<Rightarrow> int \<Rightarrow> ActionResponse \<times> Store" where
  "expand s agent targetQ targetR =
     (case getTile s targetQ targetR of
        None \<Rightarrow> (Failed TileDoesNotExist, s)
      | Some targetTile \<Rightarrow>
          if owner_id targetTile \<noteq> None then (Failed AlreadyClaimed, s)
          else if \<not> hasAdjacentTerritory s (a_id agent) targetQ targetR
            then (Failed NoAdjacentTile, s)
          else if food agent < EXPAND_FOOD_COST then (Failed NotEnoughFood, s)
          else if metal agent < EXPAND_METAL_COST then (Failed NotEnoughMetal, s)
          else
            let s1 = updateAgentResources s (a_id agent) (- EXPAND_FOOD_COST) (- EXPAND_METAL_COST);
                s2 = updateTile s1 targetQ targetR (\<lambda>t. t\<lparr>owner_id := Some (a_id agent)\<rparr>)
            in (Success, logEvent s2 (Some (a_id agent)) EvExpand))"

definition insertAttack :: "Store \<Rightarrow> jsstring \<Rightarrow> int \<Rightarrow> int \<Rightarrow> int \<Rightarrow> int \<Rightarrow> Store" where
  "insertAttack s attackerId targetQ targetR cmt resolvesAt =
     s\<lparr>attacks := attacks s @
          [\<lparr>at_id = next_attack_id s, attacker_id = attackerId, target_q = targetQ,
            target_r = targetR, commitment = cmt, at_status = AttackPending,
            resolves_at = Some resolvesAt\<rparr>],
       next_attack_id := next_attack_id s + 1\<rparr>"

definition declareAttack ::
  "Store \<Rightarrow> int \<Rightarrow> Agent \<Rightarrow> int \<Rightarrow> int \<Rightarrow> int \<Rightarrow> ActionResponse \<times> Store" where
  "declareAttack s now agent targetQ targetR cmt =
     (if cmt \<le> 0 then (Failed AmountNotPositive, s)
      else if cmt > metal agent then (Failed NotEnoughMetal, s)
      else case getTile s targetQ targetR of
        None \<Rightarrow> (Failed TileDoesNotExist, s)
      | Some targetTile \<Rightarrow>
          (case owner_id targetTile of
             None \<Rightarrow> (Failed TileUnclaimed, s)
           | Some ownerId \<Rightarrow>
               if ownerId = a_id agent then (Failed OwnTile, s)
               else if \<not> hasAdjacentTerritory s (a_id agent) targetQ targetR
                 then (Failed NoAdjacentTile, s)
               else case getAgent s ownerId of
                 None \<Rightarrow> (Failed DefenderNotFound, s)
               | Some defender \<Rightarrow>
                   let resolvesAt = now + ATTACK_RESOLUTION_HOURS * 3600;
                       s1 = updateAgentResources s (a_id agent) 0 (- cmt);
                       s2 = insertAttack s1 (a_id agent) targetQ targetR cmt resolvesAt
                   in (Success, logEvent s2 (Some (a_id agent)) EvAttackDeclared)))"

definition fortify :: "Store \<Rightarrow> Agent \<Rightarrow> int \<Rightarrow> int \<Rightarrow> int \<Rightarrow> ActionResponse \<times> Store" where
  "fortify s agent targetQ targetR metalAmount =
     (if metalAmount \<le> 0 then (Failed AmountNotPositive, s)
      else if metalAmount > metal agent then (Failed NotEnoughMetal, s)
      else case getTile s targetQ targetR of
        None \<Rightarrow> (Failed TileDoesNotExist, s)
      | Some targetTile \<Rightarrow>
          if owner_id targetTile \<noteq> Some (a_id agent) then (Failed NotYourTile, s)
          else
            let s1 = updateAgentResources s (a_id agent) 0 (- metalAmount);
                s2 = updateTile s1 targetQ targetR
                       (\<lambda>t. t\<lparr>fortification := fortification t + metalAmount\<rparr>)
            in (Success, logEvent s2 (Some (a_id agent)) EvFortify))"

definition giftTile :: "Store \<Rightarrow> Agent \<Rightarrow> int \<Rightarrow> int \<Rightarrow> jsstring \<Rightarrow> ActionResponse \<times> Store" where
  "giftTile s agent targetQ targetR toAgentId =
     (case getTile s targetQ targetR of
        None \<Rightarrow> (Failed TileDoesNotExist, s)
      | Some targetTile \<Rightarrow>
          if owner_id targetTile \<noteq> Some (a_id agent) then (Failed NotYourTile, s)
          else case getAgent s toAgentId of
            None \<Rightarrow> (Failed RecipientNotFound, s)
          | Some recipient \<Rightarrow>
              if a_id recipient = a_id agent then (Failed RecipientIsSelf, s)
              else
                let s1 = updateTile s targetQ targetR (\<lambda>t. t\<lparr>owner_id := Some (a_id recipient)\<rparr>);
                    s2 = clearCapitalIfLost s1 (a_id agent) targetQ targetR
                in (Success, logEvent s2 (Some (a_id agent)) EvGift))"

text \<open>\<open>setCapital\<close> logs its event under the type tag \<open>expand\<close>, as the source does.\<close>

definition setCapital :: "Store \<Rightarrow> Agent \<Rightarrow> int \<Rightarrow> int \<Rightarrow> ActionResponse \<times> Store" where
  "setCapital s agent targetQ targetR =
     (case getTile s targetQ targetR of
        None \<Rightarrow> (Failed TileDoesNotExist, s)
      | Some targetTile \<Rightarrow>
          if owner_id targetTile \<noteq> Some (a_id agent) then (Failed NotYourTile, s)
          else
            let s1 = updateAgent s (a_id agent)
                       (\<lambda>a. a\<lparr>capital_q := Some targetQ, capital_r := Some targetR\<rparr>)
            in (Success, logEvent s1 (Some (a_id agent)) EvExpand))"

definition giftResources ::
  "Store \<Rightarrow> Agent \<Rightarrow> jsstring \<Rightarrow> int \<Rightarrow> int \<Rightarrow> ActionResponse \<times> Store" where
  "giftResources s agent toAgentId fd mt =
     (if fd < 0 \<or> mt < 0 then (Failed NegativeAmount, s)
      else if fd = 0 \<and> mt = 0 then (Failed NothingToTransfer, s)
      else if fd > food agent then (Failed NotEnoughFood, s)
      else if mt > metal agent then (Failed NotEnoughMetal, s)
      else case getAgent s toAgentId of
        None \<Rightarrow> (Failed RecipientNotFound, s)
      | Some recipient \<Rightarrow>
          if a_id recipient = a_id agent then (Failed RecipientIsSelf, s)
          else
            let s1 = updateAgentResources s (a_id agent) (- fd) (- mt);
                s2 = updateAgentResources s1 (a_id recipient) fd mt
            in (Success, logEvent s2 (Some (a_id agent)) EvGift))"

section \<open>Messages and trades (game/communication.ts)\<close>

text \<open>
  \<open>String.prototype.trim\<close> removes leading and trailing white space and line
  terminators of ECMAScript: TAB, LF, VT, FF, CR, SPACE, NO-BREAK SPACE, the other space
  separators (U+1680, U+2000 to U+200A, U+202F, U+205F, U+3000), LINE SEPARATOR,
  PARAGRAPH SEPARATOR and the byte order mark U+FEFF.
\<close>

definition isWhiteSpace :: "16 word \<Rightarrow> bool" where
  "isWhiteSpace c =
     (c \<in> set [0x0009, 0x000A, 0x000B, 0x000C, 0x000D, 0x0020, 0x00A0, 0x1680,
                0x2000, 0x2001, 0x2002, 0x2003, 0x2004, 0x2005, 0x2006, 0x2007, 0x2008,
                0x2009, 0x200A, 0x2028, 0x2029, 0x202F, 0x205F, 0x3000, 0xFEFF])"

definition trim :: "jsstring \<Rightarrow> jsstring" where
  "trim content = rev (dropWhile isWhiteSpace (rev (dropWhile isWhiteSpace content)))"

definition insertMessage :: "Store \<Rightarrow> jsstring \<Rightarrow> jsstring \<Rightarrow> jsstring \<Rightarrow> Store" where
  "insertMessage s fromId toId content =
     s\<lparr>messages := messages s @
          [\<lparr>m_id = next_message_id s, m_from_id = fromId, m_to_id = toId,
            m_content = content, m_read = False\<rparr>],
       next_message_id := next_message_id s + 1\<rparr>"

definition sendMessage :: "Store \<Rightarrow> Agent \<Rightarrow> jsstring \<Rightarrow> jsstring \<Rightarrow> ActionResponse \<times> Store" where
  "sendMessage s agent toAgentId content =
     (if content = [] \<or> length (trim content) = 0 then (Failed ContentEmpty, s)
      else if length content > 2000 then (Failed ContentTooLong, s)
      else case getAgent s toAgentId of
        None \<Rightarrow> (Failed RecipientNotFound, s)
      | Some recipient \<Rightarrow>
          if a_id recipient = a_id agent then (Failed RecipientIsSelf, s)
          else (Success, insertMessage s (a_id agent) (a_id recipient) (trim content)))"

definition insertTrade ::
  "Store \<Rightarrow> jsstring \<Rightarrow> jsstring \<Rightarrow> int \<Rightarrow> int \<Rightarrow> int \<Rightarrow> int \<Rightarrow> int \<Rightarrow> Store" where
  "insertTrade s fromId toId offerFood offerMetal requestFood requestMetal expiresAt =
     s\<lparr>trades := trades s @
          [\<lparr>tr_id = next_trade_id s, from_id = fromId, to_id = toId,
            offer_food = offerFood, offer_metal = offerMetal,
            request_food = requestFood, request_metal = requestMetal,
            tr_status = TradePending, expires_at = Some expiresAt\<rparr>],
       next_trade_id := next_trade_id s + 1\<rparr>"

definition proposeTrade ::
  "Store \<Rightarrow> int \<Rightarrow> Agent \<Rightarrow> jsstring \<Rightarrow> int \<Rightarrow> int \<Rightarrow> int \<Rightarrow> int \<Rightarrow> ActionResponse \<times> Store" where
  "proposeTrade s now agent toAgentId offerFood offerMetal requestFood requestMetal =
     (if offerFood < 0 \<or> offerMetal < 0 \<or> requestFood < 0 \<or> requestMetal < 0
        then (Failed NegativeAmount, s)
      else if offerFood = 0 \<and> offerMetal = 0 \<and> requestFood = 0 \<and> requestMetal = 0
        then (Failed NothingToTransfer, s)
      else if offerFood > food agent then (Failed NotEnoughFood, s)
      else if offerMetal > metal agent then (Failed NotEnoughMetal, s)
      else case getAgent s toAgentId of
        None \<Rightarrow> (Failed RecipientNotFound, s)
      | Some recipient \<Rightarrow>
          if a_id recipient = a_id agent then (Failed RecipientIsSelf, s)
          else
            let expiresAt = now + TRADE_EXPIRY_HOURS * 3600;
                s1 = insertTrade s (a_id agent) (a_id recipient)
                       offerFood offerMetal requestFood requestMetal expiresAt
            in (Success, logEvent s1 (Some (a_id agent)) EvTradeProposed))"

text \<open>\<open>UPDATE trades SET status = ? WHERE id = ?\<close>\<close>

definition setTradeStatus :: "Store \<Rightarrow> int \<Rightarrow> TradeStatus \<Rightarrow> Store" where
  "setTradeStatus s tradeId st =
     s\<lparr>trades := map (\<lambda>t. if tr_id t = tradeId then t\<lparr>tr_status := st\<rparr> else t) (trades s)\<rparr>"

text \<open>\<open>SELECT * FROM trades WHERE id = ? AND status = 'pending'\<close>\<close>

definition getPendingTrade :: "Store \<Rightarrow> int \<Rightarrow> Trade option" where
  "getPendingTrade s tradeId =
     find (\<lambda>t. tr_id t = tradeId \<and> tr_status t = TradePending) (trades s)"

text \<open>
  \<open>trade.expires_at && new Date(trade.expires_at) < new Date()\<close>: a strict comparison,
  false for a NULL expiry.
\<close>

definition isExpired :: "int \<Rightarrow> Trade \<Rightarrow> bool" where
  "isExpired now trade = (case expires_at trade of None \<Rightarrow> False | Some e \<Rightarrow> e < now)"

definition acceptTrade :: "Store \<Rightarrow> int \<Rightarrow> Agent \<Rightarrow> int \<Rightarrow> ActionResponse \<times> Store" where
  "acceptTrade s now agent tradeId =
     (case getPendingTrade s tradeId of
        None \<Rightarrow> (Failed TradeNotFound, s)
      | Some trade \<Rightarrow>
          if isExpired now trade
            then (Failed TradeHasExpired, setTradeStatus s tradeId TradeExpired)
          else if to_id trade \<noteq> a_id agent then (Failed TradeNotForYou, s)
          else case getAgent s (from_id trade) of
            None \<Rightarrow> (Failed ProposerGone, s)
          | Some proposer \<Rightarrow>
              if food proposer < offer_food trade \<or> metal proposer < offer_metal trade
                then (Failed ProposerLacksResources, setTradeStatus s tradeId TradeExpired)
              else if food agent < request_food trade \<or> metal agent < request_metal trade
                then (Failed AccepterLacksResources, s)
              else
                let s1 = updateAgentResources s (a_id proposer)
                           (- offer_food trade + request_food trade)
                           (- offer_metal trade + request_metal trade);
                    s2 = updateAgentResources s1 (a_id agent)
                           (offer_food trade - request_food trade)
                           (offer_metal trade - request_metal trade);
                    s3 = setTradeStatus s2 tradeId TradeAccepted
                in (Success, logEvent s3 None EvTradeAccepted))"

definition rejectTrade :: "Store \<Rightarrow> Agent \<Rightarrow> int \<Rightarrow> ActionResponse \<times> Store" where
  "rejectTrade s agent tradeId =
     (case getPendingTrade s tradeId of
        None \<Rightarrow> (Failed TradeNotFound, s)
      | Some trade \<Rightarrow>
          if to_id trade \<noteq> a_id agent then (Failed TradeNotForYou, s)
          else
            let proposer = getAgent s (from_id trade);
                s1 = setTradeStatus s tradeId TradeRejected
            in (Success, case proposer of
                           None \<Rightarrow> s1
                         | Some p \<Rightarrow> logEvent s1 (Some (a_id agent)) EvTradeRejected))"

section \<open>The action endpoint (routes/actions.ts)\<close>

text \<open>
  The request body after JSON parsing.  A field is \<open>Some v\<close> when it is present with
  the JavaScript type the handler tests for (\<open>typeof ... === 'number'\<close> or
  \<open>'jsstring'\<close>) and \<open>None\<close> otherwise.  The amounts the handler reads as
  \<open>action.food || 0\<close> are numbers or absent, as the \<open>AgentAction\<close> type declares.
  \<open>save_memory\<close> is handed to \<open>saveAgentMemory\<close> unchecked whenever the body has
  the key, so it is any JSON value, or \<open>None\<close> when the key is absent.
\<close>

record AgentAction =
  a_type :: "jsstring option"
  a_target_q :: "int option"
  a_target_r :: "int option"
  a_commitment :: "int option"
  a_metal_amount :: "int option"
  a_to_agent_id :: "jsstring option"
  a_food :: "int option"
  a_metal :: "int option"
  a_content :: "jsstring option"
  a_offer_food :: "int option"
  a_offer_metal :: "int option"
  a_request_food :: "int option"
  a_request_metal :: "int option"
  a_trade_id :: "int option"

record ActionRequest =
  action :: "AgentAction option"
  save_memory :: "Json option"

datatype ValidationError =
  InvalidActionFormat | RequiresTarget | RequiresCommitment | RequiresMetalAmount
  | RequiresToAgentId | RequiresContent | RequiresTradeId | UnknownActionType

text \<open>
  The responses of the endpoint: the JSON bodies the handler sends (404, the 400 of a
  validation error, and the \<open>ActionResponse\<close> of an executed action, sent with status
  200 on success and 400 on failure), and the 500 page Express sends when the handler
  throws.
\<close>

datatype HttpResponse =
  AgentNotFound404 | BadRequest400 ValidationError | Result ActionResponse
  | InternalServerError500

definition orZero :: "int option \<Rightarrow> int" where
  "orZero v = (case v of None \<Rightarrow> 0 | Some n \<Rightarrow> n)"

text \<open>\<open>UPDATE agent_memories SET content = ? WHERE agent_id = ?\<close>\<close>

definition writeMemory :: "Store \<Rightarrow> jsstring \<Rightarrow> SqlValue \<Rightarrow> Store" where
  "writeMemory s agentId v =
     s\<lparr>memories := map (\<lambda>(k, old). if k = agentId then (k, v) else (k, old)) (memories s)\<rparr>"

text \<open>
  The values the database driver binds to a statement parameter: numbers, strings and
  null.  A boolean, an array or an object makes it throw a \<open>TypeError\<close>.
\<close>

fun bindValue :: "Json \<Rightarrow> SqlValue option" where
  "bindValue JNull = Some SqlNull"
| "bindValue (JNumber n) = Some (SqlNumber n)"
| "bindValue (JString c) = Some (SqlText c)"
| "bindValue (JBool b) = None"
| "bindValue (JArray xs) = None"
| "bindValue (JObject kvs) = None"

text \<open>
  \<open>saveAgentMemory\<close>; \<open>None\<close> stands for a thrown exception.  \<open>content.slice\<close>
  exists for a string and for an array and is a \<open>TypeError\<close> for every other value.
  The result goes to \<open>.run(truncated, agentId)\<close>: the driver takes an array argument
  as a list of positional parameters, so a sliced array followed by the agent id fills
  the two parameters of the statement exactly when it has one element, which must be
  bindable; any other length is a \<open>RangeError\<close>.
\<close>

definition saveAgentMemory :: "Store \<Rightarrow> jsstring \<Rightarrow> Json \<Rightarrow> Store option" where
  "saveAgentMemory s agentId content =
     (case content of
        JString c \<Rightarrow> Some (writeMemory s agentId (SqlText (take MAX_MEMORY_CHARS c)))
      | JArray xs \<Rightarrow>
          (case take MAX_MEMORY_CHARS xs of
             [x] \<Rightarrow> map_option (writeMemory s agentId) (bindValue x)
           | _ \<Rightarrow> None)
      | _ \<Rightarrow> None)"

definition executeAction ::
  "Store \<Rightarrow> int \<Rightarrow> Agent \<Rightarrow> jsstring \<Rightarrow> AgentAction \<Rightarrow> HttpResponse \<times> Store" where
  "executeAction s now agent ty act =
     (if ty = str ''expand'' then
        (case (a_target_q act, a_target_r act) of
           (Some tq, Some tr) \<Rightarrow> apfst Result (expand s agent tq tr)
         | _ \<Rightarrow> (BadRequest400 RequiresTarget, s))
      else if ty = str ''attack'' then
        (case (a_target_q act, a_target_r act) of
           (Some tq, Some tr) \<Rightarrow>
             (case a_commitment act of
                Some c \<Rightarrow> if c \<le> 0 then (BadRequest400 RequiresCommitment, s)
                          else apfst Result (declareAttack s now agent tq tr c)
              | None \<Rightarrow> (BadRequest400 RequiresCommitment, s))
         | _ \<Rightarrow> (BadRequest400 RequiresTarget, s))
      else if ty = str ''fortify'' then
        (case (a_target_q act, a_target_r act) of
           (Some tq, Some tr) \<Rightarrow>
             (case a_metal_amount act of
                Some m \<Rightarrow> if m \<le> 0 then (BadRequest400 RequiresMetalAmount, s)
                          else apfst Result (fortify s agent tq tr m)
              | None \<Rightarrow> (BadRequest400 RequiresMetalAmount, s))
         | _ \<Rightarrow> (BadRequest400 RequiresTarget, s))
      else if ty = str ''gift_tile'' then
        (case (a_target_q act, a_target_r act) of
           (Some tq, Some tr) \<Rightarrow>
             (case a_to_agent_id act of
                Some to \<Rightarrow> apfst Result (giftTile s agent tq tr to)
              | None \<Rightarrow> (BadRequest400 RequiresToAgentId, s))
         | _ \<Rightarrow> (BadRequest400 RequiresTarget, s))
      else if ty = str ''gift_resources'' then
        (case a_to_agent_id act of
           Some to \<Rightarrow>
             apfst Result (giftResources s agent to (orZero (a_food act)) (orZero (a_metal act)))
         | None \<Rightarrow> (BadRequest400 RequiresToAgentId, s))
      else if ty = str ''message'' then
        (case a_to_agent_id act of
           Some to \<Rightarrow>
             (case a_content act of
                Some c \<Rightarrow> apfst Result (sendMessage s agent to c)
              | None \<Rightarrow> (BadRequest400 RequiresContent, s))
         | None \<Rightarrow> (BadRequest400 RequiresToAgentId, s))
      else if ty = str ''trade_propose'' then
        (case a_to_agent_id act of
           Some to \<Rightarrow>
             apfst Result (proposeTrade s now agent to
               (orZero (a_offer_food act)) (orZero (a_offer_metal act))
               (orZero (a_request_food act)) (orZero (a_request_metal act)))
         | None \<Rightarrow> (BadRequest400 RequiresToAgentId, s))
      else if ty = str ''trade_accept'' then
        (case a_trade_id act of
           Some tid \<Rightarrow> apfst Result (acceptTrade s now agent tid)
         | None \<Rightarrow> (BadRequest400 RequiresTradeId, s))
      else if ty = str ''trade_reject'' then
        (case a_trade_id act of
           Some tid \<Rightarrow> apfst Result (rejectTrade s agent tid)
         | None \<Rightarrow> (BadRequest400 RequiresTradeId, s))
      else if ty = str ''wait'' then (Result Success, s)
      else if ty = str ''set_capital'' then
        (case (a_target_q act, a_target_r act) of
           (Some tq, Some tr) \<Rightarrow> apfst Result (setCapital s agent tq tr)
         | _ \<Rightarrow> (BadRequest400 RequiresTarget, s))
      else (BadRequest400 UnknownActionType, s))"

text \<open>
  \<open>router.post('/:id/action')\<close>.  The agent row is read first; \<open>last_seen_at\<close> and
  the memory are written before the action is validated; the action functions receive
  the row as it was read.  The handler runs outside any transaction, so when
  \<open>saveAgentMemory\<close> throws, the write of \<open>last_seen_at\<close> stays and the request ends
  with the 500 page.
\<close>

definition submitAction ::
  "Store \<Rightarrow> int \<Rightarrow> jsstring \<Rightarrow> ActionRequest \<Rightarrow> HttpResponse \<times> Store" where
  "submitAction s now agentId body =
     (case getAgent s agentId of
        None \<Rightarrow> (AgentNotFound404, s)
      | Some agent \<Rightarrow>
          let s1 = updateAgent s agentId (\<lambda>a. a\<lparr>last_seen_at := Some now\<rparr>)
          in case (case save_memory body of
                     None \<Rightarrow> Some s1
                   | Some m \<Rightarrow> saveAgentMemory s1 agentId m) of
               None \<Rightarrow> (InternalServerError500, s1)
             | Some s2 \<Rightarrow>
                 (case action body of
                    None \<Rightarrow> (BadRequest400 InvalidActionFormat, s2)
                  | Some act \<Rightarrow>
                      (case a_type act of
                         None \<Rightarrow> (BadRequest400 InvalidActionFormat, s2)
                       | Some ty \<Rightarrow>
                           if ty = [] then (BadRequest400 InvalidActionFormat, s2)
                           else executeAction s2 now agent ty act)))"

section \<open>Grid generation and expansion (db/database.ts)\<close>

text \<open>
  \<open>randomTerrain()\<close> draws from \<open>Math.random\<close>; the terrain drawn for the tile
  inserted at a coordinate is the parameter \<open>rnd\<close>.
\<close>

definition newTile :: "(int \<Rightarrow> int \<Rightarrow> TerrainType) \<Rightarrow> int \<Rightarrow> int \<Rightarrow> Tile" where
  "newTile rnd tq tr =
     \<lparr>t_q = tq, t_r = tr, terrain = rnd tq tr, owner_id = None, fortification = 0\<rparr>"

definition generateInitialGrid :: "(int \<Rightarrow> int \<Rightarrow> TerrainType) \<Rightarrow> Tile list" where
  "generateInitialGrid rnd =
     (let gridRadius = 8
      in concat (map (\<lambda>gq. map (\<lambda>gr. newTile rnd gq gr)
                               [max (- gridRadius) (- gq - gridRadius) ..
                                min gridRadius (- gq + gridRadius)])
                     [- gridRadius .. gridRadius]))"

definition initializeDatabase :: "int \<Rightarrow> (int \<Rightarrow> int \<Rightarrow> TerrainType) \<Rightarrow> Store" where
  "initializeDatabase now rnd =
     \<lparr>agents = [], tiles = generateInitialGrid rnd, attacks = [], trades = [],
      messages = [], events = [], memories = [], current_tick = 0,
      last_tick_at = Some now, tick_interval_hours = 2, grid_radius = 8,
      next_attack_id = 1, next_trade_id = 1, next_message_id = 1\<rparr>"

definition ringDirections :: "(int \<times> int) list" where
  "ringDirections = [(1, 0), (1, - 1), (0, - 1), (- 1, 0), (- 1, 1), (0, 1)]"

definition walkEdge ::
  "nat \<Rightarrow> (int \<times> int) list \<times> int \<times> int \<Rightarrow> int \<times> int \<Rightarrow> (int \<times> int) list \<times> int \<times> int" where
  "walkEdge d st dir =
     foldl (\<lambda>(coords, wq, wr) step. (coords @ [(wq, wr)], wq + fst dir, wr + snd dir))
       st [0 ..< d]"

definition getHexRingCoords :: "int \<Rightarrow> (int \<times> int) list" where
  "getHexRingCoords d =
     (if d = 0 then [(0, 0)]
      else fst (foldl (walkEdge (nat d)) ([], - d, d) ringDirections))"

definition getUnclaimedCount :: "Store \<Rightarrow> nat" where
  "getUnclaimedCount s = length (filter (\<lambda>t. owner_id t = None) (tiles s))"

text \<open>\<open>INSERT OR IGNORE INTO tiles\<close>: a row whose key exists is skipped.\<close>

definition insertTileOrIgnore :: "Store \<Rightarrow> Tile \<Rightarrow> Store" where
  "insertTileOrIgnore s t =
     (case getTile s (t_q t) (t_r t) of
        None \<Rightarrow> s\<lparr>tiles := tiles s @ [t]\<rparr>
      | Some _ \<Rightarrow> s)"

definition expandGrid :: "(int \<Rightarrow> int \<Rightarrow> TerrainType) \<Rightarrow> int \<Rightarrow> Store \<Rightarrow> Store" where
  "expandGrid rnd rings s =
     (let currentRadius = grid_radius s;
          newRadius = currentRadius + rings;
          s1 = foldl (\<lambda>st d. foldl (\<lambda>st' (cq, cr). insertTileOrIgnore st' (newTile rnd cq cr))
                               st (getHexRingCoords d))
                 s [currentRadius + 1 .. newRadius]
      in s1\<lparr>grid_radius := newRadius\<rparr>)"

section \<open>Joining and the admin reset (routes/agent.ts, index.ts)\<close>

text \<open>
  \<open>findStartingTile\<close>: the unclaimed tile with the least \<open>q*q + r*r + q*r\<close>; rows of
  equal distance keep their table order.
\<close>

definition findStartingTile :: "Store \<Rightarrow> Tile option" where
  "findStartingTile s =
     (case sort_key (\<lambda>t. t_q t * t_q t + t_r t * t_r t + t_q t * t_r t)
             (filter (\<lambda>t. owner_id t = None) (tiles s)) of
        [] \<Rightarrow> None
      | t # _ \<Rightarrow> Some t)"

record JoinRequest =
  j_agent_id :: "jsstring option"
  j_display_name :: "jsstring option"

datatype JoinResponse =
  JoinBadRequest400 | JoinConflict409 | JoinNoTiles503 | JoinCreated201 int int

definition insertAgent :: "Store \<Rightarrow> jsstring \<Rightarrow> jsstring \<Rightarrow> Store" where
  "insertAgent s newId newName =
     s\<lparr>agents := agents s @
          [\<lparr>a_id = newId, display_name = newName, food = 100, metal = 50,
            capital_q = None, capital_r = None, last_seen_at = None\<rparr>],
       memories := memories s @ [(newId, SqlText [])]\<rparr>"

definition assignStartingTile :: "Store \<Rightarrow> jsstring \<Rightarrow> Tile \<Rightarrow> Store" where
  "assignStartingTile s agentId t =
     (let s1 = updateTile s (t_q t) (t_r t) (\<lambda>x. x\<lparr>owner_id := Some agentId\<rparr>)
      in updateAgent s1 agentId (\<lambda>a. a\<lparr>capital_q := Some (t_q t), capital_r := Some (t_r t)\<rparr>))"

definition joinAgent ::
  "Store \<Rightarrow> (int \<Rightarrow> int \<Rightarrow> TerrainType) \<Rightarrow> JoinRequest \<Rightarrow> JoinResponse \<times> Store" where
  "joinAgent s rnd body =
     (case (j_agent_id body, j_display_name body) of
        (Some agent_id, Some name) \<Rightarrow>
          if length (trim agent_id) < 2 \<or> length (trim name) < 2 then (JoinBadRequest400, s)
          else
            let trimmedId = trim agent_id; trimmedName = trim name
            in if getAgent s trimmedId \<noteq> None then (JoinConflict409, s)
               else if find (\<lambda>a. display_name a = trimmedName) (agents s) \<noteq> None
                 then (JoinConflict409, s)
               else
                 let s1 = (if getUnclaimedCount s < MAP_EXPANSION_THRESHOLD
                           then expandGrid rnd MAP_EXPANSION_RINGS s else s)
                 in case findStartingTile s1 of
                      None \<Rightarrow> (JoinNoTiles503, s1)
                    | Some startingTile \<Rightarrow>
                        let s2 = insertAgent s1 trimmedId trimmedName;
                            s3 = assignStartingTile s2 trimmedId startingTile;
                            s4 = s3\<lparr>events := events s3 @
                                   [\<lparr>ev_type = EvJoin, ev_actor = Some trimmedId\<rparr>]\<rparr>
                        in (JoinCreated201 (t_q startingTile) (t_r startingTile), s4)
      | _ \<Rightarrow> (JoinBadRequest400, s))"

definition orDefault :: "int \<Rightarrow> int option \<Rightarrow> int" where
  "orDefault d v = (case v of None \<Rightarrow> d | Some n \<Rightarrow> if n = 0 then d else n)"

text \<open>
  The admin reset.  Its loop runs over \<open>SELECT id FROM agents\<close>, which SQLite answers
  from the index of the primary key alone: the ids come in the order of that index,
  ascending by id, not in table order.
\<close>

definition agentIdsInIndexOrder :: "Store \<Rightarrow> jsstring list" where
  "agentIdsInIndexOrder s = sort_key codePoints (map a_id (agents s))"

definition resetAssign :: "Store \<Rightarrow> jsstring \<Rightarrow> Store" where
  "resetAssign s agentId =
     (case findStartingTile s of
        None \<Rightarrow> s
      | Some t \<Rightarrow> assignStartingTile s agentId t)"

definition adminReset :: "Store \<Rightarrow> int \<Rightarrow> jsstring list \<Rightarrow> int option \<Rightarrow> int option \<Rightarrow> Store" where
  "adminReset s now keepAgentIds fd mt =
     (let startFood = orDefault 200 fd;
          startMetal = orDefault 100 mt;
          s1 = s\<lparr>events := [], messages := [], trades := [], attacks := []\<rparr>;
          s2 = s1\<lparr>tiles := map (\<lambda>t. t\<lparr>owner_id := None, fortification := 0\<rparr>) (tiles s1)\<rparr>;
          s3 = (if keepAgentIds \<noteq> []
                then s2\<lparr>memories := filter (\<lambda>(k, v). k \<in> set keepAgentIds) (memories s2),
                        agents := filter (\<lambda>a. a_id a \<in> set keepAgentIds) (agents s2)\<rparr>
                else s2);
          s4 = s3\<lparr>agents := map (\<lambda>a. a\<lparr>food := startFood, metal := startMetal\<rparr>) (agents s3),
                  memories := map (\<lambda>(k, v). (k, SqlText [])) (memories s3)\<rparr>;
          s5 = foldl resetAssign s4 (agentIdsInIndexOrder s4)
      in s5\<lparr>current_tick := 0, last_tick_at := Some now\<rparr>)"

section \<open>Reachable stores\<close>

text \<open>
  The stores the server can be in: the freshly initialised database, and whatever an
  action request, a join, a scheduler check, a manual tick or an admin reset makes of a
  reachable store.  (The memory, strategy and mark-read endpoints write no tile, agent
  balance, attack or trade.)
\<close>

inductive reachable :: "Store \<Rightarrow> bool" where
  r_init: "reachable (initializeDatabase now rnd)"
| r_action: "reachable s \<Longrightarrow> reachable (snd (submitAction s now agentId body))"
| r_join: "reachable s \<Longrightarrow> reachable (snd (joinAgent s rnd jbody))"
| r_check: "reachable s \<Longrightarrow> reachable (checkAndProcessTick now s)"
| r_manual: "reachable s \<Longrightarrow> reachable (triggerTickManually now s)"
| r_reset: "reachable s \<Longrightarrow> reachable (adminReset s now keepAgentIds fd mt)"

text \<open>The properties of a store that the claims speak about.\<close>

definition coord :: "Tile \<Rightarrow> int \<times> int" where
  "coord t = (t_q t, t_r t)"

definition unclaimedUnfortified :: "Store \<Rightarrow> bool" where
  "unclaimedUnfortified s = list_all (\<lambda>t. owner_id t \<noteq> None \<or> fortification t = 0) (tiles s)"

definition tileKeysDistinct :: "Store \<Rightarrow> bool" where
  "tileKeysDistinct s = distinct (map coord (tiles s))"

definition agentIdsDistinct :: "Store \<Rightarrow> bool" where
  "agentIdsDistinct s = distinct (map a_id (agents s))"

definition balances :: "Store \<Rightarrow> (jsstring \<times> int \<times> int) list" where
  "balances s = map (\<lambda>a. (a_id a, food a, metal a)) (agents s)"

section \<open>Example stores\<close>

text \<open>
  Two agents on a strip of tiles.  Alice holds the barren tile (0,0); Bob holds the
  farmland (1,0), which is his capital.  Alice has declared an attack of 15 metal on
  (1,0) that is due at time 7200 (Scenario B of the specification).
\<close>

definition alice :: Agent where
  "alice = \<lparr>a_id = str ''alice'', display_name = str ''Alice'', food = 100, metal = 50,
            capital_q = Some 0, capital_r = Some 0, last_seen_at = None\<rparr>"

definition bob :: Agent where
  "bob = \<lparr>a_id = str ''bob'', display_name = str ''Bob'', food = 10, metal = 5,
          capital_q = Some 1, capital_r = Some 0, last_seen_at = None\<rparr>"

definition aliceTile :: Tile where
  "aliceTile = \<lparr>t_q = 0, t_r = 0, terrain = Barren, owner_id = Some (str ''alice''), fortification = 0\<rparr>"

definition bobTile :: Tile where
  "bobTile = \<lparr>t_q = 1, t_r = 0, terrain = Farmland, owner_id = Some (str ''bob''), fortification = 0\<rparr>"

definition freeTile :: Tile where
  "freeTile = \<lparr>t_q = 0, t_r = 1, terrain = Farmland, owner_id = None, fortification = 0\<rparr>"

definition attack1 :: Attack where
  "attack1 = \<lparr>at_id = 1, attacker_id = str ''alice'', target_q = 1, target_r = 0, commitment = 15,
              at_status = AttackPending, resolves_at = Some 7200\<rparr>"

definition battleStore :: Store where
  "battleStore =
     \<lparr>agents = [alice, bob], tiles = [aliceTile, bobTile, freeTile], attacks = [attack1],
      trades = [], messages = [], events = [], memories = [(str ''alice'', SqlText []), (str ''bob'', SqlText [])],
      current_tick = 0, last_tick_at = Some 0, tick_interval_hours = 2, grid_radius = 8,
      next_attack_id = 2, next_trade_id = 1, next_message_id = 1\<rparr>"

lemmas battle_defs =
  battleStore_def alice_def bob_def aliceTile_def bobTile_def freeTile_def attack1_def

text \<open>
  Alice holds the fortified tile (5,5) (received as a gift after she had declared an
  attack on it) and no tile next to it; her attack of 20 metal on (5,5) is still pending.
\<close>

definition fortTile :: Tile where
  "fortTile = \<lparr>t_q = 5, t_r = 5, terrain = Mine, owner_id = Some (str ''alice''), fortification = 8\<rparr>"

definition attack2 :: Attack where
  "attack2 = \<lparr>at_id = 2, attacker_id = str ''alice'', target_q = 5, target_r = 5, commitment = 20,
              at_status = AttackPending, resolves_at = Some 7200\<rparr>"

definition selfStore :: Store where
  "selfStore =
     \<lparr>agents = [alice, bob], tiles = [aliceTile, bobTile, freeTile, fortTile],
      attacks = [attack2],
      trades = [], messages = [], events = [], memories = [(str ''alice'', SqlText []), (str ''bob'', SqlText [])],
      current_tick = 3, last_tick_at = Some 0, tick_interval_hours = 2, grid_radius = 8,
      next_attack_id = 3, next_trade_id = 1, next_message_id = 1\<rparr>"

lemmas self_defs =
  selfStore_def alice_def bob_def aliceTile_def bobTile_def freeTile_def fortTile_def attack2_def




text \<open>
  Carol owns five tiles and holds 3 food before the tick; her tiles yield 7 food, so she
  has 10 food after production against an upkeep of 15 (Scenario D).  Her capital is the
  barren tile (3,0).  Dave owns one farmland and can pay.
\<close>

definition carol :: Agent where
  "carol = \<lparr>a_id = str ''carol'', display_name = str ''Carol'', food = 3, metal = 0,
            capital_q = Some 3, capital_r = Some 0, last_seen_at = None\<rparr>"

definition dave :: Agent where
  "dave = \<lparr>a_id = str ''dave'', display_name = str ''Dave'', food = 1, metal = 0,
           capital_q = Some 0, capital_r = Some 5, last_seen_at = None\<rparr>"

definition carolTiles :: "Tile list" where
  "carolTiles =
     [\<lparr>t_q = 0, t_r = 0, terrain = Mine, owner_id = Some (str ''carol''), fortification = 0\<rparr>,
      \<lparr>t_q = 1, t_r = 0, terrain = Mixed, owner_id = Some (str ''carol''), fortification = 2\<rparr>,
      \<lparr>t_q = 2, t_r = 0, terrain = Mine, owner_id = Some (str ''carol''), fortification = 0\<rparr>,
      \<lparr>t_q = 3, t_r = 0, terrain = Barren, owner_id = Some (str ''carol''), fortification = 4\<rparr>,
      \<lparr>t_q = 4, t_r = 0, terrain = Mine, owner_id = Some (str ''carol''), fortification = 0\<rparr>]"

definition daveTile :: Tile where
  "daveTile = \<lparr>t_q = 0, t_r = 5, terrain = Farmland, owner_id = Some (str ''dave''), fortification = 0\<rparr>"

definition famineStore :: Store where
  "famineStore =
     \<lparr>agents = [carol, dave], tiles = carolTiles @ [daveTile], attacks = [],
      trades = [], messages = [], events = [], memories = [(str ''carol'', SqlText []), (str ''dave'', SqlText [])],
      current_tick = 7, last_tick_at = Some 0, tick_interval_hours = 2, grid_radius = 8,
      next_attack_id = 1, next_trade_id = 1, next_message_id = 1\<rparr>"

lemmas famine_defs = famineStore_def carol_def dave_def carolTiles_def daveTile_def

text \<open>
  The battle store before Alice's attack: no attack row yet.  In \<open>warStore\<close> Alice
  has declared, at time 0, an attack of 15 metal on Bob's farmland (1,0).
\<close>

definition peaceStore :: Store where
  "peaceStore = battleStore\<lparr>attacks := [], next_attack_id := 1\<rparr>"

definition warStore :: Store where
  "warStore = snd (declareAttack peaceStore 0 alice 1 0 15)"

text \<open>An action body with no field set, to build example requests from.\<close>

definition emptyAction :: AgentAction where
  "emptyAction =
     \<lparr>a_type = None, a_target_q = None, a_target_r = None, a_commitment = None,
      a_metal_amount = None, a_to_agent_id = None, a_food = None, a_metal = None,
      a_content = None, a_offer_food = None, a_offer_metal = None, a_request_food = None,
      a_request_metal = None, a_trade_id = None\<rparr>"

text \<open>
  A fresh database with an all-barren grid; Alice joins and then fortifies her starting
  tile with 5 metal.
\<close>

definition freshStore :: Store where
  "freshStore = initializeDatabase 0 (\<lambda>gq gr. Barren)"

definition joinedStore :: Store where
  "joinedStore =
     snd (joinAgent freshStore (\<lambda>gq gr. Mine)
            \<lparr>j_agent_id = Some (str ''alice''), j_display_name = Some (str ''Alice'')\<rparr>)"

definition fortifiedStore :: Store where
  "fortifiedStore =
     snd (submitAction joinedStore 10 (str ''alice'')
            \<lparr>action = Some (emptyAction\<lparr>a_type := Some (str ''fortify''), a_target_q := Some 0,
                                        a_target_r := Some 0, a_metal_amount := Some 5\<rparr>),
             save_memory = None\<rparr>)"


text \<open>
  The admin reset is called on the battle store with \<open>food: -20\<close> in its body: all
  tiles are released, both agents get -20 food and 100 metal, and Alice and Bob are given
  (0,0) and (1,0).  Then Alice gives her only tile to Bob.
\<close>

definition resetStore :: Store where
  "resetStore = adminReset battleStore 20 [] (Some (- 20)) None"

definition debtStore :: Store where
  "debtStore =
     snd (submitAction resetStore 30 (str ''alice'')
            \<lparr>action = Some (emptyAction\<lparr>a_type := Some (str ''gift_tile''), a_target_q := Some 0,
                                        a_target_r := Some 0, a_to_agent_id := Some (str ''bob'')\<rparr>),
             save_memory = None\<rparr>)"

section \<open>Strings\<close>

lemma codeUnit_eq_iff: "(of_nat (of_char c) :: 16 word) = of_nat (of_char d) \<longleftrightarrow> c = d"
proof -
  have "of_char c < (2::nat) ^ 16" "of_char d < (2::nat) ^ 16"
    by (rule less_trans[OF nat_of_char_less_256], simp)+
  then have "take_bit 16 (of_char c :: nat) = of_char c" "take_bit 16 (of_char d :: nat) = of_char d"
    by (simp_all only: take_bit_nat_eq_self)
  then show ?thesis by (simp add: word_of_nat_eq_iff)
qed

lemma str_eq_iff [simp]: "str a = str b \<longleftrightarrow> a = b"
proof -
  have "inj (\<lambda>c. (of_nat (of_char c) :: 16 word))"
    by (rule injI) (simp only: codeUnit_eq_iff)
  then show ?thesis unfolding str_def by (rule inj_map_eq_map)
qed

lemma str_eq_Nil_iff [simp]: "str a = [] \<longleftrightarrow> a = []" "[] = str a \<longleftrightarrow> a = []"
  by (auto simp: str_def)

lemma ceilDiv_ceiling: "0 < b \<Longrightarrow> ceilDiv a b = \<lceil>real_of_int a / real_of_int b\<rceil>"
proof -
  have "\<lfloor>real_of_int (- a) / real_of_int b\<rfloor> = (- a) div b"
    by (rule floor_divide_of_int_eq)
  then show ?thesis unfolding ceilDiv_def ceiling_def by simp
qed

section \<open>Frame facts for the store primitives\<close>

lemma logEvent_fields [simp]:
  "agents (logEvent s a ty) = agents s"
  "tiles (logEvent s a ty) = tiles s"
  "attacks (logEvent s a ty) = attacks s"
  "trades (logEvent s a ty) = trades s"
  "messages (logEvent s a ty) = messages s"
  "memories (logEvent s a ty) = memories s"
  "current_tick (logEvent s a ty) = current_tick s"
  "last_tick_at (logEvent s a ty) = last_tick_at s"
  "tick_interval_hours (logEvent s a ty) = tick_interval_hours s"
  "grid_radius (logEvent s a ty) = grid_radius s"
  "next_attack_id (logEvent s a ty) = next_attack_id s"
  "next_trade_id (logEvent s a ty) = next_trade_id s"
  "next_message_id (logEvent s a ty) = next_message_id s"
  by (simp_all add: logEvent_def)

lemma updateTile_fields [simp]:
  "agents (updateTile s tq tr f) = agents s"
  "attacks (updateTile s tq tr f) = attacks s"
  "trades (updateTile s tq tr f) = trades s"
  "messages (updateTile s tq tr f) = messages s"
  "events (updateTile s tq tr f) = events s"
  "memories (updateTile s tq tr f) = memories s"
  "current_tick (updateTile s tq tr f) = current_tick s"
  "last_tick_at (updateTile s tq tr f) = last_tick_at s"
  "tick_interval_hours (updateTile s tq tr f) = tick_interval_hours s"
  "grid_radius (updateTile s tq tr f) = grid_radius s"
  "next_attack_id (updateTile s tq tr f) = next_attack_id s"
  "next_trade_id (updateTile s tq tr f) = next_trade_id s"
  "next_message_id (updateTile s tq tr f) = next_message_id s"
  by (simp_all add: updateTile_def)

lemma updateAgent_fields [simp]:
  "tiles (updateAgent s aid g) = tiles s"
  "attacks (updateAgent s aid g) = attacks s"
  "trades (updateAgent s aid g) = trades s"
  "messages (updateAgent s aid g) = messages s"
  "events (updateAgent s aid g) = events s"
  "memories (updateAgent s aid g) = memories s"
  "current_tick (updateAgent s aid g) = current_tick s"
  "last_tick_at (updateAgent s aid g) = last_tick_at s"
  "tick_interval_hours (updateAgent s aid g) = tick_interval_hours s"
  "grid_radius (updateAgent s aid g) = grid_radius s"
  "next_attack_id (updateAgent s aid g) = next_attack_id s"
  "next_trade_id (updateAgent s aid g) = next_trade_id s"
  "next_message_id (updateAgent s aid g) = next_message_id s"
  by (simp_all add: updateAgent_def)

lemma updateAgentResources_fields [simp]:
  "tiles (updateAgentResources s aid df dm) = tiles s"
  "attacks (updateAgentResources s aid df dm) = attacks s"
  "trades (updateAgentResources s aid df dm) = trades s"
  "messages (updateAgentResources s aid df dm) = messages s"
  "events (updateAgentResources s aid df dm) = events s"
  "memories (updateAgentResources s aid df dm) = memories s"
  "current_tick (updateAgentResources s aid df dm) = current_tick s"
  "last_tick_at (updateAgentResources s aid df dm) = last_tick_at s"
  "tick_interval_hours (updateAgentResources s aid df dm) = tick_interval_hours s"
  "grid_radius (updateAgentResources s aid df dm) = grid_radius s"
  "next_attack_id (updateAgentResources s aid df dm) = next_attack_id s"
  "next_trade_id (updateAgentResources s aid df dm) = next_trade_id s"
  "next_message_id (updateAgentResources s aid df dm) = next_message_id s"
  by (simp_all add: updateAgentResources_def)

lemma markResolved_fields [simp]:
  "agents (markResolved s n) = agents s"
  "tiles (markResolved s n) = tiles s"
  "trades (markResolved s n) = trades s"
  "messages (markResolved s n) = messages s"
  "events (markResolved s n) = events s"
  "memories (markResolved s n) = memories s"
  "current_tick (markResolved s n) = current_tick s"
  "last_tick_at (markResolved s n) = last_tick_at s"
  "tick_interval_hours (markResolved s n) = tick_interval_hours s"
  "grid_radius (markResolved s n) = grid_radius s"
  "next_attack_id (markResolved s n) = next_attack_id s"
  "next_trade_id (markResolved s n) = next_trade_id s"
  "next_message_id (markResolved s n) = next_message_id s"
  by (simp_all add: markResolved_def)

lemma clearCapitalIfLost_fields [simp]:
  "tiles (clearCapitalIfLost s aid lq lr) = tiles s"
  "attacks (clearCapitalIfLost s aid lq lr) = attacks s"
  "trades (clearCapitalIfLost s aid lq lr) = trades s"
  "messages (clearCapitalIfLost s aid lq lr) = messages s"
  "events (clearCapitalIfLost s aid lq lr) = events s"
  "memories (clearCapitalIfLost s aid lq lr) = memories s"
  "current_tick (clearCapitalIfLost s aid lq lr) = current_tick s"
  "last_tick_at (clearCapitalIfLost s aid lq lr) = last_tick_at s"
  "tick_interval_hours (clearCapitalIfLost s aid lq lr) = tick_interval_hours s"
  "grid_radius (clearCapitalIfLost s aid lq lr) = grid_radius s"
  "next_attack_id (clearCapitalIfLost s aid lq lr) = next_attack_id s"
  "next_trade_id (clearCapitalIfLost s aid lq lr) = next_trade_id s"
  "next_message_id (clearCapitalIfLost s aid lq lr) = next_message_id s"
  by (simp_all add: clearCapitalIfLost_def split: option.splits)

lemma setTradeStatus_fields [simp]:
  "agents (setTradeStatus s n st) = agents s"
  "tiles (setTradeStatus s n st) = tiles s"
  "attacks (setTradeStatus s n st) = attacks s"
  "messages (setTradeStatus s n st) = messages s"
  "events (setTradeStatus s n st) = events s"
  "memories (setTradeStatus s n st) = memories s"
  "current_tick (setTradeStatus s n st) = current_tick s"
  "last_tick_at (setTradeStatus s n st) = last_tick_at s"
  "tick_interval_hours (setTradeStatus s n st) = tick_interval_hours s"
  "grid_radius (setTradeStatus s n st) = grid_radius s"
  "next_attack_id (setTradeStatus s n st) = next_attack_id s"
  "next_trade_id (setTradeStatus s n st) = next_trade_id s"
  "next_message_id (setTradeStatus s n st) = next_message_id s"
  by (simp_all add: setTradeStatus_def)

lemma insertAttack_fields [simp]:
  "agents (insertAttack s a tq tr c ra) = agents s"
  "tiles (insertAttack s a tq tr c ra) = tiles s"
  "trades (insertAttack s a tq tr c ra) = trades s"
  "messages (insertAttack s a tq tr c ra) = messages s"
  "events (insertAttack s a tq tr c ra) = events s"
  "memories (insertAttack s a tq tr c ra) = memories s"
  "current_tick (insertAttack s a tq tr c ra) = current_tick s"
  "last_tick_at (insertAttack s a tq tr c ra) = last_tick_at s"
  "tick_interval_hours (insertAttack s a tq tr c ra) = tick_interval_hours s"
  "grid_radius (insertAttack s a tq tr c ra) = grid_radius s"
  "next_trade_id (insertAttack s a tq tr c ra) = next_trade_id s"
  "next_message_id (insertAttack s a tq tr c ra) = next_message_id s"
  by (simp_all add: insertAttack_def)

lemma insertTrade_fields [simp]:
  "agents (insertTrade s a b c d e f g) = agents s"
  "tiles (insertTrade s a b c d e f g) = tiles s"
  "attacks (insertTrade s a b c d e f g) = attacks s"
  "messages (insertTrade s a b c d e f g) = messages s"
  "events (insertTrade s a b c d e f g) = events s"
  "memories (insertTrade s a b c d e f g) = memories s"
  "current_tick (insertTrade s a b c d e f g) = current_tick s"
  "last_tick_at (insertTrade s a b c d e f g) = last_tick_at s"
  "tick_interval_hours (insertTrade s a b c d e f g) = tick_interval_hours s"
  "grid_radius (insertTrade s a b c d e f g) = grid_radius s"
  "next_attack_id (insertTrade s a b c d e f g) = next_attack_id s"
  "next_message_id (insertTrade s a b c d e f g) = next_message_id s"
  by (simp_all add: insertTrade_def)

lemma insertMessage_fields [simp]:
  "agents (insertMessage s a b c) = agents s"
  "tiles (insertMessage s a b c) = tiles s"
  "attacks (insertMessage s a b c) = attacks s"
  "trades (insertMessage s a b c) = trades s"
  "events (insertMessage s a b c) = events s"
  "memories (insertMessage s a b c) = memories s"
  "current_tick (insertMessage s a b c) = current_tick s"
  "last_tick_at (insertMessage s a b c) = last_tick_at s"
  "tick_interval_hours (insertMessage s a b c) = tick_interval_hours s"
  "grid_radius (insertMessage s a b c) = grid_radius s"
  "next_attack_id (insertMessage s a b c) = next_attack_id s"
  "next_trade_id (insertMessage s a b c) = next_trade_id s"
  by (simp_all add: insertMessage_def)

lemma writeMemory_fields [simp]:
  "agents (writeMemory s a c) = agents s"
  "tiles (writeMemory s a c) = tiles s"
  "attacks (writeMemory s a c) = attacks s"
  "trades (writeMemory s a c) = trades s"
  "messages (writeMemory s a c) = messages s"
  "events (writeMemory s a c) = events s"
  "current_tick (writeMemory s a c) = current_tick s"
  "last_tick_at (writeMemory s a c) = last_tick_at s"
  "tick_interval_hours (writeMemory s a c) = tick_interval_hours s"
  "grid_radius (writeMemory s a c) = grid_radius s"
  "next_attack_id (writeMemory s a c) = next_attack_id s"
  "next_trade_id (writeMemory s a c) = next_trade_id s"
  "next_message_id (writeMemory s a c) = next_message_id s"
  by (simp_all add: writeMemory_def)

lemma saveAgentMemory_Some:
  "saveAgentMemory s a c = Some s' \<Longrightarrow> \<exists>v. s' = writeMemory s a v"
  by (auto simp: saveAgentMemory_def split: Json.splits list.splits)

lemma logEvent_events [simp]:
  "events (logEvent s a ty) = events s @ [\<lparr>ev_type = ty, ev_actor = a\<rparr>]"
  by (simp add: logEvent_def)

lemma updateTile_tiles [simp]:
  "tiles (updateTile s tq tr f) =
     map (\<lambda>t. if t_q t = tq \<and> t_r t = tr then f t else t) (tiles s)"
  by (simp add: updateTile_def)

lemma updateAgent_agents [simp]:
  "agents (updateAgent s aid g) = map (\<lambda>a. if a_id a = aid then g a else a) (agents s)"
  by (simp add: updateAgent_def)

lemma markResolved_attacks [simp]:
  "attacks (markResolved s n) =
     map (\<lambda>a. if at_id a = n then a\<lparr>at_status := AttackResolved\<rparr> else a) (attacks s)"
  by (simp add: markResolved_def)

lemma setTradeStatus_trades [simp]:
  "trades (setTradeStatus s n st) =
     map (\<lambda>t. if tr_id t = n then t\<lparr>tr_status := st\<rparr> else t) (trades s)"
  by (simp add: setTradeStatus_def)

lemma getTile_cong: "tiles s' = tiles s \<Longrightarrow> getTile s' tq tr = getTile s tq tr"
  by (simp add: getTile_def)

lemma getAgent_cong: "agents s' = agents s \<Longrightarrow> getAgent s' aid = getAgent s aid"
  by (simp add: getAgent_def)

lemma getAgentTiles_cong: "tiles s' = tiles s \<Longrightarrow> getAgentTiles s' aid = getAgentTiles s aid"
  by (simp add: getAgentTiles_def)

lemma find_map_upd:
  assumes "\<And>x. P (f x) = P x"
  shows "find P (map (\<lambda>x. if Q x then f x else x) xs) = map_option (\<lambda>x. if Q x then f x else x) (find P xs)"
  using assms by (induction xs) auto

lemma getTile_updateTile:
  assumes "\<And>t. t_q (f t) = t_q t" "\<And>t. t_r (f t) = t_r t"
  shows "getTile (updateTile s tq tr f) tq' tr' =
         map_option (\<lambda>t. if t_q t = tq \<and> t_r t = tr then f t else t) (getTile s tq' tr')"
  unfolding getTile_def updateTile_tiles
  by (rule find_map_upd) (simp add: assms)

lemma getAgent_updateAgent:
  assumes "\<And>a. a_id (g a) = a_id a"
  shows "getAgent (updateAgent s aid g) aid' =
         map_option (\<lambda>a. if a_id a = aid then g a else a) (getAgent s aid')"
  unfolding getAgent_def updateAgent_agents
  by (rule find_map_upd) (simp add: assms)

lemma getTile_Some_key: "getTile s tq tr = Some t \<Longrightarrow> t_q t = tq \<and> t_r t = tr"
  by (auto simp: getTile_def find_Some_iff)

lemma getTile_Some_mem: "getTile s tq tr = Some t \<Longrightarrow> t \<in> set (tiles s)"
  by (auto simp: getTile_def find_Some_iff)

lemma getAgent_Some_id: "getAgent s aid = Some a \<Longrightarrow> a_id a = aid"
  by (auto simp: getAgent_def find_Some_iff)

lemma getAgent_Some_mem: "getAgent s aid = Some a \<Longrightarrow> a \<in> set (agents s)"
  by (auto simp: getAgent_def find_Some_iff)

lemma balances_frame:
  "agents s' = agents s \<Longrightarrow> balances s' = balances s"
  by (simp add: balances_def)

lemma balances_clearCapitalIfLost [simp]:
  "balances (clearCapitalIfLost s aid lq lr) = balances s"
  by (simp add: clearCapitalIfLost_def balances_def split: option.splits)

lemma balances_simps [simp]:
  "balances (logEvent s a ty) = balances s"
  "balances (updateTile s tq tr f) = balances s"
  "balances (markResolved s n) = balances s"
  by (simp_all add: balances_def)

lemma balances_resolveAttack: "balances (resolveAttack s a) = balances s"
  by (simp add: resolveAttack_def Let_def split: option.splits)

lemma balances_resolveAttacks: "balances (foldl resolveAttack s as) = balances s"
  by (induction as arbitrary: s) (simp_all add: balances_resolveAttack)


section \<open>Attack resolution at tick time\<close>

lemma attacks_clearCapitalIfLost: "attacks (clearCapitalIfLost s p lq lr) = attacks s"
  by simp

lemma attacks_resolveAttack:
  "attacks (resolveAttack s a) =
     map (\<lambda>x. if at_id x = at_id a then x\<lparr>at_status := AttackResolved\<rparr> else x) (attacks s)"
  by (simp add: resolveAttack_def Let_def split: option.splits)

lemma tiles_resolveAttack_fail:
  "getTile s (target_q a) (target_r a) = Some tile \<Longrightarrow>
   \<not> commitment a > BASE_TILE_DEFENSE + fortification tile \<Longrightarrow>
   tiles (resolveAttack s a) = tiles s \<and> agents (resolveAttack s a) = agents s"
  by (simp add: resolveAttack_def Let_def)

lemma tiles_resolveAttack_success:
  "getTile s (target_q a) (target_r a) = Some tile \<Longrightarrow>
   commitment a > BASE_TILE_DEFENSE + fortification tile \<Longrightarrow>
   tiles (resolveAttack s a) =
     map (\<lambda>t. if t_q t = target_q a \<and> t_r t = target_r a
               then t\<lparr>owner_id := Some (attacker_id a), fortification := 0\<rparr> else t) (tiles s)"
  by (simp add: resolveAttack_def Let_def split: option.splits)

lemma getTile_resolveAttack_success:
  assumes "getTile s (target_q a) (target_r a) = Some tile"
    and "commitment a > BASE_TILE_DEFENSE + fortification tile"
  shows "getTile (resolveAttack s a) (target_q a) (target_r a) =
           Some (tile\<lparr>owner_id := Some (attacker_id a), fortification := 0\<rparr>)"
proof -
  let ?f = "\<lambda>t::Tile. t\<lparr>owner_id := Some (attacker_id a), fortification := 0\<rparr>"
  have "tiles (resolveAttack s a) = tiles (updateTile s (target_q a) (target_r a) ?f)"
    using tiles_resolveAttack_success[OF assms] by simp
  then have "getTile (resolveAttack s a) (target_q a) (target_r a) =
             getTile (updateTile s (target_q a) (target_r a) ?f) (target_q a) (target_r a)"
    by (rule getTile_cong)
  also have "\<dots> = map_option (\<lambda>t. if t_q t = target_q a \<and> t_r t = target_r a then ?f t else t)
                      (getTile s (target_q a) (target_r a))"
    by (rule getTile_updateTile) simp_all
  finally show ?thesis
    using assms(1) getTile_Some_key[OF assms(1)] by simp
qed

lemma agents_resolveAttack_success:
  assumes "getTile s (target_q a) (target_r a) = Some tile"
    and "commitment a > BASE_TILE_DEFENSE + fortification tile"
    and "owner_id tile = Some p" and "p \<noteq> []"
  shows "agents (resolveAttack s a) = agents (clearCapitalIfLost s p (target_q a) (target_r a))"
  using assms
  by (simp add: resolveAttack_def Let_def clearCapitalIfLost_def
        getAgent_cong[of "logEvent _ _ _"] getAgent_cong[of "updateTile _ _ _ _"]
        split: option.splits)

lemma getAgent_clearCapitalIfLost_hit:
  assumes "getAgent s p = Some ag" "capital_q ag = Some lq" "capital_r ag = Some lr"
  shows "getAgent (clearCapitalIfLost s p lq lr) p = Some (ag\<lparr>capital_q := None, capital_r := None\<rparr>)"
proof -
  have "clearCapitalIfLost s p lq lr = updateAgent s p (\<lambda>a. a\<lparr>capital_q := None, capital_r := None\<rparr>)"
    using assms by (simp add: clearCapitalIfLost_def)
  moreover have "getAgent (updateAgent s p (\<lambda>a. a\<lparr>capital_q := None, capital_r := None\<rparr>)) p =
        map_option (\<lambda>a. if a_id a = p then a\<lparr>capital_q := None, capital_r := None\<rparr> else a) (getAgent s p)"
    by (rule getAgent_updateAgent) simp
  ultimately show ?thesis
    using assms(1) getAgent_Some_id[OF assms(1)] by simp
qed

lemma capital_resolveAttack_success:
  assumes "getTile s (target_q a) (target_r a) = Some tile"
    and "commitment a > BASE_TILE_DEFENSE + fortification tile"
    and "owner_id tile = Some p" and "p \<noteq> []"
    and "getAgent s p = Some ag"
    and "capital_q ag = Some (target_q a)" "capital_r ag = Some (target_r a)"
  shows "getAgent (resolveAttack s a) p = Some (ag\<lparr>capital_q := None, capital_r := None\<rparr>)"
proof -
  have "getAgent (resolveAttack s a) p = getAgent (clearCapitalIfLost s p (target_q a) (target_r a)) p"
    by (rule getAgent_cong) (rule agents_resolveAttack_success[OF assms(1-4)])
  then show ?thesis
    using getAgent_clearCapitalIfLost_hit[OF assms(5-7)] by simp
qed

lemma attacks_foldl_resolveAttack:
  "attacks (foldl resolveAttack s as) =
     map (\<lambda>x. if at_id x \<in> at_id ` set as then x\<lparr>at_status := AttackResolved\<rparr> else x) (attacks s)"
proof (induction as arbitrary: s)
  case Nil
  then show ?case by simp
next
  case (Cons a as)
  show ?case
    by (simp add: Cons.IH attacks_resolveAttack)
qed

lemma attacks_loseTile [simp]: "attacks (loseTile aid s t) = attacks s"
  by (simp add: loseTile_def Let_def)

lemma attacks_foldl_loseTile [simp]: "attacks (foldl (loseTile aid) s ts) = attacks s"
  by (induction ts arbitrary: s) simp_all

lemma attacks_produceAgent [simp]: "attacks (produceAgent s a) = attacks s"
  by (simp add: produceAgent_def Let_def)

lemma attacks_upkeepAgent [simp]: "attacks (upkeepAgent s a) = attacks s"
  by (simp add: upkeepAgent_def Let_def split: option.splits)

lemma attacks_produceResources [simp]: "attacks (produceResources as s) = attacks s"
  unfolding produceResources_def by (induction as arbitrary: s) simp_all

lemma attacks_deductUpkeep [simp]: "attacks (deductUpkeep as s) = attacks s"
  unfolding deductUpkeep_def by (induction as arbitrary: s) simp_all

lemma attacks_expireTrades [simp]: "attacks (expireTrades now s) = attacks s"
  by (simp add: expireTrades_def)

lemma attacks_updateGameState [simp]: "attacks (updateGameState now n s) = attacks s"
  by (simp add: updateGameState_def)

lemma attacks_processTick: "attacks (processTick now s) = attacks (resolveAttacks now s)"
  by (simp add: processTick_def Let_def)

lemma due_attacks_resolved:
  assumes "x \<in> set (getPendingAttacksToResolve now s)"
    and "y \<in> set (attacks (processTick now s))" and "at_id y = at_id x"
  shows "at_status y = AttackResolved"
proof -
  from assms(2) obtain z where z: "z \<in> set (attacks s)"
    and y: "y = (if at_id z \<in> at_id ` set (getPendingAttacksToResolve now s)
                 then z\<lparr>at_status := AttackResolved\<rparr> else z)"
    unfolding attacks_processTick resolveAttacks_def attacks_foldl_resolveAttack by auto
  have "at_id y = at_id z" using y by simp
  with assms(1,3) have "at_id z \<in> at_id ` set (getPendingAttacksToResolve now s)"
    by force
  with y show ?thesis by simp
qed

lemma getTile_resolveAttack_fail:
  assumes "getTile s (target_q a) (target_r a) = Some tile"
    and "\<not> commitment a > BASE_TILE_DEFENSE + fortification tile"
  shows "getTile (resolveAttack s a) (target_q a) (target_r a) = Some tile"
proof -
  have "tiles (resolveAttack s a) = tiles s"
    using tiles_resolveAttack_fail[OF assms] by simp
  then have "getTile (resolveAttack s a) (target_q a) (target_r a) = getTile s (target_q a) (target_r a)"
    by (rule getTile_cong)
  with assms(1) show ?thesis by simp
qed

section \<open>Expand\<close>

lemma getAgent_updateAgentResources:
  "getAgent (updateAgentResources s aid df dm) aid' =
     map_option (\<lambda>a. if a_id a = aid then a\<lparr>food := food a + df, metal := metal a + dm\<rparr> else a)
       (getAgent s aid')"
  unfolding updateAgentResources_def by (rule getAgent_updateAgent) simp

lemma updateAgentResources_agents [simp]:
  "agents (updateAgentResources s aid df dm) =
     map (\<lambda>a. if a_id a = aid then a\<lparr>food := food a + df, metal := metal a + dm\<rparr> else a) (agents s)"
  by (simp add: updateAgentResources_def)

lemma expand_success_iff:
  "fst (expand s agent tq tr) = Success \<longleftrightarrow>
     (\<exists>t. getTile s tq tr = Some t \<and> owner_id t = None)
     \<and> hasAdjacentTerritory s (a_id agent) tq tr
     \<and> food agent \<ge> EXPAND_FOOD_COST \<and> metal agent \<ge> EXPAND_METAL_COST"
  by (auto simp: expand_def Let_def split: option.splits)

lemma expand_failure_unchanged:
  "fst (expand s agent tq tr) \<noteq> Success \<Longrightarrow> snd (expand s agent tq tr) = s"
  by (auto simp: expand_def Let_def split: option.splits)

lemma expand_success_store:
  "fst (expand s agent tq tr) = Success \<Longrightarrow>
   snd (expand s agent tq tr) =
     logEvent (updateTile (updateAgentResources s (a_id agent) (- EXPAND_FOOD_COST) (- EXPAND_METAL_COST))
                 tq tr (\<lambda>t. t\<lparr>owner_id := Some (a_id agent)\<rparr>)) (Some (a_id agent)) EvExpand"
  by (auto simp: expand_def Let_def split: option.splits if_splits)

lemma expand_success_tile:
  assumes "fst (expand s agent tq tr) = Success" and "getTile s tq tr = Some t"
  shows "getTile (snd (expand s agent tq tr)) tq tr = Some (t\<lparr>owner_id := Some (a_id agent)\<rparr>)"
proof -
  let ?f = "\<lambda>t::Tile. t\<lparr>owner_id := Some (a_id agent)\<rparr>"
  have "tiles (snd (expand s agent tq tr)) = tiles (updateTile s tq tr ?f)"
    by (simp add: expand_success_store[OF assms(1)])
  then have "getTile (snd (expand s agent tq tr)) tq tr = getTile (updateTile s tq tr ?f) tq tr"
    by (rule getTile_cong)
  also have "\<dots> = map_option (\<lambda>t. if t_q t = tq \<and> t_r t = tr then ?f t else t) (getTile s tq tr)"
    by (rule getTile_updateTile) simp_all
  finally show ?thesis
    using assms(2) getTile_Some_key[OF assms(2)] by simp
qed

lemma expand_success_agent:
  assumes "fst (expand s agent tq tr) = Success" and "getAgent s (a_id agent) = Some cur"
  shows "getAgent (snd (expand s agent tq tr)) (a_id agent) =
           Some (cur\<lparr>food := food cur - EXPAND_FOOD_COST, metal := metal cur - EXPAND_METAL_COST\<rparr>)"
proof -
  have "agents (snd (expand s agent tq tr)) =
        agents (updateAgentResources s (a_id agent) (- EXPAND_FOOD_COST) (- EXPAND_METAL_COST))"
    by (simp add: expand_success_store[OF assms(1)])
  then have "getAgent (snd (expand s agent tq tr)) (a_id agent) =
        getAgent (updateAgentResources s (a_id agent) (- EXPAND_FOOD_COST) (- EXPAND_METAL_COST)) (a_id agent)"
    by (rule getAgent_cong)
  then show ?thesis
    using assms(2) getAgent_Some_id[OF assms(2)] by (simp add: getAgent_updateAgentResources)
qed

text \<open>
  Claim C7.  \<open>expand\<close> succeeds exactly when the target tile exists, is unclaimed, has a
  neighbouring tile owned by the agent, and the agent has at least 20 food and 10 metal.
  A failed call leaves the store as it was.  A successful call takes 20 food and 10 metal
  from the agent's row, makes the agent the owner of the target tile and appends an
  \<open>expand\<close> event.
\<close>

theorem expand_spec:
  assumes "getAgent s (a_id agent) = Some cur"
  shows "(fst (expand s agent tq tr) \<noteq> Success \<longleftrightarrow>
            getTile s tq tr = None
            \<or> (\<exists>t. getTile s tq tr = Some t \<and> owner_id t \<noteq> None)
            \<or> \<not> hasAdjacentTerritory s (a_id agent) tq tr
            \<or> food agent < 20 \<or> metal agent < 10)
       \<and> (fst (expand s agent tq tr) \<noteq> Success \<longrightarrow> snd (expand s agent tq tr) = s)
       \<and> (fst (expand s agent tq tr) = Success \<longrightarrow>
            getAgent (snd (expand s agent tq tr)) (a_id agent) =
              Some (cur\<lparr>food := food cur - 20, metal := metal cur - 10\<rparr>)
            \<and> (\<exists>t. getTile s tq tr = Some t
                  \<and> getTile (snd (expand s agent tq tr)) tq tr = Some (t\<lparr>owner_id := Some (a_id agent)\<rparr>))
            \<and> events (snd (expand s agent tq tr)) =
                 events s @ [\<lparr>ev_type = EvExpand, ev_actor = Some (a_id agent)\<rparr>])"
proof (intro conjI impI)
  show "fst (expand s agent tq tr) \<noteq> Success \<longleftrightarrow>
            getTile s tq tr = None
            \<or> (\<exists>t. getTile s tq tr = Some t \<and> owner_id t \<noteq> None)
            \<or> \<not> hasAdjacentTerritory s (a_id agent) tq tr
            \<or> food agent < 20 \<or> metal agent < 10"
    unfolding expand_success_iff EXPAND_FOOD_COST_def EXPAND_METAL_COST_def
    by (cases "getTile s tq tr") auto
next
  assume "fst (expand s agent tq tr) \<noteq> Success"
  then show "snd (expand s agent tq tr) = s" by (rule expand_failure_unchanged)
next
  assume ok: "fst (expand s agent tq tr) = Success"
  show "getAgent (snd (expand s agent tq tr)) (a_id agent) =
              Some (cur\<lparr>food := food cur - 20, metal := metal cur - 10\<rparr>)"
    using expand_success_agent[OF ok assms]
    by (simp add: EXPAND_FOOD_COST_def EXPAND_METAL_COST_def)
  from ok obtain t where t: "getTile s tq tr = Some t"
    unfolding expand_success_iff by blast
  show "\<exists>t. getTile s tq tr = Some t
          \<and> getTile (snd (expand s agent tq tr)) tq tr = Some (t\<lparr>owner_id := Some (a_id agent)\<rparr>)"
    using t expand_success_tile[OF ok t] by blast
  show "events (snd (expand s agent tq tr)) =
          events s @ [\<lparr>ev_type = EvExpand, ev_actor = Some (a_id agent)\<rparr>]"
    by (simp add: expand_success_store[OF ok])
qed

theorem expand_spec_witness:
  "getAgent battleStore (a_id alice) = Some alice
   \<and> food alice = 100 \<and> metal alice = 50
   \<and> fst (expand battleStore alice 0 1) = Success
   \<and> getAgent (snd (expand battleStore alice 0 1)) (str ''alice'') = Some (alice\<lparr>food := 80, metal := 40\<rparr>)
   \<and> getTile (snd (expand battleStore alice 0 1)) 0 1 = Some (freeTile\<lparr>owner_id := Some (str ''alice'')\<rparr>)
   \<and> events (snd (expand battleStore alice 0 1)) = [\<lparr>ev_type = EvExpand, ev_actor = Some (str ''alice'')\<rparr>]"
proof -
  have a: "getAgent battleStore (a_id alice) = Some alice"
    by (simp add: getAgent_def battle_defs)
  have t: "getTile battleStore 0 1 = Some freeTile"
    by (simp add: getTile_def battle_defs)
  have adj: "hasAdjacentTerritory battleStore (a_id alice) 0 1"
    by (simp add: hasAdjacentTerritory_def getNeighbors_def getTile_def battle_defs)
  have ok: "fst (expand battleStore alice 0 1) = Success"
    unfolding expand_success_iff using t adj
    by (simp add: battle_defs EXPAND_FOOD_COST_def EXPAND_METAL_COST_def)
  from expand_spec[OF a, of 0 1] ok t a
  show ?thesis
    by (simp add: battle_defs)
qed

section \<open>Scheduler\<close>

lemma current_tick_processTick: "current_tick (processTick now s) = current_tick s + 1"
  by (simp add: processTick_def Let_def updateGameState_def)

lemma last_tick_at_processTick: "last_tick_at (processTick now s) = Some now"
  by (simp add: processTick_def Let_def updateGameState_def)

text \<open>
  Claim C8, as amended.  The manual trigger is \<open>processTick\<close> itself, the function the
  timer path runs when a tick is due, and it runs whatever the time since the last tick
  (the timer path does nothing when no tick is due).  It is not idempotent: every trigger
  processes one more tick, so the tick counter after two triggers is two more than
  before, and the store after the second trigger differs from the store after the first.
\<close>

theorem manual_trigger_runs_one_tick:
  "triggerTickManually now s = processTick now s
   \<and> (shouldProcessTick now s \<longrightarrow> checkAndProcessTick now s = triggerTickManually now s)
   \<and> (\<not> shouldProcessTick now s \<longrightarrow> checkAndProcessTick now s = s)
   \<and> current_tick (triggerTickManually now s) = current_tick s + 1
   \<and> current_tick (triggerTickManually now' (triggerTickManually now s)) = current_tick s + 2
   \<and> triggerTickManually now' (triggerTickManually now s) \<noteq> triggerTickManually now s"
proof -
  have two: "current_tick (triggerTickManually now' (triggerTickManually now s)) = current_tick s + 2"
    by (simp add: triggerTickManually_def current_tick_processTick)
  have one: "current_tick (triggerTickManually now s) = current_tick s + 1"
    by (simp add: triggerTickManually_def current_tick_processTick)
  have "triggerTickManually now' (triggerTickManually now s) \<noteq> triggerTickManually now s"
  proof
    assume "triggerTickManually now' (triggerTickManually now s) = triggerTickManually now s"
    then have "current_tick (triggerTickManually now' (triggerTickManually now s)) =
               current_tick (triggerTickManually now s)" by simp
    with one two show False by simp
  qed
  with one two show ?thesis
    by (simp add: triggerTickManually_def checkAndProcessTick_def)
qed

theorem manual_trigger_runs_one_tick_witness:
  "shouldProcessTick 7200 battleStore
   \<and> checkAndProcessTick 7200 battleStore = triggerTickManually 7200 battleStore
   \<and> \<not> shouldProcessTick 60 battleStore
   \<and> checkAndProcessTick 60 battleStore = battleStore
   \<and> current_tick battleStore = 0
   \<and> current_tick (triggerTickManually 60 battleStore) = 1
   \<and> current_tick (triggerTickManually 60 (triggerTickManually 60 battleStore)) = 2"
proof -
  have due: "shouldProcessTick 7200 battleStore"
    by (simp add: shouldProcessTick_def battleStore_def)
  have notdue: "\<not> shouldProcessTick 60 battleStore"
    by (simp add: shouldProcessTick_def battleStore_def)
  have t0: "current_tick battleStore = 0"
    by (simp add: battleStore_def)
  from manual_trigger_runs_one_tick[of 7200 battleStore 7200]
       manual_trigger_runs_one_tick[of 60 battleStore 60] due notdue t0
  show ?thesis by (elim conjE) simp
qed

theorem manual_trigger_idempotent_counterexample:
  "triggerTickManually 7200 (triggerTickManually 7200 battleStore)
     \<noteq> triggerTickManually 7200 battleStore
   \<and> current_tick (triggerTickManually 7200 battleStore) = 1
   \<and> current_tick (triggerTickManually 7200 (triggerTickManually 7200 battleStore)) = 2"
proof -
  have one: "current_tick (triggerTickManually 7200 battleStore) = 1"
    by (simp add: triggerTickManually_def current_tick_processTick battleStore_def)
  have two: "current_tick (triggerTickManually 7200 (triggerTickManually 7200 battleStore)) = 2"
    by (simp add: triggerTickManually_def current_tick_processTick battleStore_def)
  have "triggerTickManually 7200 (triggerTickManually 7200 battleStore)
          \<noteq> triggerTickManually 7200 battleStore"
  proof
    assume "triggerTickManually 7200 (triggerTickManually 7200 battleStore)
              = triggerTickManually 7200 battleStore"
    then have "current_tick (triggerTickManually 7200 (triggerTickManually 7200 battleStore))
              = current_tick (triggerTickManually 7200 battleStore)" by simp
    with one two show False by simp
  qed
  with one two show ?thesis by simp
qed

section \<open>Fortification across ownership changes\<close>

lemma unclaimedUnfortified_D:
  "unclaimedUnfortified s \<Longrightarrow> t \<in> set (tiles s) \<Longrightarrow> owner_id t = None \<Longrightarrow> fortification t = 0"
  by (auto simp: unclaimedUnfortified_def list_all_iff)

lemma giftTile_success_iff:
  "fst (giftTile s agent tq tr to) = Success \<longleftrightarrow>
     (\<exists>t. getTile s tq tr = Some t \<and> owner_id t = Some (a_id agent))
     \<and> (\<exists>rc. getAgent s to = Some rc \<and> a_id rc \<noteq> a_id agent)"
  by (auto simp: giftTile_def Let_def split: option.splits)

lemma giftTile_failure_unchanged:
  "fst (giftTile s agent tq tr to) \<noteq> Success \<Longrightarrow> snd (giftTile s agent tq tr to) = s"
  by (auto simp: giftTile_def Let_def split: option.splits)

lemma giftTile_success_tiles:
  "fst (giftTile s agent tq tr to) = Success \<Longrightarrow>
   tiles (snd (giftTile s agent tq tr to)) =
     tiles (updateTile s tq tr (\<lambda>t. t\<lparr>owner_id := Some to\<rparr>))"
  by (auto simp: giftTile_def Let_def split: option.splits if_splits dest: getAgent_Some_id)

lemma giftTile_success_tile:
  assumes "fst (giftTile s agent tq tr to) = Success" and "getTile s tq tr = Some t"
  shows "getTile (snd (giftTile s agent tq tr to)) tq tr = Some (t\<lparr>owner_id := Some to\<rparr>)"
proof -
  let ?f = "\<lambda>t::Tile. t\<lparr>owner_id := Some to\<rparr>"
  have "getTile (snd (giftTile s agent tq tr to)) tq tr = getTile (updateTile s tq tr ?f) tq tr"
    by (rule getTile_cong) (rule giftTile_success_tiles[OF assms(1)])
  also have "\<dots> = map_option (\<lambda>t. if t_q t = tq \<and> t_r t = tr then ?f t else t) (getTile s tq tr)"
    by (rule getTile_updateTile) simp_all
  finally show ?thesis
    using assms(2) getTile_Some_key[OF assms(2)] by simp
qed

lemma tiles_loseTile:
  "tiles (loseTile aid s lost) =
     map (\<lambda>t. if t_q t = t_q lost \<and> t_r t = t_r lost
               then t\<lparr>owner_id := None, fortification := 0\<rparr> else t) (tiles s)"
  by (simp add: loseTile_def Let_def)

lemma getTile_loseTile:
  "getTile (loseTile aid s lost) tq tr =
     map_option (\<lambda>t. if t_q t = t_q lost \<and> t_r t = t_r lost
                      then t\<lparr>owner_id := None, fortification := 0\<rparr> else t) (getTile s tq tr)"
proof -
  let ?f = "\<lambda>t::Tile. t\<lparr>owner_id := None, fortification := 0\<rparr>"
  have "getTile (loseTile aid s lost) tq tr = getTile (updateTile s (t_q lost) (t_r lost) ?f) tq tr"
    by (rule getTile_cong) (simp add: tiles_loseTile)
  also have "\<dots> = map_option (\<lambda>t. if t_q t = t_q lost \<and> t_r t = t_r lost then ?f t else t) (getTile s tq tr)"
    by (rule getTile_updateTile) simp_all
  finally show ?thesis .
qed

text \<open>
  Claim C5, as amended.  A tile claimed by \<open>expand\<close> has fortification 0 (it was
  unclaimed, and unclaimed tiles carry no fortification); a tile captured at attack
  resolution and a tile lost to starvation have their fortification reset to 0.  A gift
  is the exception: \<open>giftTile\<close> changes the owner and keeps the fortification.
\<close>

theorem ownership_change_fortification:
  "(unclaimedUnfortified s \<and> fst (expand s agent tq tr) = Success \<longrightarrow>
      (\<exists>t. getTile (snd (expand s agent tq tr)) tq tr = Some t
           \<and> owner_id t = Some (a_id agent) \<and> fortification t = 0))
   \<and> (getTile s (target_q a) (target_r a) = Some tile
        \<and> commitment a > BASE_TILE_DEFENSE + fortification tile \<longrightarrow>
      (\<exists>t. getTile (resolveAttack s a) (target_q a) (target_r a) = Some t
           \<and> owner_id t = Some (attacker_id a) \<and> fortification t = 0))
   \<and> (getTile s (t_q lost) (t_r lost) = Some tile' \<longrightarrow>
      (\<exists>t. getTile (loseTile aid s lost) (t_q lost) (t_r lost) = Some t
           \<and> owner_id t = None \<and> fortification t = 0))
   \<and> (fst (giftTile s agent tq tr to) = Success \<longrightarrow>
      (\<exists>t. getTile s tq tr = Some t \<and> owner_id t = Some (a_id agent)
           \<and> getTile (snd (giftTile s agent tq tr to)) tq tr = Some (t\<lparr>owner_id := Some to\<rparr>)))"
proof (intro conjI impI)
  assume h: "unclaimedUnfortified s \<and> fst (expand s agent tq tr) = Success"
  then obtain t where t: "getTile s tq tr = Some t" "owner_id t = None"
    unfolding expand_success_iff by blast
  have "fortification t = 0"
    using unclaimedUnfortified_D[OF _ getTile_Some_mem[OF t(1)] t(2)] h by simp
  with expand_success_tile[OF _ t(1)] h
  show "\<exists>t. getTile (snd (expand s agent tq tr)) tq tr = Some t
           \<and> owner_id t = Some (a_id agent) \<and> fortification t = 0"
    by simp
next
  assume "getTile s (target_q a) (target_r a) = Some tile
        \<and> commitment a > BASE_TILE_DEFENSE + fortification tile"
  then show "\<exists>t. getTile (resolveAttack s a) (target_q a) (target_r a) = Some t
           \<and> owner_id t = Some (attacker_id a) \<and> fortification t = 0"
    using getTile_resolveAttack_success[of s a tile] by simp
next
  assume h: "getTile s (t_q lost) (t_r lost) = Some tile'"
  show "\<exists>t. getTile (loseTile aid s lost) (t_q lost) (t_r lost) = Some t
           \<and> owner_id t = None \<and> fortification t = 0"
    using getTile_Some_key[OF h] by (simp add: getTile_loseTile h)
next
  assume ok: "fst (giftTile s agent tq tr to) = Success"
  then obtain t where t: "getTile s tq tr = Some t" "owner_id t = Some (a_id agent)"
    unfolding giftTile_success_iff by blast
  with giftTile_success_tile[OF ok t(1)]
  show "\<exists>t. getTile s tq tr = Some t \<and> owner_id t = Some (a_id agent)
           \<and> getTile (snd (giftTile s agent tq tr to)) tq tr = Some (t\<lparr>owner_id := Some to\<rparr>)"
    by simp
qed

theorem ownership_change_fortification_witness:
  "unclaimedUnfortified battleStore \<and> fst (expand battleStore alice 0 1) = Success
   \<and> (\<exists>t. getTile (snd (expand battleStore alice 0 1)) 0 1 = Some t
           \<and> owner_id t = Some (str ''alice'') \<and> fortification t = 0)
   \<and> getTile selfStore (target_q attack2) (target_r attack2) = Some fortTile
   \<and> commitment attack2 > BASE_TILE_DEFENSE + fortification fortTile
   \<and> (\<exists>t. getTile (resolveAttack selfStore attack2) 5 5 = Some t
           \<and> owner_id t = Some (str ''alice'') \<and> fortification t = 0)
   \<and> (\<exists>t. getTile (loseTile (str ''alice'') selfStore fortTile) 5 5 = Some t
           \<and> owner_id t = None \<and> fortification t = 0)
   \<and> fst (giftTile selfStore alice 5 5 (str ''bob'')) = Success
   \<and> getTile (snd (giftTile selfStore alice 5 5 (str ''bob''))) 5 5 = Some (fortTile\<lparr>owner_id := Some (str ''bob'')\<rparr>)"
proof -
  have u: "unclaimedUnfortified battleStore"
    by (simp add: unclaimedUnfortified_def battle_defs)
  have t: "getTile battleStore 0 1 = Some freeTile"
    by (simp add: getTile_def battle_defs)
  have adj: "hasAdjacentTerritory battleStore (a_id alice) 0 1"
    by (simp add: hasAdjacentTerritory_def getNeighbors_def getTile_def battle_defs)
  have ok: "fst (expand battleStore alice 0 1) = Success"
    unfolding expand_success_iff using t adj
    by (simp add: battle_defs EXPAND_FOOD_COST_def EXPAND_METAL_COST_def)
  have ft: "getTile selfStore (target_q attack2) (target_r attack2) = Some fortTile"
    by (simp add: getTile_def self_defs)
  have ft': "getTile selfStore (t_q fortTile) (t_r fortTile) = Some fortTile"
    by (simp add: getTile_def self_defs)
  have c: "commitment attack2 > BASE_TILE_DEFENSE + fortification fortTile"
    by (simp add: self_defs BASE_TILE_DEFENSE_def)
  have g: "fst (giftTile selfStore alice 5 5 (str ''bob'')) = Success"
    unfolding giftTile_success_iff
    by (simp add: getTile_def getAgent_def self_defs)
  have ft5: "getTile selfStore 5 5 = Some fortTile"
    by (simp add: getTile_def self_defs)
  have k: "a_id alice = str ''alice''" "attacker_id attack2 = str ''alice''" "target_q attack2 = 5"
     "target_r attack2 = 5" "t_q fortTile = 5" "t_r fortTile = 5"
    by (simp_all add: self_defs)
  from ownership_change_fortification[where s = battleStore and agent = alice and tq = 0 and tr = 1]
       ownership_change_fortification[where s = selfStore and agent = alice and tq = 5 and tr = 5
         and a = attack2 and tile = fortTile and lost = fortTile and tile' = fortTile
         and aid = "str ''alice''" and to = "str ''bob''"]
       u ok ft ft' c g ft5
  show ?thesis
    unfolding k by auto
qed

theorem ownership_change_resets_counterexample:
  "fst (giftTile selfStore alice 5 5 (str ''bob'')) = Success
   \<and> getTile selfStore 5 5 =
        Some \<lparr>t_q = 5, t_r = 5, terrain = Mine, owner_id = Some (str ''alice''), fortification = 8\<rparr>
   \<and> getTile (snd (giftTile selfStore alice 5 5 (str ''bob''))) 5 5 =
        Some \<lparr>t_q = 5, t_r = 5, terrain = Mine, owner_id = Some (str ''bob''), fortification = 8\<rparr>"
proof -
  have g: "fst (giftTile selfStore alice 5 5 (str ''bob'')) = Success"
    unfolding giftTile_success_iff
    by (simp add: getTile_def getAgent_def self_defs)
  have ft5: "getTile selfStore 5 5 = Some fortTile"
    by (simp add: getTile_def self_defs)
  from giftTile_success_tile[OF g ft5] g ft5 show ?thesis
    by (simp add: fortTile_def)
qed

section \<open>Accepting a trade\<close>




lemma acceptTrade_no_trade:
  "getPendingTrade s tid = None \<Longrightarrow> acceptTrade s now agent tid = (Failed TradeNotFound, s)"
  by (simp add: acceptTrade_def)

lemma acceptTrade_no_proposer:
  assumes "getPendingTrade s tid = Some t" and "getAgent s (from_id t) = None"
  shows "acceptTrade s now agent tid =
     (if isExpired now t then (Failed TradeHasExpired, setTradeStatus s tid TradeExpired)
      else if to_id t \<noteq> a_id agent then (Failed TradeNotForYou, s)
      else (Failed ProposerGone, s))"
  unfolding acceptTrade_def
  by (simp only: assms option.case)

lemma acceptTrade_known:
  assumes "getPendingTrade s tid = Some t" and "getAgent s (from_id t) = Some p"
  shows "acceptTrade s now agent tid =
     (if isExpired now t then (Failed TradeHasExpired, setTradeStatus s tid TradeExpired)
      else if to_id t \<noteq> a_id agent then (Failed TradeNotForYou, s)
      else if food p < offer_food t \<or> metal p < offer_metal t
        then (Failed ProposerLacksResources, setTradeStatus s tid TradeExpired)
      else if food agent < request_food t \<or> metal agent < request_metal t
        then (Failed AccepterLacksResources, s)
      else (Success,
        logEvent (setTradeStatus
          (updateAgentResources
             (updateAgentResources s (from_id t)
                (- offer_food t + request_food t) (- offer_metal t + request_metal t))
             (a_id agent) (offer_food t - request_food t) (offer_metal t - request_metal t))
          tid TradeAccepted) None EvTradeAccepted))"
  unfolding acceptTrade_def Let_def
  by (simp only: assms option.case getAgent_Some_id[OF assms(2)])









section \<open>Starvation\<close>

lemma coord_simps [simp]:
  "coord (t\<lparr>owner_id := ow\<rparr>) = coord t"
  "coord (t\<lparr>fortification := fo\<rparr>) = coord t"
  by (simp_all add: coord_def)

lemma tiles_foldl_loseTile:
  "tiles (foldl (loseTile aid) s L) =
     map (\<lambda>t. if coord t \<in> coord ` set L then t\<lparr>owner_id := None, fortification := 0\<rparr> else t)
       (tiles s)"
proof (induction L arbitrary: s)
  case Nil
  then show ?case by simp
next
  case (Cons l L)
  have "tiles (foldl (loseTile aid) (loseTile aid s l) L) =
        map (\<lambda>t. if coord t \<in> coord ` set L then t\<lparr>owner_id := None, fortification := 0\<rparr> else t)
          (tiles (loseTile aid s l))"
    by (rule Cons.IH)
  also have "\<dots> =
        map (\<lambda>t. if coord t \<in> coord ` set (l # L) then t\<lparr>owner_id := None, fortification := 0\<rparr> else t)
          (tiles s)"
    unfolding tiles_loseTile map_map
  proof (rule map_cong[OF refl])
    fix t
    show "((\<lambda>t. if coord t \<in> coord ` set L then t\<lparr>owner_id := None, fortification := 0\<rparr> else t) \<circ>
           (\<lambda>t. if t_q t = t_q l \<and> t_r t = t_r l then t\<lparr>owner_id := None, fortification := 0\<rparr> else t)) t =
          (if coord t \<in> coord ` set (l # L) then t\<lparr>owner_id := None, fortification := 0\<rparr> else t)"
      by (auto simp: coord_def)
  qed
  finally show ?case by simp
qed

lemma coord_in_image_iff:
  assumes "distinct (map coord xs)" and "set L \<subseteq> set xs" and "t \<in> set xs"
  shows "coord t \<in> coord ` set L \<longleftrightarrow> t \<in> set L"
proof
  assume "coord t \<in> coord ` set L"
  then obtain l where l: "l \<in> set L" "coord t = coord l" by blast
  from assms(1) have "inj_on coord (set xs)" by (simp add: distinct_map)
  with l assms(2,3) have "t = l" by (auto dest: inj_onD)
  with l show "t \<in> set L" by simp
qed blast

lemma tiles_foldl_loseTile_distinct:
  assumes "tileKeysDistinct s" and "set L \<subseteq> set (tiles s)"
  shows "tiles (foldl (loseTile aid) s L) =
     map (\<lambda>t. if t \<in> set L then t\<lparr>owner_id := None, fortification := 0\<rparr> else t) (tiles s)"
  unfolding tiles_foldl_loseTile
  by (rule map_cong[OF refl])
     (simp add: coord_in_image_iff[OF assms(1)[unfolded tileKeysDistinct_def] assms(2)])

lemma getAgent_clearCapitalIfLost:
  "getAgent (clearCapitalIfLost s aid lq lr) b =
     map_option (\<lambda>x. if a_id x = aid \<and> capital_q x = Some lq \<and> capital_r x = Some lr
                      then x\<lparr>capital_q := None, capital_r := None\<rparr> else x) (getAgent s b)"
proof (cases "getAgent s aid")
  case None
  then have n: "clearCapitalIfLost s aid lq lr = s" by (simp add: clearCapitalIfLost_def)
  show ?thesis
  proof (cases "getAgent s b")
    case None
    then show ?thesis by (simp add: n)
  next
    case (Some x)
    with \<open>getAgent s aid = None\<close> have "a_id x \<noteq> aid"
      using getAgent_Some_id[OF Some] by auto
    then show ?thesis by (simp add: n Some)
  qed
next
  case (Some ag)
  show ?thesis
  proof (cases "capital_q ag = Some lq \<and> capital_r ag = Some lr")
    case True
    then have c: "clearCapitalIfLost s aid lq lr =
        updateAgent s aid (\<lambda>a. a\<lparr>capital_q := None, capital_r := None\<rparr>)"
      by (simp add: clearCapitalIfLost_def Some)
    have g: "getAgent (updateAgent s aid (\<lambda>a. a\<lparr>capital_q := None, capital_r := None\<rparr>)) b =
       map_option (\<lambda>a. if a_id a = aid then a\<lparr>capital_q := None, capital_r := None\<rparr> else a) (getAgent s b)"
      by (rule getAgent_updateAgent) simp
    show ?thesis
    proof (cases "getAgent s b")
      case None
      then show ?thesis by (simp add: c g)
    next
      case sb: (Some x)
      show ?thesis
      proof (cases "a_id x = aid")
        case False
        then show ?thesis by (simp add: c g sb)
      next
        case eq: True
        then have "b = aid" using getAgent_Some_id[OF sb] by simp
        with sb Some have "x = ag" by simp
        with True eq show ?thesis by (simp add: c g sb)
      qed
    qed
  next
    case False
    then have n: "clearCapitalIfLost s aid lq lr = s" by (auto simp add: clearCapitalIfLost_def Some)
    show ?thesis
    proof (cases "getAgent s b")
      case None
      then show ?thesis by (simp add: n)
    next
      case sb: (Some x)
      show ?thesis
      proof (cases "a_id x = aid")
        case ne: False
        then show ?thesis by (simp add: n sb)
      next
        case eq: True
        then have "b = aid" using getAgent_Some_id[OF sb] by simp
        with sb Some have "x = ag" by simp
        with False show ?thesis by (auto simp add: n sb)
      qed
    qed
  qed
qed

lemma getAgent_loseTile:
  "getAgent (loseTile aid s l) b =
     map_option (\<lambda>x. if a_id x = aid \<and> capital_q x = Some (t_q l) \<and> capital_r x = Some (t_r l)
                      then x\<lparr>capital_q := None, capital_r := None\<rparr> else x) (getAgent s b)"
proof -
  let ?s1 = "updateTile s (t_q l) (t_r l) (\<lambda>t. t\<lparr>owner_id := None, fortification := 0\<rparr>)"
  have "getAgent (loseTile aid s l) b = getAgent (clearCapitalIfLost ?s1 aid (t_q l) (t_r l)) b"
    by (rule getAgent_cong) (simp add: loseTile_def Let_def)
  also have "\<dots> = map_option (\<lambda>x. if a_id x = aid \<and> capital_q x = Some (t_q l) \<and> capital_r x = Some (t_r l)
                      then x\<lparr>capital_q := None, capital_r := None\<rparr> else x) (getAgent ?s1 b)"
    by (rule getAgent_clearCapitalIfLost)
  also have "getAgent ?s1 b = getAgent s b"
    by (rule getAgent_cong) simp
  finally show ?thesis .
qed

lemma getAgent_foldl_loseTile:
  "getAgent (foldl (loseTile aid) s L) b =
     map_option (\<lambda>x. if a_id x = aid \<and> (\<exists>l \<in> set L. capital_q x = Some (t_q l) \<and> capital_r x = Some (t_r l))
                      then x\<lparr>capital_q := None, capital_r := None\<rparr> else x) (getAgent s b)"
proof (induction L arbitrary: s)
  case Nil
  then show ?case by (simp add: option.map_ident)
next
  case (Cons l L)
  show ?case
  proof (cases "getAgent s b")
    case None
    then show ?thesis by (simp add: Cons.IH getAgent_loseTile)
  next
    case (Some x)
    then show ?thesis by (auto simp add: Cons.IH getAgent_loseTile)
  qed
qed

lemma set_starvedTiles: "set (starvedTiles c p ts) \<subseteq> set ts"
proof -
  have "set (starvedTiles c p ts) \<subseteq> set (tilesOrdered ts)"
    unfolding starvedTiles_def by (rule set_take_subset)
  then show ?thesis by (simp add: tilesOrdered_def)
qed

lemma getAgentTiles_subset: "set (getAgentTiles s aid) \<subseteq> set (tiles s)"
  by (auto simp: getAgentTiles_def)

lemma getAgentTiles_owner: "t \<in> set (getAgentTiles s aid) \<Longrightarrow> owner_id t = Some aid"
  by (simp add: getAgentTiles_def)

lemma upkeepAgent_no_tiles:
  "getAgentTiles s (a_id a) = [] \<Longrightarrow> upkeepAgent s a = s"
  by (simp add: upkeepAgent_def)

lemma upkeepAgent_no_agent:
  "getAgent s (a_id a) = None \<Longrightarrow> upkeepAgent s a = s"
  by (simp add: upkeepAgent_def Let_def)

lemma upkeepAgent_pay:
  assumes "getAgent s (a_id a) = Some cur"
    and "food cur \<ge> int (length (getAgentTiles s (a_id a))) * UPKEEP_FOOD_PER_TILE"
  shows "upkeepAgent s a =
           updateAgent s (a_id a)
             (\<lambda>x. x\<lparr>food := food x - int (length (getAgentTiles s (a_id a))) * UPKEEP_FOOD_PER_TILE\<rparr>)"
proof (cases "getAgentTiles s (a_id a) = []")
  case True
  have "updateAgent s (a_id a) (\<lambda>x. x\<lparr>food := food x - 0\<rparr>) = s"
    by (simp add: updateAgent_def map_idI)
  with True show ?thesis by (simp add: upkeepAgent_no_tiles)
next
  case False
  then have "int (length (getAgentTiles s (a_id a))) * UPKEEP_FOOD_PER_TILE > 0"
    by (simp add: UPKEEP_FOOD_PER_TILE_def)
  with assms show ?thesis
    by (simp add: upkeepAgent_def Let_def)
qed

lemma upkeepAgent_starve:
  assumes "getAgent s (a_id a) = Some cur"
    and "food cur < int (length (getAgentTiles s (a_id a))) * UPKEEP_FOOD_PER_TILE"
    and "getAgentTiles s (a_id a) \<noteq> []"
  shows "upkeepAgent s a =
           foldl (loseTile (a_id a)) (updateAgent s (a_id a) (\<lambda>x. x\<lparr>food := 0\<rparr>))
             (starvedTiles (int (length (getAgentTiles s (a_id a))) * UPKEEP_FOOD_PER_TILE)
                (food cur) (getAgentTiles s (a_id a)))"
proof -
  from assms(3) have "int (length (getAgentTiles s (a_id a))) * UPKEEP_FOOD_PER_TILE > 0"
    by (simp add: UPKEEP_FOOD_PER_TILE_def)
  with assms(1,2) show ?thesis
    by (simp add: upkeepAgent_def Let_def)
qed

text \<open>What one upkeep step can change: rows of the agent, and tiles the agent owns.\<close>

lemma upkeepAgent_tiles_frame:
  assumes "tileKeysDistinct s"
  shows "\<exists>L. set L \<subseteq> set (getAgentTiles s (a_id a))
           \<and> tiles (upkeepAgent s a) =
               map (\<lambda>t. if t \<in> set L then t\<lparr>owner_id := None, fortification := 0\<rparr> else t) (tiles s)"
proof -
  let ?ts = "getAgentTiles s (a_id a)"
  let ?c = "int (length ?ts) * UPKEEP_FOOD_PER_TILE"
  show ?thesis
  proof (cases "?ts = []")
    case True
    show ?thesis unfolding upkeepAgent_no_tiles[OF True] by (rule exI[of _ "[]"]) simp
  next
    case ne: False
    show ?thesis
    proof (cases "getAgent s (a_id a)")
      case None
      show ?thesis unfolding upkeepAgent_no_agent[OF None] by (rule exI[of _ "[]"]) simp
    next
      case (Some cur)
      show ?thesis
      proof (cases "food cur \<ge> ?c")
        case True
        have "tiles (upkeepAgent s a) = tiles s"
          unfolding upkeepAgent_pay[OF Some True] by simp
        then show ?thesis by (intro exI[of _ "[]"]) simp
      next
        case False
        then have lt: "food cur < ?c" by simp
        let ?L = "starvedTiles ?c (food cur) ?ts"
        let ?s1 = "updateAgent s (a_id a) (\<lambda>x. x\<lparr>food := 0\<rparr>)"
        have d: "tileKeysDistinct ?s1" using assms by (simp add: tileKeysDistinct_def)
        have sub: "set ?L \<subseteq> set (tiles ?s1)"
          using set_starvedTiles[of ?c "food cur" ?ts] getAgentTiles_subset[of s "a_id a"] by auto
        have "tiles (upkeepAgent s a) =
            map (\<lambda>t. if t \<in> set ?L then t\<lparr>owner_id := None, fortification := 0\<rparr> else t) (tiles ?s1)"
          unfolding upkeepAgent_starve[OF Some lt ne]
          by (rule tiles_foldl_loseTile_distinct[OF d sub])
        then have "tiles (upkeepAgent s a) =
            map (\<lambda>t. if t \<in> set ?L then t\<lparr>owner_id := None, fortification := 0\<rparr> else t) (tiles s)"
          by simp
        then show ?thesis
          by (intro exI[of _ ?L] conjI) (rule set_starvedTiles)
      qed
    qed
  qed
qed

lemma upkeepAgent_keys: 
  assumes "tileKeysDistinct s"
  shows "map coord (tiles (upkeepAgent s a)) = map coord (tiles s)"
proof -
  from upkeepAgent_tiles_frame[OF assms, of a] obtain L where
    "tiles (upkeepAgent s a) =
       map (\<lambda>t. if t \<in> set L then t\<lparr>owner_id := None, fortification := 0\<rparr> else t) (tiles s)"
    by blast
  then have "map coord (tiles (upkeepAgent s a)) =
      map (coord \<circ> (\<lambda>t. if t \<in> set L then t\<lparr>owner_id := None, fortification := 0\<rparr> else t)) (tiles s)"
    by simp
  also have "\<dots> = map coord (tiles s)"
    by (rule map_cong[OF refl]) simp
  finally show ?thesis .
qed

lemma upkeepAgent_tileKeysDistinct:
  "tileKeysDistinct s \<Longrightarrow> tileKeysDistinct (upkeepAgent s a)"
  using upkeepAgent_keys[of s a] by (simp add: tileKeysDistinct_def)

lemma filter_map_released:
  assumes "\<And>t. t \<in> set L \<Longrightarrow> \<not> P (f t)"
  shows "filter P (map (\<lambda>t. if t \<in> set L then f t else t) xs) = filter (\<lambda>t. t \<notin> set L) (filter P xs)"
  using assms by (induction xs) auto

lemma upkeepAgent_other_tiles:
  assumes "tileKeysDistinct s" and "b \<noteq> a_id a"
  shows "getAgentTiles (upkeepAgent s a) b = getAgentTiles s b"
proof -
  from upkeepAgent_tiles_frame[OF assms(1), of a] obtain L where
    L: "set L \<subseteq> set (getAgentTiles s (a_id a))"
    and t: "tiles (upkeepAgent s a) =
       map (\<lambda>t. if t \<in> set L then t\<lparr>owner_id := None, fortification := 0\<rparr> else t) (tiles s)"
    by blast
  have "getAgentTiles (upkeepAgent s a) b =
        filter (\<lambda>t. t \<notin> set L) (filter (\<lambda>t. owner_id t = Some b) (tiles s))"
    unfolding getAgentTiles_def t by (rule filter_map_released) simp
  also have "\<dots> = filter (\<lambda>t. owner_id t = Some b) (tiles s)"
  proof (rule filter_True, rule ballI)
    fix t assume "t \<in> set (filter (\<lambda>t. owner_id t = Some b) (tiles s))"
    then have "owner_id t = Some b" by simp
    show "t \<notin> set L"
    proof
      assume "t \<in> set L"
      with L have "t \<in> set (getAgentTiles s (a_id a))" by blast
      then have "owner_id t = Some (a_id a)" by (rule getAgentTiles_owner)
      with \<open>owner_id t = Some b\<close> assms(2) show False by simp
    qed
  qed
  finally show ?thesis by (simp add: getAgentTiles_def)
qed

lemma upkeepAgent_keeps_foreign_rows:
  assumes "tileKeysDistinct s" and "t \<in> set (tiles s)" and "owner_id t \<noteq> Some (a_id a)"
  shows "t \<in> set (tiles (upkeepAgent s a))"
proof -
  from upkeepAgent_tiles_frame[OF assms(1), of a] obtain L where
    L: "set L \<subseteq> set (getAgentTiles s (a_id a))"
    and t: "tiles (upkeepAgent s a) =
       map (\<lambda>t. if t \<in> set L then t\<lparr>owner_id := None, fortification := 0\<rparr> else t) (tiles s)"
    by blast
  have "t \<notin> set L"
  proof
    assume "t \<in> set L"
    with L have "t \<in> set (getAgentTiles s (a_id a))" by blast
    then have "owner_id t = Some (a_id a)" by (rule getAgentTiles_owner)
    with assms(3) show False by simp
  qed
  then have e: "(\<lambda>t. if t \<in> set L then t\<lparr>owner_id := None, fortification := 0\<rparr> else t) t = t"
    by simp
  from assms(2) have "(\<lambda>t. if t \<in> set L then t\<lparr>owner_id := None, fortification := 0\<rparr> else t) t
      \<in> (\<lambda>t. if t \<in> set L then t\<lparr>owner_id := None, fortification := 0\<rparr> else t) ` set (tiles s)"
    by (rule imageI)
  then show ?thesis unfolding t set_map e .
qed

lemma upkeepAgent_other_agent:
  assumes "b \<noteq> a_id a"
  shows "getAgent (upkeepAgent s a) b = getAgent s b"
proof -
  let ?ts = "getAgentTiles s (a_id a)"
  let ?c = "int (length ?ts) * UPKEEP_FOOD_PER_TILE"
  have upd: "getAgent (updateAgent s (a_id a) g) b = getAgent s b" if "\<And>x. a_id (g x) = a_id x" for g
  proof -
    have "getAgent (updateAgent s (a_id a) g) b =
          map_option (\<lambda>x. if a_id x = a_id a then g x else x) (getAgent s b)"
      by (rule getAgent_updateAgent) (rule that)
    also have "\<dots> = getAgent s b"
    proof (cases "getAgent s b")
      case None then show ?thesis by simp
    next
      case (Some x)
      with assms getAgent_Some_id[OF Some] show ?thesis by simp
    qed
    finally show ?thesis .
  qed
  show ?thesis
  proof (cases "?ts = []")
    case True
    show ?thesis unfolding upkeepAgent_no_tiles[OF True] ..
  next
    case ne: False
    show ?thesis
    proof (cases "getAgent s (a_id a)")
      case None
      show ?thesis unfolding upkeepAgent_no_agent[OF None] ..
    next
      case (Some cur)
      show ?thesis
      proof (cases "food cur \<ge> ?c")
        case True
        show ?thesis unfolding upkeepAgent_pay[OF Some True] by (rule upd) simp
      next
        case False
        then have lt: "food cur < ?c" by simp
        have "getAgent (upkeepAgent s a) b =
              map_option (\<lambda>x. if a_id x = a_id a \<and> (\<exists>l \<in> set (starvedTiles ?c (food cur) ?ts).
                                    capital_q x = Some (t_q l) \<and> capital_r x = Some (t_r l))
                      then x\<lparr>capital_q := None, capital_r := None\<rparr> else x)
                (getAgent (updateAgent s (a_id a) (\<lambda>x. x\<lparr>food := 0\<rparr>)) b)"
          unfolding upkeepAgent_starve[OF Some lt ne] by (rule getAgent_foldl_loseTile)
        also have "getAgent (updateAgent s (a_id a) (\<lambda>x. x\<lparr>food := 0\<rparr>)) b = getAgent s b"
          by (rule upd) simp
        also have "map_option (\<lambda>x. if a_id x = a_id a \<and> (\<exists>l \<in> set (starvedTiles ?c (food cur) ?ts).
                                    capital_q x = Some (t_q l) \<and> capital_r x = Some (t_r l))
                      then x\<lparr>capital_q := None, capital_r := None\<rparr> else x) (getAgent s b) = getAgent s b"
        proof (cases "getAgent s b")
          case None then show ?thesis by simp
        next
          case sb: (Some x)
          with assms getAgent_Some_id[OF sb] show ?thesis by simp
        qed
        finally show ?thesis .
      qed
    qed
  qed
qed

lemma foldl_upkeepAgent_frame:
  assumes "tileKeysDistinct s" and "b \<notin> a_id ` set as"
  shows "getAgent (foldl upkeepAgent s as) b = getAgent s b
       \<and> getAgentTiles (foldl upkeepAgent s as) b = getAgentTiles s b"
  using assms
proof (induction as arbitrary: s)
  case Nil
  then show ?case by simp
next
  case (Cons a as)
  from Cons.prems(2) have ne: "b \<noteq> a_id a" and rest: "b \<notin> a_id ` set as" by auto
  have d: "tileKeysDistinct (upkeepAgent s a)"
    by (rule upkeepAgent_tileKeysDistinct[OF Cons.prems(1)])
  from Cons.IH[OF d rest]
  show ?case
    by (simp add: upkeepAgent_other_agent[OF ne] upkeepAgent_other_tiles[OF Cons.prems(1) ne])
qed

lemma foldl_upkeepAgent_tileKeysDistinct:
  "tileKeysDistinct s \<Longrightarrow> tileKeysDistinct (foldl upkeepAgent s as)"
  by (induction as arbitrary: s) (simp_all add: upkeepAgent_tileKeysDistinct)

lemma foldl_upkeepAgent_keeps_unowned:
  assumes "tileKeysDistinct s" and "t \<in> set (tiles s)" and "owner_id t = None"
  shows "t \<in> set (tiles (foldl upkeepAgent s as))"
  using assms
proof (induction as arbitrary: s)
  case Nil
  then show ?case by simp
next
  case (Cons a as)
  have d: "tileKeysDistinct (upkeepAgent s a)"
    by (rule upkeepAgent_tileKeysDistinct[OF Cons.prems(1)])
  have m: "t \<in> set (tiles (upkeepAgent s a))"
    by (rule upkeepAgent_keeps_foreign_rows[OF Cons.prems(1,2)]) (simp add: Cons.prems(3))
  from Cons.IH[OF d m Cons.prems(3)] show ?case by simp
qed

lemma getTile_of_member:
  assumes "tileKeysDistinct s" and "t \<in> set (tiles s)"
  shows "getTile s (t_q t) (t_r t) = Some t"
proof -
  from assms(2) have "\<exists>x \<in> set (tiles s). t_q x = t_q t \<and> t_r x = t_r t" by blast
  then obtain u where u: "getTile s (t_q t) (t_r t) = Some u"
    unfolding getTile_def by (cases "find (\<lambda>x. t_q x = t_q t \<and> t_r x = t_r t) (tiles s)")
      (auto simp: find_None_iff)
  have "u \<in> set (tiles s)" by (rule getTile_Some_mem[OF u])
  moreover have "coord u = coord t" using getTile_Some_key[OF u] by (simp add: coord_def)
  moreover from assms(1) have "inj_on coord (set (tiles s))"
    by (simp add: tileKeysDistinct_def distinct_map)
  ultimately have "u = t" using assms(2) by (auto dest: inj_onD)
  with u show ?thesis by simp
qed

text \<open>
  The upkeep loop over agents with distinct ids: what it does to one agent is what the
  loop body does to that agent, run on a store that shows the agent the same row and the
  same tiles as the store before the loop.
\<close>

lemma deductUpkeep_agent_view:
  assumes "tileKeysDistinct s" and "distinct (map a_id as)" and "a \<in> set as"
  shows "\<exists>s0. tileKeysDistinct s0
           \<and> getAgent s0 (a_id a) = getAgent s (a_id a)
           \<and> getAgentTiles s0 (a_id a) = getAgentTiles s (a_id a)
           \<and> getAgent (deductUpkeep as s) (a_id a) = getAgent (upkeepAgent s0 a) (a_id a)
           \<and> getAgentTiles (deductUpkeep as s) (a_id a) = getAgentTiles (upkeepAgent s0 a) (a_id a)
           \<and> (\<forall>t \<in> set (tiles (upkeepAgent s0 a)). owner_id t = None \<longrightarrow>
                  t \<in> set (tiles (deductUpkeep as s)))
           \<and> tileKeysDistinct (deductUpkeep as s)"
proof -
  from assms(3) obtain pre post where sp: "as = pre @ a # post"
    by (auto dest: split_list)
  from assms(2) have npre: "a_id a \<notin> a_id ` set pre" and npost: "a_id a \<notin> a_id ` set post"
    unfolding sp by auto
  let ?s0 = "foldl upkeepAgent s pre"
  let ?s1 = "upkeepAgent ?s0 a"
  have fin: "deductUpkeep as s = foldl upkeepAgent ?s1 post"
    by (simp add: deductUpkeep_def sp)
  have d0: "tileKeysDistinct ?s0" by (rule foldl_upkeepAgent_tileKeysDistinct[OF assms(1)])
  have d1: "tileKeysDistinct ?s1" by (rule upkeepAgent_tileKeysDistinct[OF d0])
  note f0 = foldl_upkeepAgent_frame[OF assms(1) npre]
  note f1 = foldl_upkeepAgent_frame[OF d1 npost]
  have keep: "\<forall>t \<in> set (tiles ?s1). owner_id t = None \<longrightarrow> t \<in> set (tiles (deductUpkeep as s))"
    unfolding fin using foldl_upkeepAgent_keeps_unowned[OF d1] by blast
  have dF: "tileKeysDistinct (deductUpkeep as s)"
    unfolding fin by (rule foldl_upkeepAgent_tileKeysDistinct[OF d1])
  show ?thesis
    apply (rule exI[of _ ?s0])
    using d0 f0 f1 keep dF unfolding fin by (intro conjI) simp_all
qed










text \<open>The loop body for an agent that cannot pay, on a store with distinct tile keys.\<close>

lemma upkeepAgent_starve_result:
  assumes d: "tileKeysDistinct s"
    and cur: "getAgent s (a_id a) = Some cur"
    and lt: "food cur < int (length (getAgentTiles s (a_id a))) * UPKEEP_FOOD_PER_TILE"
    and ne: "getAgentTiles s (a_id a) \<noteq> []"
    and L: "L = starvedTiles (int (length (getAgentTiles s (a_id a))) * UPKEEP_FOOD_PER_TILE)
                  (food cur) (getAgentTiles s (a_id a))"
  shows "getAgent (upkeepAgent s a) (a_id a) =
           Some (if \<exists>l \<in> set L. capital_q cur = Some (t_q l) \<and> capital_r cur = Some (t_r l)
                 then cur\<lparr>food := 0, capital_q := None, capital_r := None\<rparr>
                 else cur\<lparr>food := 0\<rparr>)"
    and "tiles (upkeepAgent s a) =
           map (\<lambda>t. if t \<in> set L then t\<lparr>owner_id := None, fortification := 0\<rparr> else t) (tiles s)"
    and "getAgentTiles (upkeepAgent s a) (a_id a) =
           filter (\<lambda>t. t \<notin> set L) (getAgentTiles s (a_id a))"
proof -
  let ?s1 = "updateAgent s (a_id a) (\<lambda>x. x\<lparr>food := 0\<rparr>)"
  have st: "upkeepAgent s a = foldl (loseTile (a_id a)) ?s1 L"
    unfolding L by (rule upkeepAgent_starve[OF cur lt ne])
  have g1: "getAgent ?s1 (a_id a) = Some (cur\<lparr>food := 0\<rparr>)"
  proof -
    have "getAgent ?s1 (a_id a) =
          map_option (\<lambda>x. if a_id x = a_id a then x\<lparr>food := 0\<rparr> else x) (getAgent s (a_id a))"
      by (rule getAgent_updateAgent) simp
    then show ?thesis using cur getAgent_Some_id[OF cur] by simp
  qed
  have cid: "a_id cur = a_id a" by (rule getAgent_Some_id[OF cur])
  show "getAgent (upkeepAgent s a) (a_id a) =
           Some (if \<exists>l \<in> set L. capital_q cur = Some (t_q l) \<and> capital_r cur = Some (t_r l)
                 then cur\<lparr>food := 0, capital_q := None, capital_r := None\<rparr>
                 else cur\<lparr>food := 0\<rparr>)"
    unfolding st getAgent_foldl_loseTile g1 using cid by simp
  have d1: "tileKeysDistinct ?s1" using d by (simp add: tileKeysDistinct_def)
  have sub: "set L \<subseteq> set (tiles ?s1)"
    unfolding L using set_starvedTiles getAgentTiles_subset[of s "a_id a"] by fastforce
  have "tiles (upkeepAgent s a) =
           map (\<lambda>t. if t \<in> set L then t\<lparr>owner_id := None, fortification := 0\<rparr> else t) (tiles ?s1)"
    unfolding st by (rule tiles_foldl_loseTile_distinct[OF d1 sub])
  then show t: "tiles (upkeepAgent s a) =
           map (\<lambda>t. if t \<in> set L then t\<lparr>owner_id := None, fortification := 0\<rparr> else t) (tiles s)"
    by simp
  show "getAgentTiles (upkeepAgent s a) (a_id a) =
           filter (\<lambda>t. t \<notin> set L) (getAgentTiles s (a_id a))"
    unfolding getAgentTiles_def t by (rule filter_map_released) simp
qed

lemma upkeepAgent_pay_result:
  assumes cur: "getAgent s (a_id a) = Some cur"
    and ge: "food cur \<ge> int (length (getAgentTiles s (a_id a))) * UPKEEP_FOOD_PER_TILE"
  shows "getAgent (upkeepAgent s a) (a_id a) =
           Some (cur\<lparr>food := food cur - int (length (getAgentTiles s (a_id a))) * UPKEEP_FOOD_PER_TILE\<rparr>)"
    and "tiles (upkeepAgent s a) = tiles s"
proof -
  let ?c = "int (length (getAgentTiles s (a_id a))) * UPKEEP_FOOD_PER_TILE"
  have "getAgent (updateAgent s (a_id a) (\<lambda>x. x\<lparr>food := food x - ?c\<rparr>)) (a_id a) =
          map_option (\<lambda>x. if a_id x = a_id a then x\<lparr>food := food x - ?c\<rparr> else x) (getAgent s (a_id a))"
    by (rule getAgent_updateAgent) simp
  then show "getAgent (upkeepAgent s a) (a_id a) = Some (cur\<lparr>food := food cur - ?c\<rparr>)"
    unfolding upkeepAgent_pay[OF cur ge] using cur getAgent_Some_id[OF cur] by simp
  show "tiles (upkeepAgent s a) = tiles s"
    unfolding upkeepAgent_pay[OF cur ge] by simp
qed

section \<open>The tick as a whole\<close>

lemma agentIds_clearCapitalIfLost [simp]:
  "map a_id (agents (clearCapitalIfLost s aid lq lr)) = map a_id (agents s)"
proof (cases "getAgent s aid")
  case None
  then show ?thesis by (simp add: clearCapitalIfLost_def)
next
  case (Some ag)
  have "map a_id (agents (updateAgent s aid (\<lambda>a. a\<lparr>capital_q := None, capital_r := None\<rparr>))) =
        map a_id (agents s)"
    by (simp add: comp_def if_distrib[of a_id] cong: if_cong)
  then show ?thesis by (simp add: clearCapitalIfLost_def Some)
qed

lemma agentIds_resolveAttack: "map a_id (agents (resolveAttack s a)) = map a_id (agents s)"
proof -
  have "map a_id (agents (resolveAttack s a)) = map fst (balances (resolveAttack s a))"
    by (simp add: balances_def comp_def)
  also have "\<dots> = map a_id (agents s)"
    by (simp add: balances_resolveAttack) (simp add: balances_def comp_def)
  finally show ?thesis .
qed

lemma agentIds_resolveAttacks: "map a_id (agents (resolveAttacks now s)) = map a_id (agents s)"
proof -
  have "map a_id (agents (foldl resolveAttack s as)) = map a_id (agents s)" for as
    by (induction as arbitrary: s) (simp_all add: agentIds_resolveAttack)
  then show ?thesis by (simp add: resolveAttacks_def)
qed

lemma coords_updateTile:
  assumes "\<And>t. coord (f t) = coord t"
  shows "map coord (tiles (updateTile s tq tr f)) = map coord (tiles s)"
proof -
  have "map coord (tiles (updateTile s tq tr f)) =
        map (coord \<circ> (\<lambda>t. if t_q t = tq \<and> t_r t = tr then f t else t)) (tiles s)"
    by simp
  also have "\<dots> = map coord (tiles s)"
    by (rule map_cong[OF refl]) (simp add: assms)
  finally show ?thesis .
qed

lemma coords_resolveAttack: "map coord (tiles (resolveAttack s a)) = map coord (tiles s)"
proof (cases "getTile s (target_q a) (target_r a)")
  case None
  then show ?thesis by (simp add: resolveAttack_def)
next
  case (Some tile)
  show ?thesis
  proof (cases "commitment a > BASE_TILE_DEFENSE + fortification tile")
    case True
    have "tiles (resolveAttack s a) =
          tiles (updateTile s (target_q a) (target_r a)
                   (\<lambda>t. t\<lparr>owner_id := Some (attacker_id a), fortification := 0\<rparr>))"
      using tiles_resolveAttack_success[OF Some True] by simp
    then show ?thesis by (simp only: coords_updateTile coord_simps)
  next
    case False
    then show ?thesis using tiles_resolveAttack_fail[OF Some False] by simp
  qed
qed

lemma coords_resolveAttacks: "map coord (tiles (resolveAttacks now s)) = map coord (tiles s)"
proof -
  have "map coord (tiles (foldl resolveAttack s as)) = map coord (tiles s)" for as
    by (induction as arbitrary: s) (simp_all add: coords_resolveAttack)
  then show ?thesis by (simp add: resolveAttacks_def)
qed

lemma totalProduction_nonneg:
  "0 \<le> fst (totalProduction ts)" "0 \<le> snd (totalProduction ts)"
proof -
  have "0 \<le> fst (calculateResourceProduction x) \<and> 0 \<le> snd (calculateResourceProduction x)" for x
    by (cases x) (simp_all add: GAME_CONSTANTS)
  then show "0 \<le> fst (totalProduction ts)" "0 \<le> snd (totalProduction ts)"
    unfolding totalProduction_def fst_conv snd_conv
    by (auto intro!: sum_list_nonneg)
qed

lemma tiles_produceAgent [simp]: "tiles (produceAgent s a) = tiles s"
  by (simp add: produceAgent_def Let_def)

lemma agents_produceAgent:
  "agents (produceAgent s a) =
     map (\<lambda>x. if a_id x = a_id a
               then x\<lparr>food := food x + fst (totalProduction (getAgentTiles s (a_id x))),
                      metal := metal x + snd (totalProduction (getAgentTiles s (a_id x)))\<rparr>
               else x) (agents s)"
proof (cases "fst (totalProduction (getAgentTiles s (a_id a))) > 0
              \<or> snd (totalProduction (getAgentTiles s (a_id a))) > 0")
  case True
  then have "produceAgent s a =
      updateAgentResources s (a_id a) (fst (totalProduction (getAgentTiles s (a_id a))))
        (snd (totalProduction (getAgentTiles s (a_id a))))"
    by (simp add: produceAgent_def Let_def)
  then show ?thesis
    by (simp only: updateAgentResources_agents) (rule map_cong[OF refl], simp)
next
  case False
  with totalProduction_nonneg[of "getAgentTiles s (a_id a)"]
  have z: "fst (totalProduction (getAgentTiles s (a_id a))) = 0"
          "snd (totalProduction (getAgentTiles s (a_id a))) = 0"
    by linarith+
  from False have "produceAgent s a = s" by (simp add: produceAgent_def Let_def)
  moreover have "map (\<lambda>x. if a_id x = a_id a
               then x\<lparr>food := food x + fst (totalProduction (getAgentTiles s (a_id x))),
                      metal := metal x + snd (totalProduction (getAgentTiles s (a_id x)))\<rparr>
               else x) (agents s) = agents s"
    by (rule map_idI) (simp add: z)
  ultimately show ?thesis by simp
qed

lemma agents_foldl_produceAgent:
  assumes "distinct (map a_id as)"
  shows "tiles (foldl produceAgent s as) = tiles s
       \<and> agents (foldl produceAgent s as) =
           map (\<lambda>x. if a_id x \<in> a_id ` set as
               then x\<lparr>food := food x + fst (totalProduction (getAgentTiles s (a_id x))),
                      metal := metal x + snd (totalProduction (getAgentTiles s (a_id x)))\<rparr>
               else x) (agents s)"
  using assms
proof (induction as arbitrary: s)
  case Nil
  then show ?case by simp
next
  case (Cons a as)
  let ?s' = "produceAgent s a"
  from Cons.prems have d: "distinct (map a_id as)" and na: "a_id a \<notin> a_id ` set as" by auto
  have gt: "getAgentTiles ?s' i = getAgentTiles s i" for i
    by (rule getAgentTiles_cong) simp
  from Cons.IH[OF d, of ?s']
  have t: "tiles (foldl produceAgent ?s' as) = tiles s"
    and ag: "agents (foldl produceAgent ?s' as) =
           map (\<lambda>x. if a_id x \<in> a_id ` set as
               then x\<lparr>food := food x + fst (totalProduction (getAgentTiles s (a_id x))),
                      metal := metal x + snd (totalProduction (getAgentTiles s (a_id x)))\<rparr>
               else x) (agents ?s')"
    by (simp_all add: gt)
  have "agents (foldl produceAgent ?s' as) =
           map (\<lambda>x. if a_id x \<in> a_id ` set (a # as)
               then x\<lparr>food := food x + fst (totalProduction (getAgentTiles s (a_id x))),
                      metal := metal x + snd (totalProduction (getAgentTiles s (a_id x)))\<rparr>
               else x) (agents s)"
    unfolding ag agents_produceAgent map_map
    by (rule map_cong[OF refl]) (use na in auto)
  with t show ?case by simp
qed

lemma produceResources_result:
  assumes "agentIdsDistinct s"
  shows "tiles (produceResources (agents s) s) = tiles s"
    and "agents (produceResources (agents s) s) =
           map (\<lambda>x. x\<lparr>food := food x + fst (totalProduction (getAgentTiles s (a_id x))),
                      metal := metal x + snd (totalProduction (getAgentTiles s (a_id x)))\<rparr>) (agents s)"
proof -
  note r = agents_foldl_produceAgent[OF assms[unfolded agentIdsDistinct_def], of s]
  from r show "tiles (produceResources (agents s) s) = tiles s"
    by (simp add: produceResources_def)
  from r have "agents (produceResources (agents s) s) =
           map (\<lambda>x. if a_id x \<in> a_id ` set (agents s)
               then x\<lparr>food := food x + fst (totalProduction (getAgentTiles s (a_id x))),
                      metal := metal x + snd (totalProduction (getAgentTiles s (a_id x)))\<rparr>
               else x) (agents s)"
    by (simp add: produceResources_def)
  also have "\<dots> = map (\<lambda>x. x\<lparr>food := food x + fst (totalProduction (getAgentTiles s (a_id x))),
                      metal := metal x + snd (totalProduction (getAgentTiles s (a_id x)))\<rparr>) (agents s)"
    by (rule map_cong[OF refl]) simp
  finally show "agents (produceResources (agents s) s) =
           map (\<lambda>x. x\<lparr>food := food x + fst (totalProduction (getAgentTiles s (a_id x))),
                      metal := metal x + snd (totalProduction (getAgentTiles s (a_id x)))\<rparr>) (agents s)" .
qed

lemma processTick_steps:
  "processTick now s =
     updateGameState now (current_tick s + 1)
       (expireTrades now
          (deductUpkeep (agents (resolveAttacks now s))
             (produceResources (agents (resolveAttacks now s)) (resolveAttacks now s))))"
  by (simp add: processTick_def Let_def)

lemma after_upkeep_frame:
  "agents (updateGameState now n (expireTrades now s)) = agents s"
  "tiles (updateGameState now n (expireTrades now s)) = tiles s"
  by (simp_all add: updateGameState_def expireTrades_def)

lemma post_production_wellformed:
  assumes d: "tileKeysDistinct s" and i: "agentIdsDistinct s"
    and s1: "s1 = resolveAttacks now s" and s2: "s2 = produceResources (agents s1) s1"
  shows "tileKeysDistinct s2" and "distinct (map a_id (agents s1))"
    and "map a_id (agents s2) = map a_id (agents s1)"
    and "getAgentTiles s2 aid = getAgentTiles s1 aid"
proof -
  have i1: "agentIdsDistinct s1"
    using i unfolding agentIdsDistinct_def s1 agentIds_resolveAttacks .
  then show "distinct (map a_id (agents s1))" by (simp add: agentIdsDistinct_def)
  have d1: "tileKeysDistinct s1"
    using d unfolding tileKeysDistinct_def s1 coords_resolveAttacks .
  have t2: "tiles s2 = tiles s1" unfolding s2 by (rule produceResources_result(1)[OF i1])
  with d1 show "tileKeysDistinct s2" by (simp add: tileKeysDistinct_def)
  show "getAgentTiles s2 aid = getAgentTiles s1 aid"
    by (rule getAgentTiles_cong[OF t2])
  show "map a_id (agents s2) = map a_id (agents s1)"
    unfolding s2 produceResources_result(2)[OF i1] map_map
    by (rule map_cong[OF refl]) simp
qed

lemma tick_agent_view:
  assumes d: "tileKeysDistinct s" and i: "agentIdsDistinct s"
    and s1: "s1 = resolveAttacks now s" and s2: "s2 = produceResources (agents s1) s1"
    and cur: "getAgent s2 aid = Some cur"
  shows "\<exists>s0 a. a_id a = aid \<and> tileKeysDistinct s0
           \<and> getAgent s0 aid = Some cur
           \<and> getAgentTiles s0 aid = getAgentTiles s2 aid
           \<and> getAgent (processTick now s) aid = getAgent (upkeepAgent s0 a) aid
           \<and> getAgentTiles (processTick now s) aid = getAgentTiles (upkeepAgent s0 a) aid
           \<and> (\<forall>t \<in> set (tiles (upkeepAgent s0 a)). owner_id t = None \<longrightarrow>
                  t \<in> set (tiles (processTick now s)))
           \<and> tileKeysDistinct (processTick now s)"
proof -
  note w = post_production_wellformed[OF d i s1 s2]
  have "aid \<in> set (map a_id (agents s2))"
    using getAgent_Some_mem[OF cur] getAgent_Some_id[OF cur] by force
  then have "aid \<in> set (map a_id (agents s1))" by (simp only: w(3))
  then obtain a where a: "a \<in> set (agents s1)" "a_id a = aid" by auto
  from deductUpkeep_agent_view[OF w(1) w(2) a(1)] obtain s0 where
    s0: "tileKeysDistinct s0"
        "getAgent s0 (a_id a) = getAgent s2 (a_id a)"
        "getAgentTiles s0 (a_id a) = getAgentTiles s2 (a_id a)"
        "getAgent (deductUpkeep (agents s1) s2) (a_id a) = getAgent (upkeepAgent s0 a) (a_id a)"
        "getAgentTiles (deductUpkeep (agents s1) s2) (a_id a) = getAgentTiles (upkeepAgent s0 a) (a_id a)"
        "\<forall>t \<in> set (tiles (upkeepAgent s0 a)). owner_id t = None \<longrightarrow>
                  t \<in> set (tiles (deductUpkeep (agents s1) s2))"
        "tileKeysDistinct (deductUpkeep (agents s1) s2)"
    by blast
  have pt: "processTick now s =
      updateGameState now (current_tick s + 1) (expireTrades now (deductUpkeep (agents s1) s2))"
    unfolding s2 s1 by (rule processTick_steps)
  have ag: "agents (processTick now s) = agents (deductUpkeep (agents s1) s2)"
    unfolding pt by (rule after_upkeep_frame)
  have ti: "tiles (processTick now s) = tiles (deductUpkeep (agents s1) s2)"
    unfolding pt by (rule after_upkeep_frame)
  have g: "getAgent (processTick now s) aid = getAgent (upkeepAgent s0 a) aid"
    using getAgent_cong[OF ag, of aid] s0(4) a(2) by simp
  have gt: "getAgentTiles (processTick now s) aid = getAgentTiles (upkeepAgent s0 a) aid"
    using getAgentTiles_cong[OF ti, of aid] s0(5) a(2) by simp
  have k: "\<forall>t \<in> set (tiles (upkeepAgent s0 a)). owner_id t = None \<longrightarrow>
                  t \<in> set (tiles (processTick now s))"
    using s0(6) by (simp only: ti)
  have dF: "tileKeysDistinct (processTick now s)"
    using s0(7) by (simp only: tileKeysDistinct_def ti)
  have c0: "getAgent s0 aid = Some cur" using s0(2) a(2) cur by simp
  have t0: "getAgentTiles s0 aid = getAgentTiles s2 aid" using s0(3) a(2) by simp
  show ?thesis
    by (rule exI[of _ s0], rule exI[of _ a]) (intro conjI a(2) s0(1) c0 t0 g gt k dF)
qed



text \<open>
  After the reset and her gift Alice owns no tile and holds -20 food.  Her upkeep is
  0, and -20 is less than 0, yet the tick leaves her food at -20: the upkeep step passes
  over an agent without tiles.  Bob, who owns two tiles and holds -8 food after
  production, is starved to 0 food and loses both tiles.
\<close>

theorem starvation_sets_food_to_zero_counterexample:
  "balances debtStore = [(str ''alice'', - 20, 100), (str ''bob'', - 20, 100)]
   \<and> getAgentTiles debtStore (str ''alice'') = []
   \<and> map coord (getAgentTiles debtStore (str ''bob'')) = [(0, 0), (1, 0)]
   \<and> balances (produceResources (agents (resolveAttacks 7300 debtStore))
                 (resolveAttacks 7300 debtStore))
        = [(str ''alice'', - 20, 100), (str ''bob'', - 8, 100)]
   \<and> getAgentTiles (produceResources (agents (resolveAttacks 7300 debtStore))
                 (resolveAttacks 7300 debtStore)) (str ''alice'') = []
   \<and> (- 20 :: int) < int (length ([] :: Tile list)) * 3
   \<and> balances (processTick 7300 debtStore) = [(str ''alice'', - 20, 100), (str ''bob'', 0, 100)]
   \<and> getAgentTiles (processTick 7300 debtStore) (str ''bob'') = []"
  by code_simp

text \<open>
  Claim C2, as amended.  A tick is the composition, in this order, of attack resolution,
  production, upkeep, trade expiry and the advance of the tick counter.  Production
  credits every agent with the yield of the tiles it owns after attack resolution, so a
  tile captured in a tick produces for its new owner in that same tick.  Upkeep is
  decided on the food an agent holds after production: an agent whose post-production
  food covers three food per tile pays it, and an agent that owns a tile and whose
  post-production food falls short ends the tick with 0 food.
\<close>

theorem tick_order:
  assumes d: "tileKeysDistinct s" and i: "agentIdsDistinct s"
    and s1: "s1 = resolveAttacks now s" and s2: "s2 = produceResources (agents s1) s1"
    and sF: "sF = processTick now s"
  shows "sF = updateGameState now (current_tick s + 1)
                (expireTrades now (deductUpkeep (agents s1) s2))
       \<and> tiles s2 = tiles s1
       \<and> agents s2 =
           map (\<lambda>x. x\<lparr>food := food x + fst (totalProduction (getAgentTiles s1 (a_id x))),
                      metal := metal x + snd (totalProduction (getAgentTiles s1 (a_id x)))\<rparr>)
             (agents s1)
       \<and> (\<forall>aid cur. getAgent s2 aid = Some cur
              \<and> food cur \<ge> int (length (getAgentTiles s2 aid)) * 3 \<longrightarrow>
            getAgent sF aid =
              Some (cur\<lparr>food := food cur - int (length (getAgentTiles s2 aid)) * 3\<rparr>))
       \<and> (\<forall>aid cur. getAgent s2 aid = Some cur \<and> getAgentTiles s2 aid \<noteq> []
              \<and> food cur < int (length (getAgentTiles s2 aid)) * 3 \<longrightarrow>
            (\<exists>a'. getAgent sF aid = Some a' \<and> food a' = 0))
       \<and> current_tick sF = current_tick s + 1"
proof (intro conjI allI impI)
  show "sF = updateGameState now (current_tick s + 1)
                (expireTrades now (deductUpkeep (agents s1) s2))"
    unfolding sF s2 s1 by (rule processTick_steps)
  have i1: "agentIdsDistinct s1"
    using i unfolding agentIdsDistinct_def s1 agentIds_resolveAttacks .
  show "tiles s2 = tiles s1" unfolding s2 by (rule produceResources_result(1)[OF i1])
  show "agents s2 =
           map (\<lambda>x. x\<lparr>food := food x + fst (totalProduction (getAgentTiles s1 (a_id x))),
                      metal := metal x + snd (totalProduction (getAgentTiles s1 (a_id x)))\<rparr>)
             (agents s1)"
    unfolding s2 by (rule produceResources_result(2)[OF i1])
  show "current_tick sF = current_tick s + 1"
    unfolding sF by (rule current_tick_processTick)
next
  fix aid cur
  assume h: "getAgent s2 aid = Some cur \<and> food cur \<ge> int (length (getAgentTiles s2 aid)) * 3"
  then have cur: "getAgent s2 aid = Some cur" by simp
  from tick_agent_view[OF d i s1 s2 cur] obtain s0 a where
    v: "a_id a = aid" "getAgent s0 aid = Some cur"
       "getAgentTiles s0 aid = getAgentTiles s2 aid"
       "getAgent (processTick now s) aid = getAgent (upkeepAgent s0 a) aid"
    by blast
  have c0: "getAgent s0 (a_id a) = Some cur" using v(1,2) by simp
  have ge: "food cur \<ge> int (length (getAgentTiles s0 (a_id a))) * UPKEEP_FOOD_PER_TILE"
    using h v(1,3) by (simp add: UPKEEP_FOOD_PER_TILE_def)
  from upkeepAgent_pay_result(1)[OF c0 ge]
  show "getAgent sF aid =
          Some (cur\<lparr>food := food cur - int (length (getAgentTiles s2 aid)) * 3\<rparr>)"
    unfolding sF v(4) using v(1,3) by (simp add: UPKEEP_FOOD_PER_TILE_def)
next
  fix aid cur
  assume h: "getAgent s2 aid = Some cur \<and> getAgentTiles s2 aid \<noteq> []
              \<and> food cur < int (length (getAgentTiles s2 aid)) * 3"
  then have cur: "getAgent s2 aid = Some cur" by simp
  from tick_agent_view[OF d i s1 s2 cur] obtain s0 a where
    v: "a_id a = aid" "tileKeysDistinct s0" "getAgent s0 aid = Some cur"
       "getAgentTiles s0 aid = getAgentTiles s2 aid"
       "getAgent (processTick now s) aid = getAgent (upkeepAgent s0 a) aid"
    by blast
  have c0: "getAgent s0 (a_id a) = Some cur" using v(1,3) by simp
  have lt: "food cur < int (length (getAgentTiles s0 (a_id a))) * UPKEEP_FOOD_PER_TILE"
    using h v(1,4) by (simp add: UPKEEP_FOOD_PER_TILE_def)
  have ne: "getAgentTiles s0 (a_id a) \<noteq> []"
    using h v(1,4) by auto
  from upkeepAgent_starve_result(1)[OF v(2) c0 lt ne refl]
  show "\<exists>a'. getAgent sF aid = Some a' \<and> food a' = 0"
    unfolding sF v(5) using v(1) by simp
qed

theorem tick_order_witness:
  "tileKeysDistinct battleStore \<and> agentIdsDistinct battleStore
   \<and> getTile battleStore 1 0 = Some bobTile \<and> owner_id bobTile = Some (str ''bob'')
   \<and> getTile (resolveAttacks 7200 battleStore) 1 0 = Some (bobTile\<lparr>owner_id := Some (str ''alice'')\<rparr>)
   \<and> getAgent (produceResources (agents (resolveAttacks 7200 battleStore))
                 (resolveAttacks 7200 battleStore)) (str ''alice'') = Some (alice\<lparr>food := 112\<rparr>)
   \<and> getAgent (processTick 7200 battleStore) (str ''alice'') = Some (alice\<lparr>food := 106\<rparr>)
   \<and> current_tick (processTick 7200 battleStore) = 1"
proof -
  let ?s1 = "resolveAttacks 7200 battleStore"
  let ?s2 = "produceResources (agents ?s1) ?s1"
  have d: "tileKeysDistinct battleStore" by code_simp
  have i: "agentIdsDistinct battleStore" by code_simp
  have t0: "getTile battleStore 1 0 = Some bobTile" by code_simp
  have ob: "owner_id bobTile = Some (str ''bob'')" by (simp add: bobTile_def)
  have t1: "getTile ?s1 1 0 = Some (bobTile\<lparr>owner_id := Some (str ''alice'')\<rparr>)" by code_simp
  have cur: "getAgent ?s2 (str ''alice'') = Some (alice\<lparr>food := 112\<rparr>)" by code_simp
  have n: "int (length (getAgentTiles ?s2 (str ''alice''))) * 3 = 6" by code_simp
  have f: "food (alice\<lparr>food := 112\<rparr>) = 112" by simp
  note T = tick_order[OF d i refl refl refl, of 7200]
  from T have "\<forall>aid cur. getAgent ?s2 aid = Some cur
              \<and> food cur \<ge> int (length (getAgentTiles ?s2 aid)) * 3 \<longrightarrow>
            getAgent (processTick 7200 battleStore) aid =
              Some (cur\<lparr>food := food cur - int (length (getAgentTiles ?s2 aid)) * 3\<rparr>)"
    by (rule conjunct2[THEN conjunct2, THEN conjunct2, THEN conjunct1])
  from this[rule_format, of "str ''alice''" "alice\<lparr>food := 112\<rparr>"] cur
  have fin: "getAgent (processTick 7200 battleStore) (str ''alice'') = Some (alice\<lparr>food := 106\<rparr>)"
    unfolding n f by simp
  from T have ct: "current_tick (processTick 7200 battleStore) = current_tick battleStore + 1"
    by (rule conjunct2[THEN conjunct2, THEN conjunct2, THEN conjunct2, THEN conjunct2])
  then have ct': "current_tick (processTick 7200 battleStore) = 1"
    by (simp add: battleStore_def)
  show ?thesis
    using d i t0 ob t1 cur fin ct' by (intro conjI)
qed

text \<open>
  Before the tick Alice owns only the barren tile (yield 2 food) and Bob owns the
  farmland (1,0).  The tick at time 7200 captures the farmland for Alice and credits her
  12 food in the production step of the same tick: the 2 of her barren tile and the 10 of
  the tile just captured.  Bob is credited nothing.
\<close>

theorem captured_tile_produces_next_tick_counterexample:
  "getAgentTiles battleStore (str ''alice'') = [aliceTile]
   \<and> totalProduction [aliceTile] = (2, 0)
   \<and> getAgentTiles battleStore (str ''bob'') = [bobTile]
   \<and> totalProduction [bobTile] = (10, 0)
   \<and> getAgentTiles (resolveAttacks 7200 battleStore) (str ''alice'') =
        [aliceTile, bobTile\<lparr>owner_id := Some (str ''alice'')\<rparr>]
   \<and> balances battleStore = [(str ''alice'', 100, 50), (str ''bob'', 10, 5)]
   \<and> balances (produceResources (agents (resolveAttacks 7200 battleStore))
                 (resolveAttacks 7200 battleStore)) = [(str ''alice'', 112, 50), (str ''bob'', 10, 5)]
   \<and> balances (processTick 7200 battleStore) = [(str ''alice'', 106, 50), (str ''bob'', 10, 5)]"
  by code_simp

section \<open>Failed actions\<close>

lemma declareAttack_failure_unchanged:
  "fst (declareAttack s now agent tq tr c) \<noteq> Success \<Longrightarrow> snd (declareAttack s now agent tq tr c) = s"
  by (simp add: declareAttack_def Let_def split: option.splits if_splits)

lemma fortify_failure_unchanged:
  "fst (fortify s agent tq tr m) \<noteq> Success \<Longrightarrow> snd (fortify s agent tq tr m) = s"
  by (simp add: fortify_def Let_def split: option.splits if_splits)






lemma executeAction_cases:
  assumes "\<And>e. P (BadRequest400 e, s)"
    and "P (Result Success, s)"
    and "\<And>tq tr. P (apfst Result (expand s agent tq tr))"
    and "\<And>tq tr c. P (apfst Result (declareAttack s now agent tq tr c))"
    and "\<And>tq tr m. P (apfst Result (fortify s agent tq tr m))"
    and "\<And>tq tr to. P (apfst Result (giftTile s agent tq tr to))"
    and "\<And>to fd mt. P (apfst Result (giftResources s agent to fd mt))"
    and "\<And>to c. P (apfst Result (sendMessage s agent to c))"
    and "\<And>to a b c d. P (apfst Result (proposeTrade s now agent to a b c d))"
    and "\<And>tid. ty = str ''trade_accept'' \<Longrightarrow> a_trade_id act = Some tid \<Longrightarrow>
           P (apfst Result (acceptTrade s now agent tid))"
    and "\<And>tid. P (apfst Result (rejectTrade s agent tid))"
    and "\<And>tq tr. P (apfst Result (setCapital s agent tq tr))"
  shows "P (executeAction s now agent ty act)"
  unfolding executeAction_def
  by (simp add: assms split: option.split)


lemma submitAction_unfold:
  "submitAction s now agentId body =
     (case getAgent s agentId of
        None \<Rightarrow> (AgentNotFound404, s)
      | Some agent \<Rightarrow>
          (case (case save_memory body of
                   None \<Rightarrow> Some (updateAgent s agentId (\<lambda>a. a\<lparr>last_seen_at := Some now\<rparr>))
                 | Some m \<Rightarrow> saveAgentMemory
                     (updateAgent s agentId (\<lambda>a. a\<lparr>last_seen_at := Some now\<rparr>)) agentId m) of
             None \<Rightarrow> (InternalServerError500,
                       updateAgent s agentId (\<lambda>a. a\<lparr>last_seen_at := Some now\<rparr>))
           | Some pre \<Rightarrow>
               (case action body of
                  None \<Rightarrow> (BadRequest400 InvalidActionFormat, pre)
                | Some act \<Rightarrow>
                    (case a_type act of
                       None \<Rightarrow> (BadRequest400 InvalidActionFormat, pre)
                     | Some ty \<Rightarrow>
                         if ty = [] then (BadRequest400 InvalidActionFormat, pre)
                         else executeAction pre now agent ty act))))"
  unfolding submitAction_def Let_def ..















section \<open>Unclaimed tiles carry no fortification\<close>

lemma wf_tiles_eq:
  assumes "tiles s' = tiles s"
  shows "unclaimedUnfortified s' = unclaimedUnfortified s"
    and "tileKeysDistinct s' = tileKeysDistinct s"
  using assms by (simp_all add: unclaimedUnfortified_def tileKeysDistinct_def)

lemma unique_row:
  assumes "tileKeysDistinct s" and "getTile s tq tr = Some t"
    and "x \<in> set (tiles s)" and "t_q x = tq" and "t_r x = tr"
  shows "x = t"
proof -
  from getTile_of_member[OF assms(1,3)] assms(4,5) have "getTile s tq tr = Some x" by simp
  with assms(2) show ?thesis by simp
qed

lemma wf_updateTile:
  assumes u: "unclaimedUnfortified s" and d: "tileKeysDistinct s"
    and c: "\<And>t. coord (f t) = coord t"
    and ok: "\<And>t. t \<in> set (tiles s) \<Longrightarrow> t_q t = tq \<Longrightarrow> t_r t = tr \<Longrightarrow>
               owner_id (f t) \<noteq> None \<or> fortification (f t) = 0"
  shows "unclaimedUnfortified (updateTile s tq tr f)"
    and "tileKeysDistinct (updateTile s tq tr f)"
proof -
  show "tileKeysDistinct (updateTile s tq tr f)"
    using d unfolding tileKeysDistinct_def coords_updateTile[of f, OF c] .
  show "unclaimedUnfortified (updateTile s tq tr f)"
    unfolding unclaimedUnfortified_def list_all_iff
  proof
    fix y assume "y \<in> set (tiles (updateTile s tq tr f))"
    then have "y \<in> (\<lambda>t. if t_q t = tq \<and> t_r t = tr then f t else t) ` set (tiles s)"
      by simp
    then obtain x where x: "x \<in> set (tiles s)"
      and y: "y = (if t_q x = tq \<and> t_r x = tr then f x else x)" by blast
    show "owner_id y \<noteq> None \<or> fortification y = 0"
    proof (cases "t_q x = tq \<and> t_r x = tr")
      case True
      with ok[OF x] y show ?thesis by simp
    next
      case False
      with y have "y = x" by simp
      with u x show ?thesis by (auto simp: unclaimedUnfortified_def list_all_iff)
    qed
  qed
qed

lemma wf_expand:
  assumes "unclaimedUnfortified s" and "tileKeysDistinct s"
  shows "unclaimedUnfortified (snd (expand s agent tq tr))
       \<and> tileKeysDistinct (snd (expand s agent tq tr))"
proof (cases "fst (expand s agent tq tr) = Success")
  case True
  let ?f = "\<lambda>t::Tile. t\<lparr>owner_id := Some (a_id agent)\<rparr>"
  have t: "tiles (snd (expand s agent tq tr)) = tiles (updateTile s tq tr ?f)"
    by (simp add: expand_success_store[OF True])
  show ?thesis
    unfolding wf_tiles_eq[OF t]
    using wf_updateTile[OF assms, of ?f tq tr] by simp
next
  case False
  then show ?thesis using assms by (simp add: expand_failure_unchanged)
qed

lemma wf_giftTile:
  assumes "unclaimedUnfortified s" and "tileKeysDistinct s"
  shows "unclaimedUnfortified (snd (giftTile s agent tq tr to))
       \<and> tileKeysDistinct (snd (giftTile s agent tq tr to))"
proof (cases "fst (giftTile s agent tq tr to) = Success")
  case True
  let ?f = "\<lambda>t::Tile. t\<lparr>owner_id := Some to\<rparr>"
  note t = giftTile_success_tiles[OF True]
  show ?thesis
    unfolding wf_tiles_eq[OF t]
    using wf_updateTile[OF assms, of ?f tq tr] by simp
next
  case False
  then show ?thesis using assms by (simp add: giftTile_failure_unchanged)
qed

lemma fortify_success:
  assumes "fst (fortify s agent tq tr m) = Success"
  shows "\<exists>t. getTile s tq tr = Some t \<and> owner_id t = Some (a_id agent)
           \<and> tiles (snd (fortify s agent tq tr m)) =
               tiles (updateTile s tq tr (\<lambda>t. t\<lparr>fortification := fortification t + m\<rparr>))"
proof (cases "getTile s tq tr")
  case None
  with assms show ?thesis by (simp add: fortify_def split: if_splits)
next
  case (Some t)
  with assms show ?thesis
    by (simp add: fortify_def Let_def split: if_splits)
qed

lemma wf_fortify:
  assumes "unclaimedUnfortified s" and "tileKeysDistinct s"
  shows "unclaimedUnfortified (snd (fortify s agent tq tr m))
       \<and> tileKeysDistinct (snd (fortify s agent tq tr m))"
proof (cases "fst (fortify s agent tq tr m) = Success")
  case True
  let ?f = "\<lambda>t::Tile. t\<lparr>fortification := fortification t + m\<rparr>"
  from fortify_success[OF True] obtain t where
    g: "getTile s tq tr = Some t" and o: "owner_id t = Some (a_id agent)"
    and t: "tiles (snd (fortify s agent tq tr m)) = tiles (updateTile s tq tr ?f)"
    by blast
  have ok: "owner_id (?f x) \<noteq> None \<or> fortification (?f x) = 0"
    if "x \<in> set (tiles s)" "t_q x = tq" "t_r x = tr" for x
    using unique_row[OF assms(2) g that] o by simp
  show ?thesis
    unfolding wf_tiles_eq[OF t]
    using wf_updateTile[OF assms, of ?f tq tr] ok by simp
next
  case False
  then show ?thesis using assms by (simp add: fortify_failure_unchanged)
qed

lemma tiles_other_actions:
  "tiles (snd (declareAttack s now agent tq tr c)) = tiles s"
  "tiles (snd (setCapital s agent tq tr)) = tiles s"
  "tiles (snd (giftResources s agent to fd mt)) = tiles s"
  "tiles (snd (sendMessage s agent to content)) = tiles s"
  "tiles (snd (proposeTrade s now agent to a b c' d)) = tiles s"
  "tiles (snd (rejectTrade s agent tid)) = tiles s"
  by (simp_all add: declareAttack_def setCapital_def giftResources_def sendMessage_def
        proposeTrade_def rejectTrade_def Let_def split: option.split)

lemma tiles_acceptTrade: "tiles (snd (acceptTrade s now agent tid)) = tiles s"
proof (cases "getPendingTrade s tid")
  case None
  then show ?thesis by (simp add: acceptTrade_no_trade)
next
  case (Some t)
  show ?thesis
  proof (cases "getAgent s (from_id t)")
    case None
    show ?thesis unfolding acceptTrade_no_proposer[OF Some None] by simp
  next
    case p: (Some p)
    show ?thesis unfolding acceptTrade_known[OF Some p] by simp
  qed
qed

lemma wf_executeAction:
  assumes "unclaimedUnfortified s" and "tileKeysDistinct s"
  shows "unclaimedUnfortified (snd (executeAction s now agent ty act))
       \<and> tileKeysDistinct (snd (executeAction s now agent ty act))"
  by (rule executeAction_cases)
     (simp_all add: assms wf_expand wf_fortify wf_giftTile
        wf_tiles_eq[OF tiles_other_actions(1)] wf_tiles_eq[OF tiles_other_actions(2)]
        wf_tiles_eq[OF tiles_other_actions(3)] wf_tiles_eq[OF tiles_other_actions(4)]
        wf_tiles_eq[OF tiles_other_actions(5)] wf_tiles_eq[OF tiles_other_actions(6)]
        wf_tiles_eq[OF tiles_acceptTrade])

lemma wf_submitAction:
  assumes "unclaimedUnfortified s" and "tileKeysDistinct s"
  shows "unclaimedUnfortified (snd (submitAction s now agentId body))
       \<and> tileKeysDistinct (snd (submitAction s now agentId body))"
proof (cases "getAgent s agentId")
  case None
  then show ?thesis unfolding submitAction_unfold using assms by simp
next
  case (Some agent)
  let ?touch = "updateAgent s agentId (\<lambda>a. a\<lparr>last_seen_at := Some now\<rparr>)"
  let ?m = "case save_memory body of None \<Rightarrow> Some ?touch
            | Some m \<Rightarrow> saveAgentMemory ?touch agentId m"
  have tt: "tiles ?touch = tiles s" by simp
  have wt: "unclaimedUnfortified ?touch \<and> tileKeysDistinct ?touch"
    using assms by (simp only: wf_tiles_eq[OF tt])
  show ?thesis
  proof (cases ?m)
    case None
    then show ?thesis unfolding submitAction_unfold using wt by (simp add: Some)
  next
    case pre: (Some pre)
    have "\<exists>v. pre = ?touch \<or> pre = writeMemory ?touch agentId v"
      using pre saveAgentMemory_Some[of ?touch agentId _ pre]
      by (auto split: option.splits)
    then have t: "tiles pre = tiles s" by auto
    have p: "unclaimedUnfortified pre" "tileKeysDistinct pre"
      using assms by (simp_all only: wf_tiles_eq[OF t])
    show ?thesis
      unfolding submitAction_unfold using p wf_executeAction[OF p]
      by (simp add: Some pre split: option.split)
  qed
qed

lemma wf_resolveAttack:
  assumes "unclaimedUnfortified s" and "tileKeysDistinct s"
  shows "unclaimedUnfortified (resolveAttack s a) \<and> tileKeysDistinct (resolveAttack s a)"
proof (cases "getTile s (target_q a) (target_r a)")
  case None
  then have t: "tiles (resolveAttack s a) = tiles s" by (simp add: resolveAttack_def)
  show ?thesis using assms by (simp only: wf_tiles_eq[OF t])
next
  case (Some tile)
  show ?thesis
  proof (cases "commitment a > BASE_TILE_DEFENSE + fortification tile")
    case True
    let ?f = "\<lambda>t::Tile. t\<lparr>owner_id := Some (attacker_id a), fortification := 0\<rparr>"
    have t: "tiles (resolveAttack s a) = tiles (updateTile s (target_q a) (target_r a) ?f)"
      using tiles_resolveAttack_success[OF Some True] by simp
    show ?thesis
      unfolding wf_tiles_eq[OF t]
      using wf_updateTile[OF assms, of ?f "target_q a" "target_r a"] by simp
  next
    case False
    have t: "tiles (resolveAttack s a) = tiles s"
      using tiles_resolveAttack_fail[OF Some False] by simp
    show ?thesis using assms by (simp only: wf_tiles_eq[OF t])
  qed
qed

lemma wf_resolveAttacks:
  assumes "unclaimedUnfortified s" and "tileKeysDistinct s"
  shows "unclaimedUnfortified (resolveAttacks now s) \<and> tileKeysDistinct (resolveAttacks now s)"
proof -
  have "unclaimedUnfortified x \<and> tileKeysDistinct x \<Longrightarrow>
        unclaimedUnfortified (foldl resolveAttack x as) \<and> tileKeysDistinct (foldl resolveAttack x as)"
    for x as
    by (induction as arbitrary: x) (simp_all add: wf_resolveAttack)
  with assms show ?thesis by (simp add: resolveAttacks_def)
qed

lemma tiles_produceResources: "tiles (produceResources as s) = tiles s"
  unfolding produceResources_def by (induction as arbitrary: s) simp_all

lemma wf_upkeepAgent:
  assumes "unclaimedUnfortified s" and "tileKeysDistinct s"
  shows "unclaimedUnfortified (upkeepAgent s a) \<and> tileKeysDistinct (upkeepAgent s a)"
proof
  show "tileKeysDistinct (upkeepAgent s a)" by (rule upkeepAgent_tileKeysDistinct[OF assms(2)])
  from upkeepAgent_tiles_frame[OF assms(2), of a] obtain L where
    t: "tiles (upkeepAgent s a) =
       map (\<lambda>t. if t \<in> set L then t\<lparr>owner_id := None, fortification := 0\<rparr> else t) (tiles s)"
    by blast
  show "unclaimedUnfortified (upkeepAgent s a)"
    using assms(1) unfolding unclaimedUnfortified_def t list_all_iff by auto
qed

lemma wf_deductUpkeep:
  assumes "unclaimedUnfortified s" and "tileKeysDistinct s"
  shows "unclaimedUnfortified (deductUpkeep as s) \<and> tileKeysDistinct (deductUpkeep as s)"
proof -
  have "unclaimedUnfortified x \<and> tileKeysDistinct x \<Longrightarrow>
        unclaimedUnfortified (foldl upkeepAgent x as) \<and> tileKeysDistinct (foldl upkeepAgent x as)"
    for x
    by (induction as arbitrary: x) (simp_all add: wf_upkeepAgent)
  with assms show ?thesis by (simp add: deductUpkeep_def)
qed

lemma wf_processTick:
  assumes "unclaimedUnfortified s" and "tileKeysDistinct s"
  shows "unclaimedUnfortified (processTick now s) \<and> tileKeysDistinct (processTick now s)"
proof -
  let ?s1 = "resolveAttacks now s"
  let ?s2 = "produceResources (agents ?s1) ?s1"
  let ?s3 = "deductUpkeep (agents ?s1) ?s2"
  note w1 = wf_resolveAttacks[OF assms, of now]
  have w2: "unclaimedUnfortified ?s2 \<and> tileKeysDistinct ?s2"
    using w1 by (simp only: wf_tiles_eq[OF tiles_produceResources])
  have w3: "unclaimedUnfortified ?s3 \<and> tileKeysDistinct ?s3"
    using wf_deductUpkeep[of ?s2 "agents ?s1"] w2 by blast
  have t: "tiles (processTick now s) = tiles ?s3"
    unfolding processTick_steps by (rule after_upkeep_frame)
  show ?thesis using w3 by (simp only: wf_tiles_eq[OF t])
qed

lemma wf_scheduler:
  assumes "unclaimedUnfortified s" and "tileKeysDistinct s"
  shows "unclaimedUnfortified (checkAndProcessTick now s) \<and> tileKeysDistinct (checkAndProcessTick now s)"
    and "unclaimedUnfortified (triggerTickManually now s) \<and> tileKeysDistinct (triggerTickManually now s)"
  using assms wf_processTick[OF assms, of now]
  by (simp_all add: checkAndProcessTick_def triggerTickManually_def)

lemma getTile_None_iff: "getTile s tq tr = None \<longleftrightarrow> (tq, tr) \<notin> coord ` set (tiles s)"
  by (auto simp: getTile_def find_None_iff coord_def)

lemma wf_insertTileOrIgnore:
  assumes "unclaimedUnfortified s" and "tileKeysDistinct s"
  shows "unclaimedUnfortified (insertTileOrIgnore s (newTile rnd cq cr))
       \<and> tileKeysDistinct (insertTileOrIgnore s (newTile rnd cq cr))"
proof (cases "getTile s cq cr")
  case None
  then have n: "(cq, cr) \<notin> coord ` set (tiles s)" by (simp add: getTile_None_iff)
  have i: "insertTileOrIgnore s (newTile rnd cq cr) = s\<lparr>tiles := tiles s @ [newTile rnd cq cr]\<rparr>"
    using None by (simp add: insertTileOrIgnore_def newTile_def)
  show ?thesis
    unfolding i using assms n
    by (simp add: unclaimedUnfortified_def tileKeysDistinct_def newTile_def coord_def)
next
  case (Some t)
  then have "insertTileOrIgnore s (newTile rnd cq cr) = s"
    by (simp add: insertTileOrIgnore_def newTile_def)
  with assms show ?thesis by simp
qed

lemma wf_expandGrid:
  assumes "unclaimedUnfortified s" and "tileKeysDistinct s"
  shows "unclaimedUnfortified (expandGrid rnd rings s) \<and> tileKeysDistinct (expandGrid rnd rings s)"
proof -
  have ring: "unclaimedUnfortified x \<and> tileKeysDistinct x \<Longrightarrow>
      unclaimedUnfortified (foldl (\<lambda>st' (cq, cr). insertTileOrIgnore st' (newTile rnd cq cr)) x cs)
      \<and> tileKeysDistinct (foldl (\<lambda>st' (cq, cr). insertTileOrIgnore st' (newTile rnd cq cr)) x cs)"
    for x cs
  proof (induction cs arbitrary: x)
    case Nil
    then show ?case by simp
  next
    case (Cons c cs)
    obtain cq cr where c: "c = (cq, cr)" by (cases c)
    from Cons.prems have "unclaimedUnfortified (insertTileOrIgnore x (newTile rnd cq cr))
       \<and> tileKeysDistinct (insertTileOrIgnore x (newTile rnd cq cr))"
      using wf_insertTileOrIgnore by blast
    from Cons.IH[OF this] show ?case by (simp add: c)
  qed
  have rings: "unclaimedUnfortified x \<and> tileKeysDistinct x \<Longrightarrow>
      unclaimedUnfortified (foldl (\<lambda>st d. foldl (\<lambda>st' (cq, cr). insertTileOrIgnore st' (newTile rnd cq cr))
                               st (getHexRingCoords d)) x ds)
      \<and> tileKeysDistinct (foldl (\<lambda>st d. foldl (\<lambda>st' (cq, cr). insertTileOrIgnore st' (newTile rnd cq cr))
                               st (getHexRingCoords d)) x ds)"
    for x ds
  proof (induction ds arbitrary: x)
    case Nil
    then show ?case by simp
  next
    case (Cons d ds)
    from Cons.IH[OF ring[OF Cons.prems, of "getHexRingCoords d"]]
    show ?case by simp
  qed
  have t: "tiles (expandGrid rnd rings s) =
      tiles (foldl (\<lambda>st d. foldl (\<lambda>st' (cq, cr). insertTileOrIgnore st' (newTile rnd cq cr))
                               st (getHexRingCoords d)) s [grid_radius s + 1 .. grid_radius s + rings])"
    by (simp add: expandGrid_def Let_def)
  show ?thesis
    unfolding wf_tiles_eq[OF t] using rings assms by blast
qed

lemma wf_assignStartingTile:
  assumes "unclaimedUnfortified s" and "tileKeysDistinct s"
  shows "unclaimedUnfortified (assignStartingTile s aid t) \<and> tileKeysDistinct (assignStartingTile s aid t)"
proof -
  let ?f = "\<lambda>x::Tile. x\<lparr>owner_id := Some aid\<rparr>"
  have t: "tiles (assignStartingTile s aid t) = tiles (updateTile s (t_q t) (t_r t) ?f)"
    by (simp add: assignStartingTile_def Let_def)
  show ?thesis
    unfolding wf_tiles_eq[OF t]
    using wf_updateTile[OF assms, of ?f "t_q t" "t_r t"] by simp
qed

lemma wf_joinAgent:
  assumes "unclaimedUnfortified s" and "tileKeysDistinct s"
  shows "unclaimedUnfortified (snd (joinAgent s rnd jbody)) \<and> tileKeysDistinct (snd (joinAgent s rnd jbody))"
proof -
  define s1 where "s1 = (if getUnclaimedCount s < MAP_EXPANSION_THRESHOLD
                           then expandGrid rnd MAP_EXPANSION_RINGS s else s)"
  have w1: "unclaimedUnfortified s1 \<and> tileKeysDistinct s1"
    unfolding s1_def using assms wf_expandGrid[OF assms] by simp
  have w2: "unclaimedUnfortified (insertAgent s1 i n) \<and> tileKeysDistinct (insertAgent s1 i n)" for i n
  proof -
    have t: "tiles (insertAgent s1 i n) = tiles s1" by (simp add: insertAgent_def)
    show ?thesis using w1 by (simp only: wf_tiles_eq[OF t])
  qed
  have w3: "unclaimedUnfortified (assignStartingTile (insertAgent s1 i n) i t)
          \<and> tileKeysDistinct (assignStartingTile (insertAgent s1 i n) i t)" for i n t
    using wf_assignStartingTile w2 by blast
  have w4: "unclaimedUnfortified (x\<lparr>events := e\<rparr>) = unclaimedUnfortified x"
           "tileKeysDistinct (x\<lparr>events := e\<rparr>) = tileKeysDistinct x" for x e
    by (simp_all add: unclaimedUnfortified_def tileKeysDistinct_def)
  have unf: "joinAgent s rnd jbody =
     (case (j_agent_id jbody, j_display_name jbody) of
        (Some agent_id, Some name) \<Rightarrow>
          if length (trim agent_id) < 2 \<or> length (trim name) < 2 then (JoinBadRequest400, s)
          else
            if getAgent s (trim agent_id) \<noteq> None then (JoinConflict409, s)
               else if find (\<lambda>a. display_name a = trim name) (agents s) \<noteq> None
                 then (JoinConflict409, s)
               else
                 case findStartingTile s1 of
                      None \<Rightarrow> (JoinNoTiles503, s1)
                    | Some startingTile \<Rightarrow>
                        (JoinCreated201 (t_q startingTile) (t_r startingTile),
                         (assignStartingTile (insertAgent s1 (trim agent_id) (trim name))
                            (trim agent_id) startingTile)
                         \<lparr>events := events (assignStartingTile (insertAgent s1 (trim agent_id) (trim name))
                            (trim agent_id) startingTile) @
                                   [\<lparr>ev_type = EvJoin, ev_actor = Some (trim agent_id)\<rparr>]\<rparr>)
      | _ \<Rightarrow> (JoinBadRequest400, s))"
    unfolding joinAgent_def Let_def s1_def ..
  show ?thesis
    unfolding unf using assms w1 w3
    by (simp add: w4 split: option.split)
qed

lemma wf_resetAssign:
  assumes "unclaimedUnfortified s" and "tileKeysDistinct s"
  shows "unclaimedUnfortified (resetAssign s a) \<and> tileKeysDistinct (resetAssign s a)"
  using assms wf_assignStartingTile[OF assms]
  by (simp add: resetAssign_def split: option.split)

lemma wf_adminReset:
  assumes "tileKeysDistinct s"
  shows "unclaimedUnfortified (adminReset s now keep fd mt) \<and> tileKeysDistinct (adminReset s now keep fd mt)"
proof -
  define s2 where "s2 = (s\<lparr>events := [], messages := [], trades := [], attacks := []\<rparr>)
      \<lparr>tiles := map (\<lambda>t. t\<lparr>owner_id := None, fortification := 0\<rparr>)
                 (tiles (s\<lparr>events := [], messages := [], trades := [], attacks := []\<rparr>))\<rparr>"
  define s3 where "s3 = (if keep \<noteq> []
                then s2\<lparr>memories := filter (\<lambda>(k, v). k \<in> set keep) (memories s2),
                        agents := filter (\<lambda>a. a_id a \<in> set keep) (agents s2)\<rparr>
                else s2)"
  define s4 where "s4 = s3\<lparr>agents := map (\<lambda>a. a\<lparr>food := orDefault 200 fd, metal := orDefault 100 mt\<rparr>) (agents s3),
                  memories := map (\<lambda>(k, v). (k, SqlText [])) (memories s3)\<rparr>"
  have unf: "adminReset s now keep fd mt =
      (foldl resetAssign s4 (agentIdsInIndexOrder s4))\<lparr>current_tick := 0, last_tick_at := Some now\<rparr>"
    unfolding adminReset_def Let_def s4_def s3_def s2_def ..
  have t2: "tiles s2 = map (\<lambda>t. t\<lparr>owner_id := None, fortification := 0\<rparr>) (tiles s)"
    by (simp add: s2_def)
  have u2: "unclaimedUnfortified s2"
    unfolding unclaimedUnfortified_def t2 list_all_iff by simp
  have "map coord (tiles s2) = map (coord \<circ> (\<lambda>t. t\<lparr>owner_id := None, fortification := 0\<rparr>)) (tiles s)"
    unfolding t2 by simp
  also have "\<dots> = map coord (tiles s)" by (rule map_cong[OF refl]) simp
  finally have d2: "tileKeysDistinct s2" using assms by (simp add: tileKeysDistinct_def)
  have t4: "tiles s4 = tiles s2" by (simp add: s4_def s3_def)
  have w4: "unclaimedUnfortified s4 \<and> tileKeysDistinct s4"
    using u2 d2 by (simp only: wf_tiles_eq[OF t4])
  have fold: "unclaimedUnfortified x \<and> tileKeysDistinct x \<Longrightarrow>
      unclaimedUnfortified (foldl resetAssign x as) \<and> tileKeysDistinct (foldl resetAssign x as)"
    for x as
    by (induction as arbitrary: x) (simp_all add: wf_resetAssign)
  have tF: "tiles (adminReset s now keep fd mt) = tiles (foldl resetAssign s4 (agentIdsInIndexOrder s4))"
    unfolding unf by simp
  show ?thesis
    using fold[OF w4, of "agentIdsInIndexOrder s4"] by (simp only: wf_tiles_eq[OF tF])
qed

lemma distinct_pairs:
  assumes "distinct qs" and "\<And>q. distinct (rs q)"
  shows "distinct (concat (map (\<lambda>q. map (Pair q) (rs q)) qs))"
  using assms(1)
proof (induction qs)
  case Nil
  then show ?case by simp
next
  case (Cons q qs)
  have "distinct (map (Pair q) (rs q))"
    using assms(2)[of q] by (simp add: distinct_map inj_on_def)
  moreover have "set (map (Pair q) (rs q)) \<inter> set (concat (map (\<lambda>q. map (Pair q) (rs q)) qs)) = {}"
    using Cons.prems by auto
  ultimately show ?case using Cons by simp
qed

lemma wf_initializeDatabase:
  "unclaimedUnfortified (initializeDatabase now rnd) \<and> tileKeysDistinct (initializeDatabase now rnd)"
proof
  have ti: "tiles (initializeDatabase now rnd) = generateInitialGrid rnd"
    by (simp add: initializeDatabase_def)
  have fresh: "\<forall>t \<in> set (concat (map (\<lambda>gq. map (\<lambda>gr. newTile rnd gq gr) (rs gq)) qs)).
                 owner_id t \<noteq> None \<or> fortification t = 0" for rs qs
    by (auto simp: newTile_def)
  have "\<forall>t \<in> set (generateInitialGrid rnd). owner_id t \<noteq> None \<or> fortification t = 0"
    unfolding generateInitialGrid_def Let_def by (rule fresh)
  then show "unclaimedUnfortified (initializeDatabase now rnd)"
    unfolding unclaimedUnfortified_def list_all_iff ti .
  have g: "map coord (concat (map (\<lambda>gq. map (\<lambda>gr. newTile rnd gq gr) (rs gq)) qs)) =
           concat (map (\<lambda>gq. map (Pair gq) (rs gq)) qs)" for rs qs
    by (induction qs) (simp_all add: comp_def coord_def newTile_def)
  have k: "map coord (generateInitialGrid rnd) =
        concat (map (\<lambda>gq. map (Pair gq) [max (- 8) (- gq - 8) .. min 8 (- gq + 8)]) [- 8 .. 8])"
    unfolding generateInitialGrid_def Let_def by (rule g)
  have dd: "distinct (concat (map (\<lambda>gq. map (Pair gq) [max (- 8) (- gq - 8) .. min 8 (- gq + 8)])
                            [- 8 .. (8::int)]))"
    by (rule distinct_pairs) (rule distinct_upto)+
  show "tileKeysDistinct (initializeDatabase now rnd)"
    unfolding tileKeysDistinct_def ti k by (rule dd)
qed

text \<open>
  Claim C9.  In every reachable store every tile without an owner has fortification 0
  (and tile keys are distinct).  The grid is generated, and extended, with unowned tiles
  of fortification 0; capture, starvation and the admin reset write fortification 0
  whenever they change or clear an owner; a successful \<open>fortify\<close> finds the tile
  owned by the caller; and a successful \<open>expand\<close> finds the tile unclaimed.
\<close>

theorem unclaimed_tiles_unfortified:
  assumes "reachable s"
  shows "(\<forall>t \<in> set (tiles s). owner_id t = None \<longrightarrow> fortification t = 0)
       \<and> distinct (map coord (tiles s))
       \<and> (\<forall>agent tq tr m. fst (fortify s agent tq tr m) = Success \<longrightarrow>
             (\<exists>t. getTile s tq tr = Some t \<and> owner_id t = Some (a_id agent)))
       \<and> (\<forall>agent tq tr. fst (expand s agent tq tr) = Success \<longrightarrow>
             (\<exists>t. getTile s tq tr = Some t \<and> owner_id t = None))"
proof -
  from assms have "unclaimedUnfortified s \<and> tileKeysDistinct s"
  proof (induction rule: reachable.induct)
    case (r_init now rnd)
    show ?case by (rule wf_initializeDatabase)
  next
    case (r_action s now agentId body)
    then show ?case using wf_submitAction by blast
  next
    case (r_join s rnd jbody)
    then show ?case using wf_joinAgent by blast
  next
    case (r_check s now)
    then show ?case using wf_scheduler(1) by blast
  next
    case (r_manual s now)
    then show ?case using wf_scheduler(2) by blast
  next
    case (r_reset s now keepAgentIds fd mt)
    then show ?case using wf_adminReset by blast
  qed
  then have a: "\<forall>t \<in> set (tiles s). owner_id t = None \<longrightarrow> fortification t = 0"
    and b: "distinct (map coord (tiles s))"
    by (auto simp: unclaimedUnfortified_def tileKeysDistinct_def list_all_iff)
  have c: "\<forall>agent tq tr m. fst (fortify s agent tq tr m) = Success \<longrightarrow>
             (\<exists>t. getTile s tq tr = Some t \<and> owner_id t = Some (a_id agent))"
    using fortify_success by blast
  have e: "\<forall>agent tq tr. fst (expand s agent tq tr) = Success \<longrightarrow>
             (\<exists>t. getTile s tq tr = Some t \<and> owner_id t = None)"
    unfolding expand_success_iff by blast
  from a b c e show ?thesis by (intro conjI)
qed

theorem unclaimed_tiles_unfortified_witness:
  "reachable fortifiedStore
   \<and> getTile fortifiedStore 0 0 =
        Some \<lparr>t_q = 0, t_r = 0, terrain = Barren, owner_id = Some (str ''alice''), fortification = 5\<rparr>
   \<and> getTile fortifiedStore 1 0 =
        Some \<lparr>t_q = 1, t_r = 0, terrain = Barren, owner_id = None, fortification = 0\<rparr>
   \<and> unclaimedUnfortified fortifiedStore
   \<and> tileKeysDistinct fortifiedStore"
proof -
  have r: "reachable fortifiedStore"
    unfolding fortifiedStore_def joinedStore_def freshStore_def
    by (intro r_action r_join r_init)
  have t0: "getTile fortifiedStore 0 0 =
        Some \<lparr>t_q = 0, t_r = 0, terrain = Barren, owner_id = Some (str ''alice''), fortification = 5\<rparr>"
    by code_simp
  have t1: "getTile fortifiedStore 1 0 =
        Some \<lparr>t_q = 1, t_r = 0, terrain = Barren, owner_id = None, fortification = 0\<rparr>"
    by code_simp
  note inv = unclaimed_tiles_unfortified[OF r]
  have u: "unclaimedUnfortified fortifiedStore"
    unfolding unclaimedUnfortified_def list_all_iff
  proof (rule ballI)
    fix t assume "t \<in> set (tiles fortifiedStore)"
    with inv have "owner_id t = None \<longrightarrow> fortification t = 0" by blast
    then show "owner_id t \<noteq> None \<or> fortification t = 0" by blast
  qed
  have d: "tileKeysDistinct fortifiedStore"
    unfolding tileKeysDistinct_def using inv by (elim conjE)
  show ?thesis using r t0 t1 u d by (intro conjI)
qed

section \<open>Attack resolution within the tick\<close>

text \<open>
  STEP 1 of the tick selects the attacks once, before its loop starts, and then runs the
  loop body on them in table order.
\<close>

lemma getPendingAttacksToResolve_filter:
  "getPendingAttacksToResolve now s =
     filter (\<lambda>x. at_status x = AttackPending
                 \<and> (case resolves_at x of None \<Rightarrow> False | Some d \<Rightarrow> d \<le> now)
                 \<and> getTile s (target_q x) (target_r x) \<noteq> None) (attacks s)"
  by (simp add: getPendingAttacksToResolve_def due_def)

lemma coords_foldl_resolveAttack:
  "map coord (tiles (foldl resolveAttack s as)) = map coord (tiles s)"
  by (induction as arbitrary: s) (simp_all add: coords_resolveAttack)

lemma getTile_exists_cong:
  assumes "map coord (tiles s') = map coord (tiles s)" and "getTile s tq tr \<noteq> None"
  shows "getTile s' tq tr \<noteq> None"
proof -
  have "coord ` set (tiles s') = coord ` set (tiles s)"
    using assms(1) by (metis set_map)
  with assms(2) show ?thesis by (simp add: getTile_None_iff)
qed

lemma foldl_take_Suc:
  "i < length xs \<Longrightarrow> foldl f s (take (Suc i) xs) = f (foldl f s (take i xs)) (xs ! i)"
  by (simp add: take_Suc_conv_app_nth)

lemma selected_tile_exists:
  assumes pend: "pend = filter (\<lambda>x. at_status x = AttackPending
                      \<and> (case resolves_at x of None \<Rightarrow> False | Some d \<Rightarrow> d \<le> now)
                      \<and> getTile s (target_q x) (target_r x) \<noteq> None) (attacks s)"
    and i: "i < length pend"
  shows "\<exists>tile. getTile (foldl resolveAttack s (take i pend))
                  (target_q (pend ! i)) (target_r (pend ! i)) = Some tile"
proof -
  have "pend ! i \<in> set pend" using i by simp
  then have "getTile s (target_q (pend ! i)) (target_r (pend ! i)) \<noteq> None"
    unfolding pend by simp
  then have "getTile (foldl resolveAttack s (take i pend))
               (target_q (pend ! i)) (target_r (pend ! i)) \<noteq> None"
    by (rule getTile_exists_cong[OF coords_foldl_resolveAttack])
  then show ?thesis by blast
qed

lemma declareAttack_success:
  assumes "fst (declareAttack s0 t0 agent tq tr c) = Success"
  shows "agents (snd (declareAttack s0 t0 agent tq tr c)) =
           map (\<lambda>x. if a_id x = a_id agent then x\<lparr>metal := metal x - c\<rparr> else x) (agents s0)"
    and "attacks (snd (declareAttack s0 t0 agent tq tr c)) =
           attacks s0 @ [\<lparr>at_id = next_attack_id s0, attacker_id = a_id agent, target_q = tq,
                          target_r = tr, commitment = c, at_status = AttackPending,
                          resolves_at = Some (t0 + 7200)\<rparr>]"
    and "0 < c" and "c \<le> metal agent"
proof -
  from assms obtain targetTile ownerId defender where
    h: "\<not> c \<le> 0" "\<not> c > metal agent" "getTile s0 tq tr = Some targetTile"
       "owner_id targetTile = Some ownerId" "ownerId \<noteq> a_id agent"
       "hasAdjacentTerritory s0 (a_id agent) tq tr" "getAgent s0 ownerId = Some defender"
    by (auto simp: declareAttack_def Let_def split: if_splits option.splits)
  have eq: "snd (declareAttack s0 t0 agent tq tr c) =
      logEvent (insertAttack (updateAgentResources s0 (a_id agent) 0 (- c)) (a_id agent) tq tr c
                  (t0 + ATTACK_RESOLUTION_HOURS * 3600)) (Some (a_id agent)) EvAttackDeclared"
    using h by (simp add: declareAttack_def Let_def)
  show "agents (snd (declareAttack s0 t0 agent tq tr c)) =
           map (\<lambda>x. if a_id x = a_id agent then x\<lparr>metal := metal x - c\<rparr> else x) (agents s0)"
    unfolding eq by (simp add: updateAgentResources_def updateAgent_def)
  show "attacks (snd (declareAttack s0 t0 agent tq tr c)) =
           attacks s0 @ [\<lparr>at_id = next_attack_id s0, attacker_id = a_id agent, target_q = tq,
                          target_r = tr, commitment = c, at_status = AttackPending,
                          resolves_at = Some (t0 + 7200)\<rparr>]"
    unfolding eq by (simp add: insertAttack_def ATTACK_RESOLUTION_HOURS_def)
  show "0 < c" "c \<le> metal agent" using h by simp_all
qed

text \<open>
  Claim C1.  Let \<open>pend\<close> be the attacks of the store that are pending, whose
  \<open>resolves_at\<close> is not after now, and whose target tile exists.  These are the
  attacks the tick selects, and its first step runs the resolution on them one after the
  other.  When the loop reaches the \<open>i\<close>-th of them the store is \<open>st\<close> and the
  iteration leaves \<open>st'\<close>: the target tile exists in \<open>st\<close>; if the commitment
  exceeds 10 plus the fortification the tile has in \<open>st\<close>, that tile, and no other, goes
  to the attacker with fortification 0, and a previous owner whose capital it was has the
  capital designation cleared; otherwise tiles and agents stay as they are.  Either way
  the attack row, and no other, is marked resolved and no agent's food or metal changes,
  so the whole resolution step leaves all balances as they were; after the tick every
  selected attack is resolved.  The commitment was taken when the attack was declared: a
  successful declaration subtracts it from the attacker's metal and appends the pending
  attack, due two hours later; a failed one changes nothing.
\<close>

theorem attack_resolution_deterministic:
  assumes pend: "pend = filter (\<lambda>x. at_status x = AttackPending
                      \<and> (case resolves_at x of None \<Rightarrow> False | Some d \<Rightarrow> d \<le> now)
                      \<and> getTile s (target_q x) (target_r x) \<noteq> None) (attacks s)"
    and i: "i < length pend" and a: "a = pend ! i"
    and st: "st = foldl resolveAttack s (take i pend)"
    and st': "st' = foldl resolveAttack s (take (Suc i) pend)"
  shows "getPendingAttacksToResolve now s = pend
       \<and> resolveAttacks now s = foldl resolveAttack s pend
       \<and> st' = resolveAttack st a
       \<and> BASE_TILE_DEFENSE = 10
       \<and> (\<exists>tile. getTile st (target_q a) (target_r a) = Some tile
            \<and> (commitment a > 10 + fortification tile \<longrightarrow>
                 getTile st' (target_q a) (target_r a) =
                   Some (tile\<lparr>owner_id := Some (attacker_id a), fortification := 0\<rparr>)
               \<and> tiles st' =
                   map (\<lambda>t. if t_q t = target_q a \<and> t_r t = target_r a
                             then t\<lparr>owner_id := Some (attacker_id a), fortification := 0\<rparr>
                             else t) (tiles st)
               \<and> (\<forall>p ag. owner_id tile = Some p \<and> p \<noteq> [] \<and> getAgent st p = Some ag
                      \<and> capital_q ag = Some (target_q a) \<and> capital_r ag = Some (target_r a)
                    \<longrightarrow> getAgent st' p = Some (ag\<lparr>capital_q := None, capital_r := None\<rparr>)))
            \<and> (\<not> commitment a > 10 + fortification tile \<longrightarrow>
                 tiles st' = tiles st \<and> agents st' = agents st))
       \<and> attacks st' =
            map (\<lambda>x. if at_id x = at_id a then x\<lparr>at_status := AttackResolved\<rparr> else x) (attacks st)
       \<and> balances st' = balances st
       \<and> balances (resolveAttacks now s) = balances s
       \<and> attacks (processTick now s) =
            map (\<lambda>x. if at_id x \<in> at_id ` set pend then x\<lparr>at_status := AttackResolved\<rparr> else x)
              (attacks s)
       \<and> (\<forall>x \<in> set pend. \<forall>y \<in> set (attacks (processTick now s)).
             at_id y = at_id x \<longrightarrow> at_status y = AttackResolved)
       \<and> (\<forall>s0 t0 agent tq tr c. fst (declareAttack s0 t0 agent tq tr c) = Success \<longrightarrow>
             agents (snd (declareAttack s0 t0 agent tq tr c)) =
               map (\<lambda>x. if a_id x = a_id agent then x\<lparr>metal := metal x - c\<rparr> else x) (agents s0)
           \<and> attacks (snd (declareAttack s0 t0 agent tq tr c)) =
               attacks s0 @ [\<lparr>at_id = next_attack_id s0, attacker_id = a_id agent, target_q = tq,
                              target_r = tr, commitment = c, at_status = AttackPending,
                              resolves_at = Some (t0 + 7200)\<rparr>]
           \<and> 0 < c \<and> c \<le> metal agent)
       \<and> (\<forall>s0 t0 agent tq tr c. fst (declareAttack s0 t0 agent tq tr c) \<noteq> Success \<longrightarrow>
             snd (declareAttack s0 t0 agent tq tr c) = s0)"
proof -
  have sel: "getPendingAttacksToResolve now s = pend"
    unfolding pend by (rule getPendingAttacksToResolve_filter)
  have run: "resolveAttacks now s = foldl resolveAttack s pend"
    by (simp add: resolveAttacks_def sel)
  have step: "st' = resolveAttack st a"
    unfolding st' st a by (rule foldl_take_Suc[OF i])
  from selected_tile_exists[OF pend i] obtain tile where
    tile: "getTile st (target_q a) (target_r a) = Some tile"
    unfolding st a by blast
  have ok: "commitment a > 10 + fortification tile \<Longrightarrow>
              commitment a > BASE_TILE_DEFENSE + fortification tile"
    by (simp add: BASE_TILE_DEFENSE_def)
  have nok: "\<not> commitment a > 10 + fortification tile \<Longrightarrow>
              \<not> commitment a > BASE_TILE_DEFENSE + fortification tile"
    by (simp add: BASE_TILE_DEFENSE_def)
  have c5: "\<exists>tile. getTile st (target_q a) (target_r a) = Some tile
            \<and> (commitment a > 10 + fortification tile \<longrightarrow>
                 getTile st' (target_q a) (target_r a) =
                   Some (tile\<lparr>owner_id := Some (attacker_id a), fortification := 0\<rparr>)
               \<and> tiles st' =
                   map (\<lambda>t. if t_q t = target_q a \<and> t_r t = target_r a
                             then t\<lparr>owner_id := Some (attacker_id a), fortification := 0\<rparr>
                             else t) (tiles st)
               \<and> (\<forall>p ag. owner_id tile = Some p \<and> p \<noteq> [] \<and> getAgent st p = Some ag
                      \<and> capital_q ag = Some (target_q a) \<and> capital_r ag = Some (target_r a)
                    \<longrightarrow> getAgent st' p = Some (ag\<lparr>capital_q := None, capital_r := None\<rparr>)))
            \<and> (\<not> commitment a > 10 + fortification tile \<longrightarrow>
                 tiles st' = tiles st \<and> agents st' = agents st)"
    unfolding step
    using tile getTile_resolveAttack_success[OF tile ok] tiles_resolveAttack_success[OF tile ok]
      capital_resolveAttack_success[OF tile ok] tiles_resolveAttack_fail[OF tile nok]
    by blast
  have c6: "attacks st' =
            map (\<lambda>x. if at_id x = at_id a then x\<lparr>at_status := AttackResolved\<rparr> else x) (attacks st)"
    unfolding step by (rule attacks_resolveAttack)
  have c7: "balances st' = balances st" unfolding step by (rule balances_resolveAttack)
  have c8: "balances (resolveAttacks now s) = balances s"
    unfolding run by (rule balances_resolveAttacks)
  have c9: "attacks (processTick now s) =
            map (\<lambda>x. if at_id x \<in> at_id ` set pend then x\<lparr>at_status := AttackResolved\<rparr> else x)
              (attacks s)"
    unfolding attacks_processTick run by (rule attacks_foldl_resolveAttack)
  have c10: "\<forall>x \<in> set pend. \<forall>y \<in> set (attacks (processTick now s)).
             at_id y = at_id x \<longrightarrow> at_status y = AttackResolved"
    using due_attacks_resolved[of _ now s] unfolding sel by blast
  have c11: "\<forall>s0 t0 agent tq tr c. fst (declareAttack s0 t0 agent tq tr c) = Success \<longrightarrow>
             agents (snd (declareAttack s0 t0 agent tq tr c)) =
               map (\<lambda>x. if a_id x = a_id agent then x\<lparr>metal := metal x - c\<rparr> else x) (agents s0)
           \<and> attacks (snd (declareAttack s0 t0 agent tq tr c)) =
               attacks s0 @ [\<lparr>at_id = next_attack_id s0, attacker_id = a_id agent, target_q = tq,
                              target_r = tr, commitment = c, at_status = AttackPending,
                              resolves_at = Some (t0 + 7200)\<rparr>]
           \<and> 0 < c \<and> c \<le> metal agent"
    by (intro allI impI conjI) (rule declareAttack_success, assumption)+
  have c12: "\<forall>s0 t0 agent tq tr c. fst (declareAttack s0 t0 agent tq tr c) \<noteq> Success \<longrightarrow>
             snd (declareAttack s0 t0 agent tq tr c) = s0"
    using declareAttack_failure_unchanged by blast
  have c4: "BASE_TILE_DEFENSE = 10" by (simp add: BASE_TILE_DEFENSE_def)
  show ?thesis
    using sel run step c4 c5 c6 c7 c8 c9 c10 c11 c12 by (intro conjI)
qed

theorem attack_resolution_deterministic_witness:
  "fst (declareAttack peaceStore 0 alice 1 0 15) = Success
   \<and> balances peaceStore = [(str ''alice'', 100, 50), (str ''bob'', 10, 5)]
   \<and> balances warStore = [(str ''alice'', 100, 35), (str ''bob'', 10, 5)]
   \<and> attacks warStore = [attack1]
   \<and> getPendingAttacksToResolve 7200 warStore = [attack1]
   \<and> getTile warStore 1 0 = Some bobTile
   \<and> getTile (resolveAttacks 7200 warStore) 1 0 =
        Some \<lparr>t_q = 1, t_r = 0, terrain = Farmland, owner_id = Some (str ''alice''), fortification = 0\<rparr>
   \<and> getAgent (resolveAttacks 7200 warStore) (str ''bob'') =
        Some (bob\<lparr>capital_q := None, capital_r := None\<rparr>)
   \<and> balances (resolveAttacks 7200 warStore) = [(str ''alice'', 100, 35), (str ''bob'', 10, 5)]
   \<and> map at_status (attacks (processTick 7200 warStore)) = [AttackResolved]"
proof -
  have d: "fst (declareAttack peaceStore 0 alice 1 0 15) = Success" by code_simp
  have b0: "balances peaceStore = [(str ''alice'', 100, 50), (str ''bob'', 10, 5)]" by code_simp
  have b1: "balances warStore = [(str ''alice'', 100, 35), (str ''bob'', 10, 5)]" by code_simp
  have at: "attacks warStore = [attack1]" by code_simp
  have t: "getTile warStore (target_q attack1) (target_r attack1) = Some bobTile" by code_simp
  have g: "getAgent warStore (str ''bob'') = Some bob" by code_simp
  have pend: "[attack1] = filter (\<lambda>x. at_status x = AttackPending
                      \<and> (case resolves_at x of None \<Rightarrow> False | Some d \<Rightarrow> d \<le> 7200)
                      \<and> getTile warStore (target_q x) (target_r x) \<noteq> None) (attacks warStore)"
    unfolding at using t by (simp add: attack1_def)
  have i: "0 < length [attack1]" by simp
  have a: "attack1 = [attack1] ! 0" by simp
  have st: "warStore = foldl resolveAttack warStore (take 0 [attack1])" by simp
  have k: "target_q attack1 = 1" "target_r attack1 = 0" "commitment attack1 = 15"
    "attacker_id attack1 = str ''alice''" "at_id attack1 = 1"
    by (simp_all add: attack1_def)
  have kb: "fortification bobTile = 0" "owner_id bobTile = Some (str ''bob'')"
    "capital_q bob = Some 1" "capital_r bob = Some 0"
    by (simp_all add: bobTile_def bob_def)
  note T = attack_resolution_deterministic[OF pend i a st refl]
  from T have sel: "getPendingAttacksToResolve 7200 warStore = [attack1]" by (elim conjE)
  from T have run: "resolveAttacks 7200 warStore = foldl resolveAttack warStore [attack1]"
    by (elim conjE)
  from T have step: "foldl resolveAttack warStore (take (Suc 0) [attack1]) =
      resolveAttack warStore attack1" by (elim conjE)
  have run': "resolveAttacks 7200 warStore = foldl resolveAttack warStore (take (Suc 0) [attack1])"
    using run by simp
  from T obtain tile where
    tl: "getTile warStore (target_q attack1) (target_r attack1) = Some tile"
    and ok: "commitment attack1 > 10 + fortification tile \<longrightarrow>
                 getTile (foldl resolveAttack warStore (take (Suc 0) [attack1]))
                     (target_q attack1) (target_r attack1) =
                   Some (tile\<lparr>owner_id := Some (attacker_id attack1), fortification := 0\<rparr>)
               \<and> tiles (foldl resolveAttack warStore (take (Suc 0) [attack1])) =
                   map (\<lambda>t. if t_q t = target_q attack1 \<and> t_r t = target_r attack1
                             then t\<lparr>owner_id := Some (attacker_id attack1), fortification := 0\<rparr>
                             else t) (tiles warStore)
               \<and> (\<forall>p ag. owner_id tile = Some p \<and> p \<noteq> [] \<and> getAgent warStore p = Some ag
                      \<and> capital_q ag = Some (target_q attack1) \<and> capital_r ag = Some (target_r attack1)
                    \<longrightarrow> getAgent (foldl resolveAttack warStore (take (Suc 0) [attack1])) p =
                          Some (ag\<lparr>capital_q := None, capital_r := None\<rparr>))"
    by (elim conjE exE) blast
  have tile: "tile = bobTile" using tl t by simp
  have gt: "commitment attack1 > 10 + fortification tile" by (simp add: tile k kb)
  from ok gt have c1: "getTile (resolveAttacks 7200 warStore) 1 0 =
        Some (bobTile\<lparr>owner_id := Some (str ''alice''), fortification := 0\<rparr>)"
    unfolding run' tile k by blast
  have c1': "getTile (resolveAttacks 7200 warStore) 1 0 =
        Some \<lparr>t_q = 1, t_r = 0, terrain = Farmland, owner_id = Some (str ''alice''), fortification = 0\<rparr>"
    unfolding c1 by (simp add: bobTile_def)
  from ok gt have "\<forall>p ag. owner_id tile = Some p \<and> p \<noteq> [] \<and> getAgent warStore p = Some ag
                      \<and> capital_q ag = Some (target_q attack1) \<and> capital_r ag = Some (target_r attack1)
                    \<longrightarrow> getAgent (resolveAttacks 7200 warStore) p =
                          Some (ag\<lparr>capital_q := None, capital_r := None\<rparr>)"
    unfolding run' by blast
  from this[rule_format, of "str ''bob''" bob] g
  have c2: "getAgent (resolveAttacks 7200 warStore) (str ''bob'') =
        Some (bob\<lparr>capital_q := None, capital_r := None\<rparr>)"
    by (simp add: tile k kb)
  from T have "balances (resolveAttacks 7200 warStore) = balances warStore" by (elim conjE)
  then have c3: "balances (resolveAttacks 7200 warStore) = [(str ''alice'', 100, 35), (str ''bob'', 10, 5)]"
    by (simp only: b1)
  from T have "attacks (processTick 7200 warStore) =
            map (\<lambda>x. if at_id x \<in> at_id ` set [attack1] then x\<lparr>at_status := AttackResolved\<rparr> else x)
              (attacks warStore)" by (elim conjE)
  then have c4: "map at_status (attacks (processTick 7200 warStore)) = [AttackResolved]"
    by (simp add: at)
  have t': "getTile warStore 1 0 = Some bobTile" using t by (simp add: k)
  show ?thesis
    using d b0 b1 at sel t' c1' c2 c3 c4 by (intro conjI)
qed

text \<open>
  Claim C10.  The selection of STEP 1 asks only for a pending status, a deadline that has
  passed and an existing target tile; it compares neither the attacker with the tile's
  owner nor the attacker's territory with the target.  When the loop reaches a selected
  attack, the target tile after the iteration is the tile with the attacker as owner and
  fortification 0 if the commitment exceeds 10 plus the fortification the tile has at
  that moment, and the tile as it was otherwise, whoever owns the tile and wherever the
  attacker's tiles lie.  So when the attacker already owns the tile, whether by a gift or
  by an earlier iteration of the same loop, a commitment above the defence leaves the
  owner in place and resets the fortification to 0.
\<close>

theorem resolution_checks_commitment_only:
  assumes pend: "pend = filter (\<lambda>x. at_status x = AttackPending
                      \<and> (case resolves_at x of None \<Rightarrow> False | Some d \<Rightarrow> d \<le> now)
                      \<and> getTile s (target_q x) (target_r x) \<noteq> None) (attacks s)"
    and i: "i < length pend" and a: "a = pend ! i"
    and st: "st = foldl resolveAttack s (take i pend)"
    and st': "st' = foldl resolveAttack s (take (Suc i) pend)"
  shows "getPendingAttacksToResolve now s = pend
       \<and> resolveAttacks now s = foldl resolveAttack s pend
       \<and> processTick now s =
            updateGameState now (current_tick s + 1)
              (expireTrades now
                 (deductUpkeep (agents (foldl resolveAttack s pend))
                    (produceResources (agents (foldl resolveAttack s pend))
                       (foldl resolveAttack s pend))))
       \<and> st' = resolveAttack st a
       \<and> (\<exists>tile. getTile st (target_q a) (target_r a) = Some tile
            \<and> getTile st' (target_q a) (target_r a) =
                Some (if commitment a > 10 + fortification tile
                      then tile\<lparr>owner_id := Some (attacker_id a), fortification := 0\<rparr>
                      else tile)
            \<and> (owner_id tile = Some (attacker_id a) \<and> commitment a > 10 + fortification tile
                 \<longrightarrow> getTile st' (target_q a) (target_r a) = Some (tile\<lparr>fortification := 0\<rparr>)))"
proof -
  have sel: "getPendingAttacksToResolve now s = pend"
    unfolding pend by (rule getPendingAttacksToResolve_filter)
  have run: "resolveAttacks now s = foldl resolveAttack s pend"
    by (simp add: resolveAttacks_def sel)
  have tick: "processTick now s =
            updateGameState now (current_tick s + 1)
              (expireTrades now
                 (deductUpkeep (agents (foldl resolveAttack s pend))
                    (produceResources (agents (foldl resolveAttack s pend))
                       (foldl resolveAttack s pend))))"
    unfolding processTick_steps run ..
  have step: "st' = resolveAttack st a"
    unfolding st' st a by (rule foldl_take_Suc[OF i])
  from selected_tile_exists[OF pend i] obtain tile where
    tile: "getTile st (target_q a) (target_r a) = Some tile"
    unfolding st a by blast
  have after: "getTile st' (target_q a) (target_r a) =
                Some (if commitment a > 10 + fortification tile
                      then tile\<lparr>owner_id := Some (attacker_id a), fortification := 0\<rparr>
                      else tile)"
  proof (cases "commitment a > 10 + fortification tile")
    case True
    then have "commitment a > BASE_TILE_DEFENSE + fortification tile"
      by (simp add: BASE_TILE_DEFENSE_def)
    from getTile_resolveAttack_success[OF tile this] True show ?thesis
      unfolding step by simp
  next
    case False
    then have "\<not> commitment a > BASE_TILE_DEFENSE + fortification tile"
      by (simp add: BASE_TILE_DEFENSE_def)
    from getTile_resolveAttack_fail[OF tile this] False show ?thesis
      unfolding step by simp
  qed
  have own: "owner_id tile = Some (attacker_id a) \<Longrightarrow>
        tile\<lparr>owner_id := Some (attacker_id a), fortification := 0\<rparr> = tile\<lparr>fortification := 0\<rparr>"
    by (cases tile) simp
  have self: "owner_id tile = Some (attacker_id a) \<and> commitment a > 10 + fortification tile
                 \<longrightarrow> getTile st' (target_q a) (target_r a) = Some (tile\<lparr>fortification := 0\<rparr>)"
    using after own by simp
  have ex: "\<exists>tile. getTile st (target_q a) (target_r a) = Some tile
            \<and> getTile st' (target_q a) (target_r a) =
                Some (if commitment a > 10 + fortification tile
                      then tile\<lparr>owner_id := Some (attacker_id a), fortification := 0\<rparr>
                      else tile)
            \<and> (owner_id tile = Some (attacker_id a) \<and> commitment a > 10 + fortification tile
                 \<longrightarrow> getTile st' (target_q a) (target_r a) = Some (tile\<lparr>fortification := 0\<rparr>))"
    using tile after self by blast
  show ?thesis
    using sel run tick step ex by (intro conjI)
qed

theorem resolution_checks_commitment_only_witness:
  "getPendingAttacksToResolve 7200 selfStore = [attack2]
   \<and> getTile selfStore 5 5 = Some fortTile
   \<and> owner_id fortTile = Some (attacker_id attack2)
   \<and> fortification fortTile = 8
   \<and> \<not> hasAdjacentTerritory selfStore (attacker_id attack2) (target_q attack2) (target_r attack2)
   \<and> getTile (resolveAttacks 7200 selfStore) 5 5 = Some (fortTile\<lparr>fortification := 0\<rparr>)
   \<and> getTile (processTick 7200 selfStore) 5 5 = Some (fortTile\<lparr>fortification := 0\<rparr>)"
proof -
  have at: "attacks selfStore = [attack2]" by (simp add: selfStore_def)
  have t: "getTile selfStore (target_q attack2) (target_r attack2) = Some fortTile"
    by (simp add: getTile_def self_defs)
  have k: "target_q attack2 = 5" "target_r attack2 = 5" "commitment attack2 = 20"
    "attacker_id attack2 = str ''alice''" "fortification fortTile = 8"
    "owner_id fortTile = Some (str ''alice'')"
    by (simp_all add: attack2_def fortTile_def)
  have n: "\<not> hasAdjacentTerritory selfStore (attacker_id attack2) (target_q attack2) (target_r attack2)"
    by (simp add: hasAdjacentTerritory_def getNeighbors_def getTile_def self_defs)
  have pend: "[attack2] = filter (\<lambda>x. at_status x = AttackPending
                      \<and> (case resolves_at x of None \<Rightarrow> False | Some d \<Rightarrow> d \<le> 7200)
                      \<and> getTile selfStore (target_q x) (target_r x) \<noteq> None) (attacks selfStore)"
    unfolding at using t by (simp add: attack2_def)
  have i: "0 < length [attack2]" by simp
  have a: "attack2 = [attack2] ! 0" by simp
  have st: "selfStore = foldl resolveAttack selfStore (take 0 [attack2])" by simp
  note T = resolution_checks_commitment_only[OF pend i a st refl]
  from T have sel: "getPendingAttacksToResolve 7200 selfStore = [attack2]" by (elim conjE)
  from T have run: "resolveAttacks 7200 selfStore = foldl resolveAttack selfStore [attack2]"
    by (elim conjE)
  have run': "resolveAttacks 7200 selfStore = foldl resolveAttack selfStore (take (Suc 0) [attack2])"
    using run by simp
  from T obtain tile where
    tl: "getTile selfStore (target_q attack2) (target_r attack2) = Some tile"
    and self: "owner_id tile = Some (attacker_id attack2) \<and> commitment attack2 > 10 + fortification tile
                 \<longrightarrow> getTile (foldl resolveAttack selfStore (take (Suc 0) [attack2]))
                        (target_q attack2) (target_r attack2) = Some (tile\<lparr>fortification := 0\<rparr>)"
    by (elim conjE exE) blast
  have tile: "tile = fortTile" using tl t by simp
  from self have c1: "getTile (resolveAttacks 7200 selfStore) 5 5 = Some (fortTile\<lparr>fortification := 0\<rparr>)"
    unfolding run' tile k by simp
  have c2: "getTile (processTick 7200 selfStore) 5 5 = Some (fortTile\<lparr>fortification := 0\<rparr>)"
    by code_simp
  have t': "getTile selfStore 5 5 = Some fortTile" using t by (simp add: k)
  have o: "owner_id fortTile = Some (attacker_id attack2)" by (simp add: k)
  show ?thesis
    using sel t' o k(5) n c1 c2 by (intro conjI)
qed

end
